theory Spec2Isabelle
  imports Complex_Main
begin

section \<open>Configuration constants (types.ts)\<close>

text \<open>
  JavaScript numbers that carry scores, weights and confidences are modelled as
  mathematical reals; counters and row identifiers as naturals; clock readings
  (\<open>Date.now()\<close>, milliseconds) as integers. Every operation is given the clock
  reading \<open>now\<close> at which it runs.
\<close>

definition minEpisodes :: nat where
  "minEpisodes = 3"

definition recencyWindowDays :: int where
  "recencyWindowDays = 30"

definition decayConstant :: real where
  "decayConstant = 0.01"

definition minDiscriminationWeight :: real where
  "minDiscriminationWeight = 0.3"

definition weight_novelty :: real where
  "weight_novelty = 0.3"

definition weight_effectiveness :: real where
  "weight_effectiveness = 0.5"

definition weight_generalizability :: real where
  "weight_generalizability = 0.2"

definition threshold_high :: real where
  "threshold_high = 0.7"

definition threshold_medium :: real where
  "threshold_medium = 0.4"

definition threshold_deprecation :: real where
  "threshold_deprecation = 0.1"

definition msPerDay :: int where
  "msPerDay = 24 * 60 * 60 * 1000"

section \<open>Scoring helpers (types.ts)\<close>

definition calculateCurrentConfidence :: "int \<Rightarrow> real \<Rightarrow> real \<Rightarrow> int \<Rightarrow> real" where
  "calculateCurrentConfidence now initialConfidence decayConstant' lastValidated =
     (let daysSinceValidation = real_of_int (now - lastValidated) / real_of_int msPerDay;
          decayFactor = exp (- decayConstant' * daysSinceValidation)
      in initialConfidence * decayFactor)"

definition calculateUtilityScore :: "real \<Rightarrow> real \<Rightarrow> real \<Rightarrow> real" where
  "calculateUtilityScore novelty effectiveness generalizability =
     weight_novelty * novelty
     + weight_effectiveness * effectiveness
     + weight_generalizability * generalizability"

definition calculateDiscriminationWeight :: "int \<Rightarrow> nat \<Rightarrow> nat \<Rightarrow> nat \<Rightarrow> int \<Rightarrow> real" where
  "calculateDiscriminationWeight now timesSucceeded timesApplied frequency lastSeen =
     (let successRate = (if timesApplied > 0 then real timesSucceeded / real timesApplied else 0.5);
          frequencyWeight = ln (real frequency + 1);
          daysSinceLastSeen = real_of_int (now - lastSeen) / real_of_int msPerDay;
          recencyBonus = exp (- decayConstant * daysSinceLastSeen)
      in successRate * frequencyWeight * recencyBonus)"

section \<open>Data model (types.ts)\<close>

datatype outcome = Success | Failure | Partial

datatype pattern_type = PSuccess | PFailure | PCorrelation

datatype error = NotFound nat | InsufficientEvidence nat | SyntaxError

text \<open>
  The free-form payloads (problem, solution, metadata) are JSON values. Number leaves
  are restricted to integers. An object is its list of properties in property order.
\<close>

datatype json =
    JNull
  | JBool bool
  | JNum int
  | JStr string
  | JArr "json list"
  | JObj "(string \<times> json) list"

text \<open>JavaScript truthiness of a value (\<open>x ? a : b\<close>).\<close>

fun truthy :: "json \<Rightarrow> bool" where
  "truthy JNull = False"
| "truthy (JBool b) = b"
| "truthy (JNum n) = (n \<noteq> 0)"
| "truthy (JStr s) = (s \<noteq> [])"
| "truthy (JArr xs) = True"
| "truthy (JObj kvs) = True"

text \<open>Optional property access \<open>x?.key\<close>; \<open>None\<close> is \<open>undefined\<close>.\<close>

fun get_prop :: "string \<Rightarrow> json option \<Rightarrow> json option" where
  "get_prop k (Some (JObj kvs)) = map_of kvs k"
| "get_prop k other = None"

text \<open>Strict equality \<open>===\<close> of two optional values; arrays and objects read from
  different places are different references.\<close>

fun strict_eq :: "json option \<Rightarrow> json option \<Rightarrow> bool" where
  "strict_eq None None = True"
| "strict_eq (Some JNull) (Some JNull) = True"
| "strict_eq (Some (JBool a)) (Some (JBool b)) = (a = b)"
| "strict_eq (Some (JNum a)) (Some (JNum b)) = (a = b)"
| "strict_eq (Some (JStr a)) (Some (JStr b)) = (a = b)"
| "strict_eq x y = False"

text \<open>\<open>x?.length ?? 0\<close> for a value declared as an array of strings.\<close>

fun length_or_zero :: "json option \<Rightarrow> nat" where
  "length_or_zero (Some (JArr xs)) = length xs"
| "length_or_zero (Some (JStr s)) = length s"
| "length_or_zero other = 0"

record episode =
  e_id :: nat
  e_timestamp :: int
  e_operation_type :: string
  e_server_name :: "string option"
  e_problem :: "json option"
  e_solution :: "json option"
  e_outcome :: outcome
  e_metadata :: "json option"
  e_quality_score :: "real option"
  e_duration_ms :: "int option"
  e_notes :: "string option"
  e_novelty_score :: real
  e_effectiveness_score :: real
  e_generalizability_score :: real
  e_utility_score :: real

record pattern =
  p_id :: nat
  p_pattern_type :: pattern_type
  p_description :: string
  p_episode_ids :: "nat list"
  p_frequency :: nat
  p_last_seen :: int
  p_created_at :: int
  p_initial_confidence :: real
  p_decay_constant :: real
  p_last_validated :: int
  p_times_applied :: nat
  p_times_succeeded :: nat
  p_discrimination_weight :: real

record lesson =
  l_id :: nat
  l_statement :: string
  l_pattern_id :: "nat option"
  l_contexts :: "string list option"
  l_initial_confidence :: real
  l_decay_constant :: real
  l_last_validated :: int
  l_times_applied :: nat
  l_times_succeeded :: nat
  l_created_at :: int
  l_deprecated_at :: "int option"

text \<open>\<open>Partial<Pattern>\<close> and \<open>Partial<Lesson>\<close> as passed to the update
  methods: a field is \<open>None\<close> when the caller leaves it undefined.\<close>

record pattern_updates =
  pu_frequency :: "nat option"
  pu_last_seen :: "int option"
  pu_initial_confidence :: "real option"
  pu_last_validated :: "int option"
  pu_times_applied :: "nat option"
  pu_times_succeeded :: "nat option"
  pu_discrimination_weight :: "real option"
  pu_episode_ids :: "nat list option"

record lesson_updates =
  lu_initial_confidence :: "real option"
  lu_last_validated :: "int option"
  lu_times_applied :: "nat option"
  lu_times_succeeded :: "nat option"
  lu_deprecated_at :: "int option"
  lu_contexts :: "string list option"

definition no_pattern_updates :: pattern_updates where
  "no_pattern_updates =
     \<lparr>pu_frequency = None, pu_last_seen = None, pu_initial_confidence = None,
      pu_last_validated = None, pu_times_applied = None, pu_times_succeeded = None,
      pu_discrimination_weight = None, pu_episode_ids = None\<rparr>"

definition no_lesson_updates :: lesson_updates where
  "no_lesson_updates =
     \<lparr>lu_initial_confidence = None, lu_last_validated = None, lu_times_applied = None,
      lu_times_succeeded = None, lu_deprecated_at = None, lu_contexts = None\<rparr>"

section \<open>The store (database/schema.ts)\<close>

text \<open>
  The three tables are lists of rows in rowid order, seen through the row conversion
  helpers (structured columns already decoded; their text encoding is the subject of the
  section on serialisation below). Each table has its AUTOINCREMENT counter: the largest
  rowid handed out so far.
\<close>

record store =
  episodes :: "episode list"
  patterns :: "pattern list"
  lessons :: "lesson list"
  episode_seq :: nat
  pattern_seq :: nat
  lesson_seq :: nat

definition empty_store :: store where
  "empty_store = \<lparr>episodes = [], patterns = [], lessons = [],
     episode_seq = 0, pattern_seq = 0, lesson_seq = 0\<rparr>"

text \<open>\<open>x || null\<close> on an optional string: the empty string is falsy.\<close>

definition or_null :: "string option \<Rightarrow> string option" where
  "or_null x = (case x of None \<Rightarrow> None | Some v \<Rightarrow> if v = [] then None else Some v)"

text \<open>\<open>x ? JSON.stringify(x) : null\<close>, read back with
  \<open>row.x ? JSON.parse(row.x) : undefined\<close>: a falsy value is stored as NULL.\<close>

definition if_truthy :: "json option \<Rightarrow> json option" where
  "if_truthy x = (case x of None \<Rightarrow> None | Some v \<Rightarrow> if truthy v then Some v else None)"

definition insertEpisode :: "store \<Rightarrow> episode \<Rightarrow> nat \<times> store" where
  "insertEpisode s episode =
     (let rowid = Suc (episode_seq s);
          row = episode\<lparr>e_id := rowid,
                  e_server_name := or_null (e_server_name episode),
                  e_problem := if_truthy (e_problem episode),
                  e_solution := if_truthy (e_solution episode),
                  e_metadata := if_truthy (e_metadata episode)\<rparr>
      in (rowid, s\<lparr>episodes := episodes s @ [row], episode_seq := rowid\<rparr>))"

definition getEpisode :: "store \<Rightarrow> nat \<Rightarrow> episode option" where
  "getEpisode s i = find (\<lambda>e. e_id e = i) (episodes s)"

text \<open>\<open>ORDER BY timestamp DESC LIMIT ?\<close>: a stable descending sort of the rows in
  rowid order, then the first \<open>limit\<close> rows.\<close>

definition getEpisodesByType :: "store \<Rightarrow> string \<Rightarrow> int option \<Rightarrow> nat \<Rightarrow> episode list" where
  "getEpisodesByType s operationType since limit =
     take limit
       (sort_key (\<lambda>e. - e_timestamp e)
         (filter (\<lambda>e. e_operation_type e = operationType
                       \<and> (case since of None \<Rightarrow> True | Some t \<Rightarrow> e_timestamp e \<ge> t))
            (episodes s)))"

definition getEpisodesByIds :: "store \<Rightarrow> nat list \<Rightarrow> episode list" where
  "getEpisodesByIds s ids =
     (if ids = [] then [] else filter (\<lambda>e. e_id e \<in> set ids) (episodes s))"

definition insertPattern :: "store \<Rightarrow> pattern \<Rightarrow> nat \<times> store" where
  "insertPattern s pattern =
     (let rowid = Suc (pattern_seq s)
      in (rowid, s\<lparr>patterns := patterns s @ [pattern\<lparr>p_id := rowid\<rparr>], pattern_seq := rowid\<rparr>))"

definition getPattern :: "store \<Rightarrow> nat \<Rightarrow> pattern option" where
  "getPattern s i = find (\<lambda>p. p_id p = i) (patterns s)"

text \<open>
  SQLite's \<open>LIKE\<close>: \<open>%\<close> matches any run of characters, \<open>_\<close> any one character,
  and letters of the ASCII range match without regard to case.
\<close>

definition ascii_lower :: "char \<Rightarrow> char" where
  "ascii_lower c =
     (let n = (of_char c :: nat) in if 65 \<le> n \<and> n \<le> 90 then char_of (n + 32) else c)"

fun sql_like :: "string \<Rightarrow> string \<Rightarrow> bool" where
  "sql_like [] [] = True"
| "sql_like [] (c # cs) = False"
| "sql_like (p # ps) [] = (p = CHR ''%'' \<and> sql_like ps [])"
| "sql_like (p # ps) (c # cs) =
     (if p = CHR ''%'' then sql_like ps (c # cs) \<or> sql_like (p # ps) cs
      else (p = CHR ''_'' \<or> ascii_lower p = ascii_lower c) \<and> sql_like ps cs)"

text \<open>\<open>WHERE description LIKE '%searchText%' LIMIT 1\<close>: the first matching row.\<close>

definition findPatternByDescription :: "store \<Rightarrow> string \<Rightarrow> pattern option" where
  "findPatternByDescription s searchText =
     find (\<lambda>p. sql_like (CHR ''%'' # searchText @ [CHR ''%'']) (p_description p)) (patterns s)"

definition apply_pattern_updates :: "pattern_updates \<Rightarrow> pattern \<Rightarrow> pattern" where
  "apply_pattern_updates u p =
     p\<lparr>p_frequency := (case pu_frequency u of None \<Rightarrow> p_frequency p | Some v \<Rightarrow> v),
       p_last_seen := (case pu_last_seen u of None \<Rightarrow> p_last_seen p | Some v \<Rightarrow> v),
       p_initial_confidence :=
         (case pu_initial_confidence u of None \<Rightarrow> p_initial_confidence p | Some v \<Rightarrow> v),
       p_last_validated :=
         (case pu_last_validated u of None \<Rightarrow> p_last_validated p | Some v \<Rightarrow> v),
       p_times_applied := (case pu_times_applied u of None \<Rightarrow> p_times_applied p | Some v \<Rightarrow> v),
       p_times_succeeded :=
         (case pu_times_succeeded u of None \<Rightarrow> p_times_succeeded p | Some v \<Rightarrow> v),
       p_discrimination_weight :=
         (case pu_discrimination_weight u of None \<Rightarrow> p_discrimination_weight p | Some v \<Rightarrow> v),
       p_episode_ids := (case pu_episode_ids u of None \<Rightarrow> p_episode_ids p | Some v \<Rightarrow> v)\<rparr>"

definition updatePattern :: "store \<Rightarrow> nat \<Rightarrow> pattern_updates \<Rightarrow> bool \<times> store" where
  "updatePattern s i u =
     (if pu_frequency u = None \<and> pu_last_seen u = None \<and> pu_initial_confidence u = None
         \<and> pu_last_validated u = None \<and> pu_times_applied u = None
         \<and> pu_times_succeeded u = None \<and> pu_discrimination_weight u = None
         \<and> pu_episode_ids u = None
      then (False, s)
      else (list_ex (\<lambda>p. p_id p = i) (patterns s),
            s\<lparr>patterns :=
                map (\<lambda>p. if p_id p = i then apply_pattern_updates u p else p) (patterns s)\<rparr>))"

definition insertLesson :: "store \<Rightarrow> lesson \<Rightarrow> nat \<times> store" where
  "insertLesson s lesson =
     (let rowid = Suc (lesson_seq s)
      in (rowid, s\<lparr>lessons := lessons s @ [lesson\<lparr>l_id := rowid\<rparr>], lesson_seq := rowid\<rparr>))"

definition getLesson :: "store \<Rightarrow> nat \<Rightarrow> lesson option" where
  "getLesson s i = find (\<lambda>l. l_id l = i) (lessons s)"

text \<open>\<open>WHERE deprecated_at IS NULL ORDER BY initial_confidence DESC\<close> (a stable sort of
  the rows in rowid order), then the decayed confidence is attached to every row and the
  rows below the threshold are dropped.\<close>

definition getActiveLessons :: "int \<Rightarrow> store \<Rightarrow> real \<Rightarrow> (lesson \<times> real) list" where
  "getActiveLessons now s minConfidence =
     (let rows = sort_key (\<lambda>l. - l_initial_confidence l)
                   (filter (\<lambda>l. l_deprecated_at l = None) (lessons s))
      in filter (\<lambda>(lesson, current_confidence). current_confidence \<ge> minConfidence)
           (map (\<lambda>lesson. (lesson,
                   calculateCurrentConfidence now (l_initial_confidence lesson)
                     (l_decay_constant lesson) (l_last_validated lesson)))
              rows))"

definition apply_lesson_updates :: "lesson_updates \<Rightarrow> lesson \<Rightarrow> lesson" where
  "apply_lesson_updates u l =
     l\<lparr>l_initial_confidence :=
         (case lu_initial_confidence u of None \<Rightarrow> l_initial_confidence l | Some v \<Rightarrow> v),
       l_last_validated :=
         (case lu_last_validated u of None \<Rightarrow> l_last_validated l | Some v \<Rightarrow> v),
       l_times_applied := (case lu_times_applied u of None \<Rightarrow> l_times_applied l | Some v \<Rightarrow> v),
       l_times_succeeded :=
         (case lu_times_succeeded u of None \<Rightarrow> l_times_succeeded l | Some v \<Rightarrow> v),
       l_deprecated_at :=
         (case lu_deprecated_at u of None \<Rightarrow> l_deprecated_at l | Some v \<Rightarrow> Some v),
       l_contexts := (case lu_contexts u of None \<Rightarrow> l_contexts l | Some v \<Rightarrow> Some v)\<rparr>"

definition updateLesson :: "store \<Rightarrow> nat \<Rightarrow> lesson_updates \<Rightarrow> bool \<times> store" where
  "updateLesson s i u =
     (if lu_initial_confidence u = None \<and> lu_last_validated u = None
         \<and> lu_times_applied u = None \<and> lu_times_succeeded u = None
         \<and> lu_deprecated_at u = None \<and> lu_contexts u = None
      then (False, s)
      else (list_ex (\<lambda>l. l_id l = i) (lessons s),
            s\<lparr>lessons :=
                map (\<lambda>l. if l_id l = i then apply_lesson_updates u l else l) (lessons s)\<rparr>))"

definition deprecateLesson :: "int \<Rightarrow> store \<Rightarrow> nat \<Rightarrow> bool \<times> store" where
  "deprecateLesson now s i =
     (list_ex (\<lambda>l. l_id l = i) (lessons s),
      s\<lparr>lessons :=
          map (\<lambda>l. if l_id l = i then l\<lparr>l_deprecated_at := Some now\<rparr> else l) (lessons s)\<rparr>)"

section \<open>Number formatting\<close>

text \<open>\<open>Math.round\<close>: the nearest integer, halves upwards.\<close>

definition js_round :: "real \<Rightarrow> int" where
  "js_round x = \<lfloor>x + 1 / 2\<rfloor>"

definition digit_char :: "nat \<Rightarrow> char" where
  "digit_char d = ''0123456789'' ! d"

text \<open>A non-negative whole number inside a template literal: its decimal digits.\<close>

function string_of_nat :: "nat \<Rightarrow> string" where
  "string_of_nat n =
     (if n < 10 then [digit_char n] else string_of_nat (n div 10) @ [digit_char (n mod 10)])"
  by pat_completeness auto
termination
  by (relation "measure id") auto

declare string_of_nat.simps [simp del]

section \<open>Recording an experience (tools/record-experience.ts)\<close>

record record_experience_input =
  ri_operation_type :: string
  ri_server_name :: "string option"
  ri_problem :: "json option"
  ri_solution :: "json option"
  ri_outcome :: outcome
  ri_metadata :: "json option"
  ri_quality_score :: "real option"
  ri_duration_ms :: "int option"
  ri_notes :: "string option"

record record_experience_result =
  rr_episode_id :: nat
  rr_recorded :: bool
  rr_utility_score :: real
  rr_patterns_triggered :: "string list"

definition calculateNoveltyScore :: "store \<Rightarrow> string \<Rightarrow> json option \<Rightarrow> real" where
  "calculateNoveltyScore s operationType problem =
     (let recentEpisodes = getEpisodesByType s operationType None 50
      in if length recentEpisodes = 0 then 1.0
         else
           let similarCount =
                 length (filter (\<lambda>episode. strict_eq (get_prop ''query'' (e_problem episode))
                                               (get_prop ''query'' problem)) recentEpisodes);
               similarityRatio = real similarCount / real (length recentEpisodes)
           in max 0.1 (1.0 - similarityRatio))"

definition calculateEffectivenessScore :: "outcome \<Rightarrow> real option \<Rightarrow> real" where
  "calculateEffectivenessScore outcome' qualityScore =
     (let baseScore = (if outcome' = Success then 1.0 else if outcome' = Partial then 0.5 else 0.0)
      in case qualityScore of
           Some q \<Rightarrow> 0.6 * baseScore + 0.4 * q
         | None \<Rightarrow> baseScore)"

definition calculateGeneralizabilityScore :: "store \<Rightarrow> string \<Rightarrow> json option \<Rightarrow> real" where
  "calculateGeneralizabilityScore s operationType metadata =
     (let depCount = length_or_zero (get_prop ''dependencies'' metadata);
          triggerCount = length_or_zero (get_prop ''triggers'' metadata);
          depPenalty = min 0.3 (real depCount * 0.1);
          triggerBonus = min 0.2 (real triggerCount * 0.05);
          typeCount = length (getEpisodesByType s operationType None 1000);
          typeBonus = min 0.3 (ln (real typeCount + 1) * 0.1)
      in max 0.1 (min 1.0 (0.5 - depPenalty + triggerBonus + typeBonus)))"

definition classify :: "real \<Rightarrow> pattern_type" where
  "classify successRate =
     (if successRate > 0.6 then PSuccess else if successRate < 0.4 then PFailure else PCorrelation)"

definition detectPatterns :: "int \<Rightarrow> episode \<Rightarrow> store \<Rightarrow> pattern list \<times> store" where
  "detectPatterns now episode s =
     (let windowStart = now - recencyWindowDays * 24 * 60 * 60 * 1000;
          similar = getEpisodesByType s (e_operation_type episode) (Some windowStart) 500
      in if length similar < minEpisodes then ([], s)
         else
           let successCount = length (filter (\<lambda>e. e_outcome e = Success) similar);
               successRate = real successCount / real (length similar);
               frequencyWeight = ln (real (length similar) + 1);
               avgAge = (\<Sum>e\<leftarrow>similar. real_of_int (now - e_timestamp e)) / real (length similar);
               avgAgeDays = avgAge / real_of_int msPerDay;
               recencyBonus = exp (- decayConstant * avgAgeDays);
               discriminationWeight = successRate * frequencyWeight * recencyBonus
           in if discriminationWeight < minDiscriminationWeight then ([], s)
              else
                let patternType = classify successRate;
                    description = e_operation_type episode @ '': ''
                      @ string_of_nat (nat (js_round (successRate * 100)))
                      @ ''% success rate over '' @ string_of_nat (length similar) @ '' episodes''
                in case findPatternByDescription s (e_operation_type episode) of
                     Some existing \<Rightarrow>
                       let s' = snd (updatePattern s (p_id existing)
                                  (no_pattern_updates\<lparr>
                                     pu_frequency := Some (length similar),
                                     pu_discrimination_weight := Some discriminationWeight,
                                     pu_initial_confidence :=
                                       Some ((p_initial_confidence existing + discriminationWeight) / 2),
                                     pu_last_seen := Some now,
                                     pu_last_validated := Some now,
                                     pu_episode_ids := Some (map e_id similar)\<rparr>))
                       in (case getPattern s' (p_id existing) of
                             Some updated \<Rightarrow> ([updated], s')
                           | None \<Rightarrow> ([], s'))
                   | None \<Rightarrow>
                       let (patternId, s') = insertPattern s
                             \<lparr>p_id = 0,
                              p_pattern_type = patternType,
                              p_description = description,
                              p_episode_ids = map e_id similar,
                              p_frequency = length similar,
                              p_last_seen = now,
                              p_created_at = now,
                              p_initial_confidence = min 0.8 (0.4 + discriminationWeight),
                              p_decay_constant = decayConstant,
                              p_last_validated = now,
                              p_times_applied = 0,
                              p_times_succeeded = 0,
                              p_discrimination_weight = discriminationWeight\<rparr>
                       in (case getPattern s' patternId of
                             Some pattern \<Rightarrow> ([pattern], s')
                           | None \<Rightarrow> ([], s')))"

definition recordExperience ::
  "int \<Rightarrow> record_experience_input \<Rightarrow> store \<Rightarrow> record_experience_result \<times> store" where
  "recordExperience now input s =
     (let noveltyScore = calculateNoveltyScore s (ri_operation_type input) (ri_problem input);
          effectivenessScore = calculateEffectivenessScore (ri_outcome input) (ri_quality_score input);
          generalizabilityScore =
            calculateGeneralizabilityScore s (ri_operation_type input) (ri_metadata input);
          utilityScore = calculateUtilityScore noveltyScore effectivenessScore generalizabilityScore;
          episode = \<lparr>e_id = 0,
                     e_timestamp = now,
                     e_operation_type = ri_operation_type input,
                     e_server_name = ri_server_name input,
                     e_problem = ri_problem input,
                     e_solution = ri_solution input,
                     e_outcome = ri_outcome input,
                     e_metadata = ri_metadata input,
                     e_quality_score = ri_quality_score input,
                     e_duration_ms = ri_duration_ms input,
                     e_notes = ri_notes input,
                     e_novelty_score = noveltyScore,
                     e_effectiveness_score = effectivenessScore,
                     e_generalizability_score = generalizabilityScore,
                     e_utility_score = utilityScore\<rparr>;
          (episodeId, s1) = insertEpisode s episode;
          (patterns', s2) = (case getEpisode s1 episodeId of
                               Some savedEpisode \<Rightarrow> detectPatterns now savedEpisode s1
                             | None \<Rightarrow> ([], s1))
      in (\<lparr>rr_episode_id = episodeId,
           rr_recorded = True,
           rr_utility_score = utilityScore,
           rr_patterns_triggered = map p_description patterns'\<rparr>, s2))"

section \<open>Applying a lesson (tools/apply-lesson.ts)\<close>

record apply_lesson_input =
  ai_lesson_id :: nat
  ai_outcome :: outcome

record apply_lesson_result =
  ar_applied :: bool
  ar_lesson_id :: nat
  ar_previous_confidence :: real
  ar_new_confidence :: real
  ar_total_applications :: nat
  ar_success_rate :: real

definition applyLesson ::
  "int \<Rightarrow> apply_lesson_input \<Rightarrow> store \<Rightarrow> error + (apply_lesson_result \<times> store)" where
  "applyLesson now input s =
     (case getLesson s (ai_lesson_id input) of
        None \<Rightarrow> Inl (NotFound (ai_lesson_id input))
      | Some lesson \<Rightarrow>
          let previousConfidence =
                calculateCurrentConfidence now (l_initial_confidence lesson)
                  (l_decay_constant lesson) (l_last_validated lesson);
              succeeded = (ai_outcome input = Success);
              partialSuccess = (ai_outcome input = Partial);
              newTimesApplied = l_times_applied lesson + 1;
              newTimesSucceeded = real (l_times_succeeded lesson)
                + (if succeeded then 1 else if partialSuccess then 0.5 else 0);
              successRate = newTimesSucceeded / real newTimesApplied;
              priorWeight = max 0.3 (1 - ln (real newTimesApplied + 1) / 5);
              evidenceWeight = 1 - priorWeight;
              evidenceConfidence = (if succeeded then 1.0 else if partialSuccess then 0.5 else 0.0);
              newInitialConfidence =
                max 0.1 (min 0.95
                  (priorWeight * previousConfidence
                   + evidenceWeight * (0.7 * successRate + 0.3 * evidenceConfidence)));
              s1 = snd (updateLesson s (ai_lesson_id input)
                     (no_lesson_updates\<lparr>
                        lu_initial_confidence := Some newInitialConfidence,
                        lu_last_validated := Some now,
                        lu_times_applied := Some newTimesApplied,
                        lu_times_succeeded := Some (nat (js_round newTimesSucceeded))\<rparr>));
              s2 = (if newInitialConfidence < threshold_deprecation \<and> newTimesApplied \<ge> 5
                    then snd (deprecateLesson now s1 (ai_lesson_id input))
                    else s1);
              s3 = (case l_pattern_id lesson of
                      None \<Rightarrow> s2
                    | Some pid \<Rightarrow>
                        if pid = 0 then s2
                        else (case getPattern s2 pid of
                                None \<Rightarrow> s2
                              | Some pattern \<Rightarrow>
                                  snd (updatePattern s2 pid
                                    (no_pattern_updates\<lparr>
                                       pu_times_applied := Some (p_times_applied pattern + 1),
                                       pu_times_succeeded :=
                                         Some (p_times_succeeded pattern + (if succeeded then 1 else 0)),
                                       pu_last_validated := Some now\<rparr>))))
          in Inr (\<lparr>ar_applied = True,
                   ar_lesson_id = ai_lesson_id input,
                   ar_previous_confidence = previousConfidence,
                   ar_new_confidence = newInitialConfidence,
                   ar_total_applications = newTimesApplied,
                   ar_success_rate = successRate\<rparr>, s3))"

section \<open>Learning a lesson from a pattern (tools/learn-from-pattern.ts)\<close>

record learn_from_pattern_input =
  li_pattern_description :: string
  li_episode_ids :: "nat list"
  li_lesson_statement :: string

record learn_from_pattern_result =
  lr_lesson_id :: nat
  lr_created :: bool
  lr_initial_confidence :: real
  lr_pattern_id :: "nat option"

text \<open>The elements of a JavaScript \<open>Set\<close> built from a list: each value once, in the
  order of first insertion.\<close>

definition set_order :: "'a list \<Rightarrow> 'a list" where
  "set_order xs = rev (remdups (rev xs))"

text \<open>The context tags pushed for one episode; \<open>server_name\<close> and
  \<open>metadata.environment\<close> are strings by their declared types.\<close>

definition episode_contexts :: "episode \<Rightarrow> string list" where
  "episode_contexts episode =
     (case e_server_name episode of
        Some name \<Rightarrow> if name \<noteq> [] then [''server:'' @ name] else []
      | None \<Rightarrow> [])
     @ (case get_prop ''environment'' (e_metadata episode) of
          Some (JStr env) \<Rightarrow> if env \<noteq> [] then [''env:'' @ env] else []
        | _ \<Rightarrow> [])"

definition learnFromPattern ::
  "int \<Rightarrow> learn_from_pattern_input \<Rightarrow> store
     \<Rightarrow> error + (learn_from_pattern_result \<times> store)" where
  "learnFromPattern now input s =
     (let episodes' = getEpisodesByIds s (li_episode_ids input)
      in if length episodes' < minEpisodes
         then Inl (InsufficientEvidence (length episodes'))
         else
           let successCount = length (filter (\<lambda>e. e_outcome e = Success) episodes');
               successRate = real successCount / real (length episodes');
               episodeCountBonus = min 0.3 (ln (real (length episodes') + 1) * 0.1);
               avgUtility = (\<Sum>e\<leftarrow>episodes'. e_utility_score e) / real (length episodes');
               utilityBonus = avgUtility * 0.2;
               initialConfidence =
                 min 0.9 (max 0.3 (0.4 + successRate * 0.3 + episodeCountBonus + utilityBonus));
               (patternId, s1) =
                 (case findPatternByDescription s (li_pattern_description input) of
                    Some existingPattern \<Rightarrow>
                      (p_id existingPattern,
                       snd (updatePattern s (p_id existingPattern)
                         (no_pattern_updates\<lparr>
                            pu_frequency := Some (length episodes'),
                            pu_last_seen := Some now,
                            pu_last_validated := Some now,
                            pu_episode_ids := Some (li_episode_ids input)\<rparr>)))
                  | None \<Rightarrow>
                      insertPattern s
                        \<lparr>p_id = 0,
                         p_pattern_type = classify successRate,
                         p_description = li_pattern_description input,
                         p_episode_ids = li_episode_ids input,
                         p_frequency = length episodes',
                         p_last_seen = now,
                         p_created_at = now,
                         p_initial_confidence = initialConfidence,
                         p_decay_constant = decayConstant,
                         p_last_validated = now,
                         p_times_applied = 0,
                         p_times_succeeded = 0,
                         p_discrimination_weight =
                           successRate * ln (real (length episodes') + 1)\<rparr>);
               contexts = concat (map episode_contexts episodes')
                 @ map (\<lambda>opType. ''operation:'' @ opType)
                     (set_order (map e_operation_type episodes'));
               (lessonId, s2) = insertLesson s1
                 \<lparr>l_id = 0,
                  l_statement = li_lesson_statement input,
                  l_pattern_id = Some patternId,
                  l_contexts = Some (set_order contexts),
                  l_initial_confidence = initialConfidence,
                  l_decay_constant = decayConstant,
                  l_last_validated = now,
                  l_times_applied = 0,
                  l_times_succeeded = 0,
                  l_created_at = now,
                  l_deprecated_at = None\<rparr>
           in Inr (\<lparr>lr_lesson_id = lessonId,
                    lr_created = True,
                    lr_initial_confidence = initialConfidence,
                    lr_pattern_id = Some patternId\<rparr>, s2))"

section \<open>The belief update as the specification words it\<close>

definition clamp :: "real \<Rightarrow> real \<Rightarrow> real \<Rightarrow> real" where
  "clamp lo hi x = max lo (min hi x)"

definition spec_evidenceConfidence :: "outcome \<Rightarrow> real" where
  "spec_evidenceConfidence out = (case out of Success \<Rightarrow> 1.0 | Partial \<Rightarrow> 0.5 | Failure \<Rightarrow> 0.0)"

definition spec_priorWeight :: "nat \<Rightarrow> real" where
  "spec_priorWeight timesApplied = max 0.3 (1 - ln (real timesApplied + 1) / 5)"

definition spec_newConfidence :: "real \<Rightarrow> real \<Rightarrow> nat \<Rightarrow> outcome \<Rightarrow> real" where
  "spec_newConfidence previousConfidence successRate timesApplied out =
     clamp 0.1 0.95
       (spec_priorWeight timesApplied * previousConfidence
        + (1 - spec_priorWeight timesApplied)
          * (0.7 * successRate + 0.3 * spec_evidenceConfidence out))"

text \<open>The credit an application adds to the success counter before rounding.\<close>

definition success_credit :: "outcome \<Rightarrow> real" where
  "success_credit out = (case out of Success \<Rightarrow> 1 | Partial \<Rightarrow> 0.5 | Failure \<Rightarrow> 0)"

text \<open>The confidence the specification prescribes for a lesson applied at \<open>now\<close>, and the
  row the update writes.\<close>

definition applied_confidence :: "int \<Rightarrow> outcome \<Rightarrow> lesson \<Rightarrow> real" where
  "applied_confidence now out lesson =
     spec_newConfidence
       (calculateCurrentConfidence now (l_initial_confidence lesson)
          (l_decay_constant lesson) (l_last_validated lesson))
       ((real (l_times_succeeded lesson) + success_credit out) / real (l_times_applied lesson + 1))
       (l_times_applied lesson + 1) out"

definition applied_lesson :: "int \<Rightarrow> outcome \<Rightarrow> lesson \<Rightarrow> lesson \<Rightarrow> lesson" where
  "applied_lesson now out lesson l =
     l\<lparr>l_initial_confidence := applied_confidence now out lesson,
       l_last_validated := now,
       l_times_applied := l_times_applied lesson + 1,
       l_times_succeeded := nat (js_round (real (l_times_succeeded lesson) + success_credit out))\<rparr>"

text \<open>The decayed confidence of a lesson at \<open>now\<close>.\<close>

definition decayed :: "int \<Rightarrow> lesson \<Rightarrow> real" where
  "decayed now l =
     calculateCurrentConfidence now (l_initial_confidence l) (l_decay_constant l) (l_last_validated l)"

section \<open>Example stores\<close>

definition example_lesson :: "real \<Rightarrow> int \<Rightarrow> nat \<Rightarrow> nat \<Rightarrow> lesson" where
  "example_lesson c validated applied succeeded =
     \<lparr>l_id = 1, l_statement = ''run install before build'', l_pattern_id = None,
      l_contexts = None, l_initial_confidence = c, l_decay_constant = 0.01,
      l_last_validated = validated, l_times_applied = applied, l_times_succeeded = succeeded,
      l_created_at = 0, l_deprecated_at = None\<rparr>"

definition one_lesson_store :: "lesson \<Rightarrow> store" where
  "one_lesson_store l = empty_store\<lparr>lessons := [l], lesson_seq := 1\<rparr>"

definition two_lessons_store :: store where
  "two_lessons_store =
     empty_store\<lparr>lessons := [example_lesson 0.9 0 0 0, (example_lesson 0.5 8640000000 0 0)\<lparr>l_id := 2\<rparr>],
                 lesson_seq := 2\<rparr>"

section \<open>Retention sweep\<close>

record cleanup_result =
  deletedEpisodes :: nat
  deletedPatterns :: nat
  deprecatedLessons :: nat

text \<open>Modelled from the spec: the lessons the retention sweep deprecates. The method
  \<open>cleanupOldData\<close> of the database manager is not among the sources; the specification
  says it deprecates lessons that are not already deprecated, have \<open>times_applied = 0\<close>
  or a low current confidence, and were not validated within the retention period. The
  specification gives no number for "low"; it is the parameter \<open>lowConfidence\<close>.\<close>

definition stale_lesson :: "real \<Rightarrow> int \<Rightarrow> int \<Rightarrow> lesson \<Rightarrow> bool" where
  "stale_lesson lowConfidence now cutoff l \<longleftrightarrow>
     l_deprecated_at l = None
     \<and> (l_times_applied l = 0 \<or> decayed now l < lowConfidence)
     \<and> l_last_validated l < cutoff"

text \<open>Modelled from the spec: the retention sweep \<open>cleanupOldData(retentionDays)\<close>, absent
  from the sources. It deletes the episodes with \<open>timestamp < now - retentionDays\<close>,
  deletes the patterns whose \<open>last_seen\<close> is older than twice the retention period,
  deprecates (does not delete) the stale lessons, and returns the three counts.\<close>

definition cleanupOldData :: "real \<Rightarrow> int \<Rightarrow> nat \<Rightarrow> store \<Rightarrow> cleanup_result \<times> store" where
  "cleanupOldData lowConfidence now retentionDays s =
     (let cutoff = now - int retentionDays * msPerDay;
          patternCutoff = now - 2 * int retentionDays * msPerDay
      in (\<lparr>deletedEpisodes = length (filter (\<lambda>e. e_timestamp e < cutoff) (episodes s)),
           deletedPatterns = length (filter (\<lambda>p. p_last_seen p < patternCutoff) (patterns s)),
           deprecatedLessons = length (filter (stale_lesson lowConfidence now cutoff) (lessons s))\<rparr>,
          s\<lparr>episodes := filter (\<lambda>e. \<not> e_timestamp e < cutoff) (episodes s),
            patterns := filter (\<lambda>p. \<not> p_last_seen p < patternCutoff) (patterns s),
            lessons := map (\<lambda>l. if stale_lesson lowConfidence now cutoff l
                                  then l\<lparr>l_deprecated_at := Some now\<rparr> else l) (lessons s)\<rparr>))"

definition example_episode :: "nat \<Rightarrow> int \<Rightarrow> string \<Rightarrow> outcome \<Rightarrow> episode" where
  "example_episode i t opType out =
     \<lparr>e_id = i, e_timestamp = t, e_operation_type = opType, e_server_name = None,
      e_problem = None, e_solution = None, e_outcome = out, e_metadata = None,
      e_quality_score = None, e_duration_ms = None, e_notes = None,
      e_novelty_score = 1, e_effectiveness_score = 1, e_generalizability_score = 0.5,
      e_utility_score = 0.9\<rparr>"

definition aged_store :: store where
  "aged_store =
     empty_store\<lparr>episodes := [example_episode 1 0 ''build'' Success,
                               example_episode 2 8640000000 ''build'' Success],
                 episode_seq := 2,
                 lessons := [example_lesson 0.9 0 0 0],
                 lesson_seq := 1\<rparr>"

section \<open>The initial confidence of a learnt lesson as the specification words it\<close>

definition spec_learnConfidence :: "episode list \<Rightarrow> real" where
  "spec_learnConfidence resolved =
     (let n = length resolved;
          successRate = real (length (filter (\<lambda>e. e_outcome e = Success) resolved)) / real n;
          meanUtility = (\<Sum>e\<leftarrow>resolved. e_utility_score e) / real n
      in clamp 0.3 0.9
           (0.4 + 0.3 * successRate + min 0.3 (0.1 * ln (real n + 1)) + 0.2 * meanUtility))"

definition five_episodes_store :: store where
  "five_episodes_store =
     empty_store\<lparr>episodes := [example_episode 1 0 ''build'' Success,
                               example_episode 2 0 ''build'' Success,
                               example_episode 3 0 ''build'' Success,
                               example_episode 4 0 ''build'' Success,
                               example_episode 5 0 ''build'' Failure],
                 episode_seq := 5\<rparr>"

section \<open>Pattern detection as the specification words it\<close>

text \<open>The episodes pattern detection looks at for an operation type: those of the last
  30 days, newest first, at most 500.\<close>

definition window_episodes :: "int \<Rightarrow> string \<Rightarrow> store \<Rightarrow> episode list" where
  "window_episodes now opType s =
     getEpisodesByType s opType (Some (now - recencyWindowDays * 24 * 60 * 60 * 1000)) 500"

text \<open>The discrimination weight \<open>successRate \<cdot> ln(n + 1) \<cdot> e\<^sup>-\<^sup>k\<^sup>\<cdot>\<^sup>m\<^sup>e\<^sup>a\<^sup>n\<^sup>A\<^sup>g\<^sup>e\<^sup>D\<^sup>a\<^sup>y\<^sup>s\<close> of a
  list of episodes at \<open>now\<close>.\<close>

definition discrimination :: "int \<Rightarrow> episode list \<Rightarrow> real" where
  "discrimination now similar =
     (let successCount = length (filter (\<lambda>e. e_outcome e = Success) similar);
          successRate = real successCount / real (length similar);
          frequencyWeight = ln (real (length similar) + 1);
          avgAge = (\<Sum>e\<leftarrow>similar. real_of_int (now - e_timestamp e)) / real (length similar);
          avgAgeDays = avgAge / real_of_int msPerDay;
          recencyBonus = exp (- decayConstant * avgAgeDays)
      in successRate * frequencyWeight * recencyBonus)"

text \<open>The AUTOINCREMENT discipline of the episodes table: no row has a rowid above the
  counter.\<close>

definition episode_ids_ok :: "store \<Rightarrow> bool" where
  "episode_ids_ok s = list_all (\<lambda>e. e_id e \<le> episode_seq s) (episodes s)"

text \<open>Whether a pattern description matches a search text in \<open>findPatternByDescription\<close>.\<close>

definition description_matches :: "string \<Rightarrow> pattern \<Rightarrow> bool" where
  "description_matches searchText p =
     sql_like (CHR ''%'' # searchText @ [CHR ''%'']) (p_description p)"

definition plain_input :: "string \<Rightarrow> outcome \<Rightarrow> record_experience_input" where
  "plain_input opType out =
     \<lparr>ri_operation_type = opType, ri_server_name = None, ri_problem = None,
      ri_solution = None, ri_outcome = out, ri_metadata = None, ri_quality_score = None,
      ri_duration_ms = None, ri_notes = None\<rparr>"

text \<open>The description, the inserted row and the refresh that pattern detection derives
  from the episodes \<open>similar\<close> of an operation type.\<close>

definition detected_description :: "string \<Rightarrow> episode list \<Rightarrow> string" where
  "detected_description opType similar =
     opType @ '': ''
     @ string_of_nat (nat (js_round
         (real (length (filter (\<lambda>e. e_outcome e = Success) similar)) / real (length similar) * 100)))
     @ ''% success rate over '' @ string_of_nat (length similar) @ '' episodes''"

definition detected_pattern :: "int \<Rightarrow> string \<Rightarrow> episode list \<Rightarrow> nat \<Rightarrow> pattern" where
  "detected_pattern now opType similar rowid =
     \<lparr>p_id = rowid,
      p_pattern_type = classify
        (real (length (filter (\<lambda>e. e_outcome e = Success) similar)) / real (length similar)),
      p_description = detected_description opType similar,
      p_episode_ids = map e_id similar,
      p_frequency = length similar,
      p_last_seen = now,
      p_created_at = now,
      p_initial_confidence = min 0.8 (0.4 + discrimination now similar),
      p_decay_constant = decayConstant,
      p_last_validated = now,
      p_times_applied = 0,
      p_times_succeeded = 0,
      p_discrimination_weight = discrimination now similar\<rparr>"

definition detected_updates :: "int \<Rightarrow> episode list \<Rightarrow> pattern \<Rightarrow> pattern_updates" where
  "detected_updates now similar existing =
     no_pattern_updates\<lparr>
       pu_frequency := Some (length similar),
       pu_discrimination_weight := Some (discrimination now similar),
       pu_initial_confidence := Some ((p_initial_confidence existing + discrimination now similar) / 2),
       pu_last_seen := Some now,
       pu_last_validated := Some now,
       pu_episode_ids := Some (map e_id similar)\<rparr>"

text \<open>The row that the refresh leaves in place of the row \<open>p\<close> when the lookup found
  \<open>existing\<close>: evidence columns rewritten, \<open>pattern_type\<close> and \<open>description\<close> kept.\<close>

definition refreshed_pattern :: "int \<Rightarrow> episode list \<Rightarrow> pattern \<Rightarrow> pattern \<Rightarrow> pattern" where
  "refreshed_pattern now similar existing p =
     p\<lparr>p_frequency := length similar,
       p_last_seen := now,
       p_initial_confidence := (p_initial_confidence existing + discrimination now similar) / 2,
       p_last_validated := now,
       p_discrimination_weight := discrimination now similar,
       p_episode_ids := map e_id similar\<rparr>"

text \<open>The row that \<open>learnFromPattern\<close> leaves in place of the row \<open>p\<close> of a pattern
  it found: the number of resolved episodes, the clock reading and the supplied ids.\<close>

definition relearned_pattern :: "int \<Rightarrow> nat \<Rightarrow> nat list \<Rightarrow> pattern \<Rightarrow> pattern" where
  "relearned_pattern now frequency ids p =
     p\<lparr>p_frequency := frequency,
       p_last_seen := now,
       p_last_validated := now,
       p_episode_ids := ids\<rparr>"

text \<open>The row that \<open>recordExperience\<close> stores, and the store with that row appended.\<close>

definition stored_episode :: "int \<Rightarrow> record_experience_input \<Rightarrow> store \<Rightarrow> episode" where
  "stored_episode now input s =
     (let noveltyScore = calculateNoveltyScore s (ri_operation_type input) (ri_problem input);
          effectivenessScore = calculateEffectivenessScore (ri_outcome input) (ri_quality_score input);
          generalizabilityScore =
            calculateGeneralizabilityScore s (ri_operation_type input) (ri_metadata input)
      in \<lparr>e_id = Suc (episode_seq s),
          e_timestamp = now,
          e_operation_type = ri_operation_type input,
          e_server_name = or_null (ri_server_name input),
          e_problem = if_truthy (ri_problem input),
          e_solution = if_truthy (ri_solution input),
          e_outcome = ri_outcome input,
          e_metadata = if_truthy (ri_metadata input),
          e_quality_score = ri_quality_score input,
          e_duration_ms = ri_duration_ms input,
          e_notes = ri_notes input,
          e_novelty_score = noveltyScore,
          e_effectiveness_score = effectivenessScore,
          e_generalizability_score = generalizabilityScore,
          e_utility_score =
            calculateUtilityScore noveltyScore effectivenessScore generalizabilityScore\<rparr>)"

definition with_episode :: "store \<Rightarrow> episode \<Rightarrow> store" where
  "with_episode s row = s\<lparr>episodes := episodes s @ [row], episode_seq := e_id row\<rparr>"

text \<open>Recording a list of experiences one after the other.\<close>

definition record_all :: "int \<Rightarrow> record_experience_input list \<Rightarrow> store \<Rightarrow> store" where
  "record_all now inputs s = foldl (\<lambda>s' input. snd (recordExperience now input s')) s inputs"

definition rebuild_history :: store where
  "rebuild_history =
     record_all 0 [plain_input ''rebuild'' Success, plain_input ''rebuild'' Failure,
                   plain_input ''rebuild'' Failure] empty_store"

section \<open>Sequences of operations\<close>

datatype operation =
    Record int record_experience_input
  | Learn int learn_from_pattern_input

text \<open>One operation on the store; a \<open>learnFromPattern\<close> call that throws has written
  nothing.\<close>

fun apply_operation :: "operation \<Rightarrow> store \<Rightarrow> store" where
  "apply_operation (Record now input) s = snd (recordExperience now input s)"
| "apply_operation (Learn now input) s =
     (case learnFromPattern now input s of Inl e \<Rightarrow> s | Inr (result, s') \<Rightarrow> s')"

definition run :: "operation list \<Rightarrow> store \<Rightarrow> store" where
  "run ops s = foldl (\<lambda>s' op. apply_operation op s') s ops"

text \<open>The dedup invariant as the specification states it: for every operation type with
  an episode in the store, at most one pattern has a description matching that type.\<close>

definition one_pattern_per_type :: "store \<Rightarrow> bool" where
  "one_pattern_per_type s =
     list_all (\<lambda>t. length (filter (description_matches t) (patterns s)) \<le> 1)
       (map e_operation_type (episodes s))"

definition build_then_rebuild :: "operation list" where
  "build_then_rebuild =
     [Record 0 (plain_input ''build'' Success), Record 0 (plain_input ''build'' Success),
      Record 0 (plain_input ''build'' Success), Record 0 (plain_input ''rebuild'' Success),
      Record 0 (plain_input ''rebuild'' Success), Record 0 (plain_input ''rebuild'' Success)]"

definition rebuild_operations :: "operation list" where
  "rebuild_operations =
     [Record 0 (plain_input ''rebuild'' Success), Record 0 (plain_input ''rebuild'' Failure),
      Record 0 (plain_input ''rebuild'' Failure)]"

text \<open>What the lookup-before-insert discipline maintains: the AUTOINCREMENT discipline of
  the episodes table, and pairwise different pattern descriptions.\<close>

definition dedup_invariant :: "store \<Rightarrow> bool" where
  "dedup_invariant s \<longleftrightarrow> episode_ids_ok s \<and> distinct (map p_description (patterns s))"

section \<open>Serialisation of structured columns (database/schema.ts)\<close>

text \<open>
  The columns \<open>problem\<close>, \<open>solution\<close> and \<open>metadata\<close> of the episodes table hold
  text: \<open>insertEpisode\<close> binds \<open>JSON.stringify(x)\<close> and \<open>rowToEpisode\<close> reads the column
  back with \<open>JSON.parse\<close>. Both are functions of the JavaScript platform. They are
  modelled on the values of the type \<open>json\<close>: a number leaf is an integer, printed in
  plain decimal notation; a string is a list of code units below 256; an object is the
  list of its properties in enumeration order.
\<close>

text \<open>Decimal digits, as the number grammar of JSON reads them.\<close>

definition is_digit :: "char \<Rightarrow> bool" where
  "is_digit c \<longleftrightarrow> 48 \<le> (of_char c :: nat) \<and> (of_char c :: nat) \<le> 57"

definition digit_value :: "char \<Rightarrow> nat" where
  "digit_value c = of_char c - 48"

fun parse_digits :: "nat \<Rightarrow> string \<Rightarrow> nat \<times> string" where
  "parse_digits acc [] = (acc, [])"
| "parse_digits acc (c # cs) =
     (if is_digit c then parse_digits (acc * 10 + digit_value c) cs else (acc, c # cs))"

text \<open>The two hexadecimal digits of a \<open>\u00XX\<close> escape are written in lower case; any
  case is read.\<close>

definition hex_char :: "nat \<Rightarrow> char" where
  "hex_char d = ''0123456789abcdef'' ! d"

definition hex_value :: "char \<Rightarrow> nat option" where
  "hex_value c =
     (let n = (of_char c :: nat)
      in if 48 \<le> n \<and> n \<le> 57 then Some (n - 48)
         else if 97 \<le> n \<and> n \<le> 102 then Some (n - 87)
         else if 65 \<le> n \<and> n \<le> 70 then Some (n - 55)
         else None)"

text \<open>
  \<open>JSON.stringify\<close> on a string: the quotation mark and the reverse solidus are
  escaped, the control characters below 0x20 are written with their short escape or as
  \<open>\u00XX\<close>, every other code unit is written as it is.
\<close>

definition escape_char :: "char \<Rightarrow> string" where
  "escape_char c =
     (if c = CHR 0x22 then [CHR 0x5C, CHR 0x22]
      else if c = CHR 0x5C then [CHR 0x5C, CHR 0x5C]
      else if c = CHR 0x08 then [CHR 0x5C, CHR ''b'']
      else if c = CHR 0x0C then [CHR 0x5C, CHR ''f'']
      else if c = CHR 0x0A then [CHR 0x5C, CHR ''n'']
      else if c = CHR 0x0D then [CHR 0x5C, CHR ''r'']
      else if c = CHR 0x09 then [CHR 0x5C, CHR ''t'']
      else if (of_char c :: nat) < 32
        then [CHR 0x5C, CHR ''u'', CHR ''0'', CHR ''0'',
              hex_char (of_char c div 16), hex_char (of_char c mod 16)]
      else [c])"

definition quote :: "string \<Rightarrow> string" where
  "quote s = CHR 0x22 # concat (map escape_char s) @ [CHR 0x22]"

text \<open>
  The characters of a string literal up to its closing quotation mark, as \<open>JSON.parse\<close>
  reads them: escapes are decoded and a raw control character is an error. A \<open>\uXXXX\<close>
  escape of a code unit above 0xFF has no value in this model and is refused.
\<close>

definition unescape :: "char \<Rightarrow> char option" where
  "unescape e =
     (if e = CHR 0x22 then Some (CHR 0x22)
      else if e = CHR 0x5C then Some (CHR 0x5C)
      else if e = CHR ''/'' then Some (CHR ''/'')
      else if e = CHR ''b'' then Some (CHR 0x08)
      else if e = CHR ''f'' then Some (CHR 0x0C)
      else if e = CHR ''n'' then Some (CHR 0x0A)
      else if e = CHR ''r'' then Some (CHR 0x0D)
      else if e = CHR ''t'' then Some (CHR 0x09)
      else None)"

fun parse_chars :: "string \<Rightarrow> (string \<times> string) option"
  and parse_escape :: "string \<Rightarrow> (string \<times> string) option"
  and parse_unicode :: "string \<Rightarrow> (string \<times> string) option"
where
  "parse_chars [] = None"
| "parse_chars (c # cs) =
     (if c = CHR 0x22 then Some ([], cs)
      else if c = CHR 0x5C then parse_escape cs
      else if (of_char c :: nat) < 32 then None
      else map_option (\<lambda>(s, r). (c # s, r)) (parse_chars cs))"
| "parse_escape [] = None"
| "parse_escape (e # cs) =
     (if e = CHR ''u'' then parse_unicode cs
      else (case unescape e of
              None \<Rightarrow> None
            | Some c \<Rightarrow> map_option (\<lambda>(s, r). (c # s, r)) (parse_chars cs)))"
| "parse_unicode (h1 # h2 # h3 # h4 # cs) =
     (case (hex_value h1, hex_value h2, hex_value h3, hex_value h4) of
        (Some a, Some b, Some c, Some d) \<Rightarrow>
          (let n = ((a * 16 + b) * 16 + c) * 16 + d
           in if n < 256 then map_option (\<lambda>(s, r). (char_of n # s, r)) (parse_chars cs)
              else None)
      | _ \<Rightarrow> None)"
| "parse_unicode cs = None"

text \<open>
  \<open>JSON.stringify\<close> without indentation: no white space, elements and members
  separated by commas, \<open>[]\<close> and \<open>{}\<close> for the empty array and object.
\<close>

fun stringify :: "json \<Rightarrow> string"
  and stringify_elements :: "json list \<Rightarrow> string"
  and stringify_members :: "(string \<times> json) list \<Rightarrow> string"
where
  "stringify JNull = ''null''"
| "stringify (JBool b) = (if b then ''true'' else ''false'')"
| "stringify (JNum n) =
     (if n < 0 then CHR ''-'' # string_of_nat (nat (- n)) else string_of_nat (nat n))"
| "stringify (JStr s) = quote s"
| "stringify (JArr vs) = CHR ''['' # stringify_elements vs @ '']''"
| "stringify (JObj kvs) = CHR ''{'' # stringify_members kvs @ ''}''"
| "stringify_elements [] = []"
| "stringify_elements [v] = stringify v"
| "stringify_elements (v # w # vs) = stringify v @ CHR '','' # stringify_elements (w # vs)"
| "stringify_members [] = []"
| "stringify_members [(k, v)] = quote k @ CHR '':'' # stringify v"
| "stringify_members ((k, v) # kv # kvs) =
     quote k @ CHR '':'' # stringify v @ CHR '','' # stringify_members (kv # kvs)"

text \<open>
  \<open>JSON.parse\<close> by recursive descent on the texts that \<open>JSON.stringify\<close> emits: no
  white space between tokens, numbers without fraction or exponent. The first argument
  bounds the depth of the recursion; \<open>json_parse\<close> starts it with the length of the
  text. The result \<open>None\<close> stands for the \<open>SyntaxError\<close> that \<open>JSON.parse\<close> throws;
  texts outside this fragment are not modelled and give \<open>None\<close> too.
\<close>

fun parse_value :: "nat \<Rightarrow> string \<Rightarrow> (json \<times> string) option"
  and parse_elements :: "nat \<Rightarrow> string \<Rightarrow> (json list \<times> string) option"
  and parse_members :: "nat \<Rightarrow> string \<Rightarrow> ((string \<times> json) list \<times> string) option"
where
  "parse_value 0 cs = None"
| "parse_value (Suc fuel) [] = None"
| "parse_value (Suc fuel) (c # cs) =
     (if c = CHR ''n'' then (if take 3 cs = ''ull'' then Some (JNull, drop 3 cs) else None)
      else if c = CHR ''t'' then (if take 3 cs = ''rue'' then Some (JBool True, drop 3 cs) else None)
      else if c = CHR ''f'' then (if take 4 cs = ''alse'' then Some (JBool False, drop 4 cs) else None)
      else if c = CHR 0x22 then map_option (\<lambda>(s, r). (JStr s, r)) (parse_chars cs)
      else if c = CHR ''['' then
        (case cs of
           [] \<Rightarrow> None
         | d # r \<Rightarrow> if d = CHR '']'' then Some (JArr [], r)
                    else map_option (\<lambda>(vs, r'). (JArr vs, r')) (parse_elements fuel cs))
      else if c = CHR ''{'' then
        (case cs of
           [] \<Rightarrow> None
         | d # r \<Rightarrow> if d = CHR ''}'' then Some (JObj [], r)
                    else map_option (\<lambda>(kvs, r'). (JObj kvs, r')) (parse_members fuel cs))
      else if c = CHR ''-'' then
        (case cs of
           [] \<Rightarrow> None
         | d # r \<Rightarrow> if is_digit d
                    then (let (n, r') = parse_digits 0 cs in Some (JNum (- int n), r'))
                    else None)
      else if is_digit c then (let (n, r) = parse_digits 0 (c # cs) in Some (JNum (int n), r))
      else None)"
| "parse_elements 0 cs = None"
| "parse_elements (Suc fuel) cs =
     (case parse_value fuel cs of
        None \<Rightarrow> None
      | Some (v, r) \<Rightarrow>
          (case r of
             [] \<Rightarrow> None
           | d # r' \<Rightarrow>
               if d = CHR '','' then map_option (\<lambda>(vs, r''). (v # vs, r'')) (parse_elements fuel r')
               else if d = CHR '']'' then Some ([v], r')
               else None))"
| "parse_members 0 cs = None"
| "parse_members (Suc fuel) [] = None"
| "parse_members (Suc fuel) (q # cs) =
     (if q = CHR 0x22 then
        (case parse_chars cs of
           None \<Rightarrow> None
         | Some (k, r) \<Rightarrow>
             (case r of
                [] \<Rightarrow> None
              | colon # r1 \<Rightarrow>
                  if colon = CHR '':'' then
                    (case parse_value fuel r1 of
                       None \<Rightarrow> None
                     | Some (v, r2) \<Rightarrow>
                         (case r2 of
                            [] \<Rightarrow> None
                          | d # r3 \<Rightarrow>
                              if d = CHR '','' then
                                map_option (\<lambda>(kvs, r4). ((k, v) # kvs, r4)) (parse_members fuel r3)
                              else if d = CHR ''}'' then Some ([(k, v)], r3)
                              else None))
                  else None))
      else None)"

definition json_parse :: "string \<Rightarrow> json option" where
  "json_parse text =
     (case parse_value (length text) text of
        Some (v, rest) \<Rightarrow> if rest = [] then Some v else None
      | None \<Rightarrow> None)"

text \<open>A number token ends where the text ends or a character that is no digit follows.\<close>

definition number_ends :: "string \<Rightarrow> bool" where
  "number_ends rest = (case rest of [] \<Rightarrow> True | c # cs \<Rightarrow> \<not> is_digit c)"

text \<open>A row of the episodes table as SQLite holds it (\<open>EpisodeRow\<close>): the structured
  columns are text or NULL.\<close>

record episode_row =
  r_id :: nat
  r_timestamp :: int
  r_operation_type :: string
  r_server_name :: "string option"
  r_problem :: "string option"
  r_solution :: "string option"
  r_outcome :: outcome
  r_metadata :: "string option"
  r_quality_score :: "real option"
  r_duration_ms :: "int option"
  r_notes :: "string option"
  r_novelty_score :: real
  r_effectiveness_score :: real
  r_generalizability_score :: real
  r_utility_score :: real

text \<open>\<open>x ? JSON.stringify(x) : null\<close>, the value bound for a structured column.\<close>

definition serialize_column :: "json option \<Rightarrow> string option" where
  "serialize_column x =
     (case x of
        None \<Rightarrow> None
      | Some v \<Rightarrow> if truthy v then Some (stringify v) else None)"

text \<open>\<open>row.x ? JSON.parse(row.x) : undefined\<close>: NULL and the empty text are falsy.\<close>

definition parse_column :: "string option \<Rightarrow> error + json option" where
  "parse_column x =
     (case x of
        None \<Rightarrow> Inr None
      | Some text \<Rightarrow>
          if text = [] then Inr None
          else (case json_parse text of
                  None \<Rightarrow> Inl SyntaxError
                | Some v \<Rightarrow> Inr (Some v)))"

text \<open>The values that \<open>insertEpisode\<close> binds to its INSERT statement, with the rowid
  that AUTOINCREMENT assigns.\<close>

definition episode_to_row :: "nat \<Rightarrow> episode \<Rightarrow> episode_row" where
  "episode_to_row rowid episode =
     \<lparr>r_id = rowid,
      r_timestamp = e_timestamp episode,
      r_operation_type = e_operation_type episode,
      r_server_name = or_null (e_server_name episode),
      r_problem = serialize_column (e_problem episode),
      r_solution = serialize_column (e_solution episode),
      r_outcome = e_outcome episode,
      r_metadata = serialize_column (e_metadata episode),
      r_quality_score = e_quality_score episode,
      r_duration_ms = e_duration_ms episode,
      r_notes = e_notes episode,
      r_novelty_score = e_novelty_score episode,
      r_effectiveness_score = e_effectiveness_score episode,
      r_generalizability_score = e_generalizability_score episode,
      r_utility_score = e_utility_score episode\<rparr>"

text \<open>\<open>rowToEpisode\<close>: the structured columns are parsed in the order problem, solution,
  metadata, and the first \<open>SyntaxError\<close> is the result.\<close>

definition rowToEpisode :: "episode_row \<Rightarrow> error + episode" where
  "rowToEpisode row =
     (case parse_column (r_problem row) of
        Inl err \<Rightarrow> Inl err
      | Inr problem \<Rightarrow>
          (case parse_column (r_solution row) of
             Inl err \<Rightarrow> Inl err
           | Inr solution \<Rightarrow>
               (case parse_column (r_metadata row) of
                  Inl err \<Rightarrow> Inl err
                | Inr metadata \<Rightarrow>
                    Inr \<lparr>e_id = r_id row,
                         e_timestamp = r_timestamp row,
                         e_operation_type = r_operation_type row,
                         e_server_name = r_server_name row,
                         e_problem = problem,
                         e_solution = solution,
                         e_outcome = r_outcome row,
                         e_metadata = metadata,
                         e_quality_score = r_quality_score row,
                         e_duration_ms = r_duration_ms row,
                         e_notes = r_notes row,
                         e_novelty_score = r_novelty_score row,
                         e_effectiveness_score = r_effectiveness_score row,
                         e_generalizability_score = r_generalizability_score row,
                         e_utility_score = r_utility_score row\<rparr>)))"

text \<open>The episodes table at the level of its text columns, with its AUTOINCREMENT
  counter; \<open>insertEpisode_row\<close> and \<open>getEpisode_row\<close> are \<open>insertEpisode\<close> and
  \<open>getEpisode\<close> on it. A \<open>JSON.parse\<close> that throws makes \<open>getEpisode\<close> throw.\<close>

record episode_table =
  t_rows :: "episode_row list"
  t_seq :: nat

definition insertEpisode_row :: "episode_table \<Rightarrow> episode \<Rightarrow> nat \<times> episode_table" where
  "insertEpisode_row t episode =
     (let rowid = Suc (t_seq t)
      in (rowid, \<lparr>t_rows = t_rows t @ [episode_to_row rowid episode], t_seq = rowid\<rparr>))"

definition getEpisode_row :: "episode_table \<Rightarrow> nat \<Rightarrow> error + episode option" where
  "getEpisode_row t i =
     (case find (\<lambda>row. r_id row = i) (t_rows t) of
        None \<Rightarrow> Inr None
      | Some row \<Rightarrow>
          (case rowToEpisode row of
             Inl err \<Rightarrow> Inl err
           | Inr episode \<Rightarrow> Inr (Some episode)))"

text \<open>A structured field that is absent or truthy. Every object and every array is
  truthy, also the empty ones.\<close>

definition storable :: "json option \<Rightarrow> bool" where
  "storable x = (case x of None \<Rightarrow> True | Some v \<Rightarrow> truthy v)"

text \<open>An episode with nested objects, null leaves, empty arrays, a negative number and
  a string with a line break.\<close>

definition nested_episode :: episode where
  "nested_episode =
     \<lparr>e_id = 0, e_timestamp = 1000, e_operation_type = ''build'', e_server_name = Some ''ci'',
      e_problem = Some (JObj [(''query'', JStr ''why''),
                              (''constraints'', JObj [(''limit'', JNull), (''tags'', JArr [])])]),
      e_solution = Some (JObj [(''tool'', JStr ''make''),
                               (''params'', JObj [(''args'', JArr [JNum 2, JNull, JArr [], JNum (- 12)]),
                                                  (''dry'', JBool False)])]),
      e_outcome = Success,
      e_metadata = Some (JObj [(''environment'', JStr ''ci''), (''dependencies'', JArr []),
                               (''triggers'', JArr [JStr ''push'', JStr ''a\<newline>b''])]),
      e_quality_score = Some 1, e_duration_ms = Some 5, e_notes = None,
      e_novelty_score = 1, e_effectiveness_score = 1, e_generalizability_score = 0.5,
      e_utility_score = 0.9\<rparr>"

definition empty_table :: episode_table where
  "empty_table = \<lparr>t_rows = [], t_seq = 0\<rparr>"

section \<open>Utility score\<close>

text \<open>
  Claim C7. For novelty, effectiveness and generalizability in the unit interval the
  utility score is exactly the weighted sum with weights 0.3, 0.5 and 0.2, and it lies
  in the unit interval. Being a function of its three arguments, it is deterministic.
\<close>

theorem calculateUtilityScore_weighted_sum:
  assumes "0 \<le> n" "n \<le> 1" "0 \<le> e" "e \<le> 1" "0 \<le> g" "g \<le> 1"
  shows "calculateUtilityScore n e g = 0.3 * n + 0.5 * e + 0.2 * g
         \<and> 0 \<le> calculateUtilityScore n e g \<and> calculateUtilityScore n e g \<le> 1"
  using assms
  by (simp add: calculateUtilityScore_def weight_novelty_def weight_effectiveness_def
      weight_generalizability_def)

theorem calculateUtilityScore_weighted_sum_witness:
  "calculateUtilityScore 1 (1/2) 0 = 0.3 * 1 + 0.5 * (1/2) + 0.2 * 0
   \<and> 0 \<le> calculateUtilityScore 1 (1/2) 0 \<and> calculateUtilityScore 1 (1/2) 0 \<le> 1"
  using calculateUtilityScore_weighted_sum [of 1 "1/2" 0] by simp

section \<open>Temporal decay\<close>

text \<open>
  Claim C6 (amended). For every initial confidence \<open>c\<close>, decay constant \<open>k\<close> and
  validation time \<open>t\<close> the current confidence is \<open>c \<cdot> e\<^sup>-\<^sup>k\<^sup>\<Delta>\<close> with \<open>\<Delta>\<close> the elapsed time
  in days, and it equals \<open>c\<close> exactly when no time has elapsed. For \<open>c \<ge> 0\<close> and
  \<open>k \<ge> 0\<close> it does not increase when the elapsed time grows.
\<close>

theorem calculateCurrentConfidence_decay:
  "calculateCurrentConfidence now c k t
     = c * exp (- k * (real_of_int (now - t) / 86400000))
   \<and> calculateCurrentConfidence t c k t = c
   \<and> (0 \<le> c \<and> 0 \<le> k \<and> now1 - t1 \<le> now2 - t2 \<longrightarrow>
        calculateCurrentConfidence now2 c k t2 \<le> calculateCurrentConfidence now1 c k t1)"
proof -
  have mono: "k * real_of_int (now1 - t1) \<le> k * real_of_int (now2 - t2)"
    if "0 \<le> k" "now1 - t1 \<le> now2 - t2"
    using that by (intro mult_left_mono) auto
  show ?thesis
    using mono
    by (auto simp: calculateCurrentConfidence_def msPerDay_def Let_def
        intro!: mult_left_mono divide_right_mono)
qed

theorem calculateCurrentConfidence_decay_witness:
  "calculateCurrentConfidence 86400000 1 1 0
     = 1 * exp (- 1 * (real_of_int (86400000 - 0) / 86400000))
   \<and> calculateCurrentConfidence 0 1 1 0 = 1
   \<and> (0::real) \<le> 1 \<and> (0::int) - 0 \<le> 86400000 - 0
   \<and> calculateCurrentConfidence 86400000 1 1 0 \<le> calculateCurrentConfidence 0 1 1 0"
  using calculateCurrentConfidence_decay [of 86400000 1 1 0 0 0 86400000 0] by simp

text \<open>
  Without the restriction to \<open>c \<ge> 0\<close> the monotonicity fails: a negative initial
  value moves up towards zero as time passes. One day after validation, with \<open>k = 1\<close>
  and \<open>c = -1\<close>, the value is \<open>-e\<^sup>-\<^sup>1\<close>, which is above \<open>-1\<close>.
\<close>

theorem calculateCurrentConfidence_negative_counterexample:
  "(0::real) \<le> 1 \<and> (0::int) - 0 \<le> 86400000 - 0
   \<and> \<not> calculateCurrentConfidence 86400000 (- 1) 1 0 \<le> calculateCurrentConfidence 0 (- 1) 1 0"
  by (simp add: calculateCurrentConfidence_def msPerDay_def)

section \<open>Applying a lesson\<close>

lemma find_map_preserved:
  "(\<And>x. P (f x) = P x) \<Longrightarrow> find P (map f xs) = map_option f (find P xs)"
  by (induction xs) auto

lemma lessons_updatePattern [simp]: "lessons (snd (updatePattern s i u)) = lessons s"
  by (simp add: updatePattern_def)

lemma lessons_updateLesson:
  "lu_initial_confidence u \<noteq> None \<Longrightarrow>
   lessons (snd (updateLesson s i u))
     = map (\<lambda>l. if l_id l = i then apply_lesson_updates u l else l) (lessons s)"
  by (auto simp: updateLesson_def)

lemma clamp_bounds: "lo \<le> hi \<Longrightarrow> lo \<le> clamp lo hi x \<and> clamp lo hi x \<le> hi"
  by (auto simp: clamp_def)

lemma applied_confidence_bounds:
  "0.1 \<le> applied_confidence now out lesson \<and> applied_confidence now out lesson \<le> 0.95"
  unfolding applied_confidence_def spec_newConfidence_def
  by (rule clamp_bounds) simp

lemma code_confidence_eq:
  "max 0.1 (min 0.95
      (max 0.3 (1 - ln (real (l_times_applied lesson + 1) + 1) / 5) * prev
       + (1 - max 0.3 (1 - ln (real (l_times_applied lesson + 1) + 1) / 5))
         * (0.7 * ((real (l_times_succeeded lesson)
                    + (if out = Success then 1 else if out = Partial then 0.5 else 0))
                   / real (l_times_applied lesson + 1))
            + 0.3 * (if out = Success then 1.0 else if out = Partial then 0.5 else 0.0))))
   = spec_newConfidence prev
       ((real (l_times_succeeded lesson) + success_credit out) / real (l_times_applied lesson + 1))
       (l_times_applied lesson + 1) out"
  unfolding spec_newConfidence_def clamp_def spec_priorWeight_def spec_evidenceConfidence_def
    success_credit_def
  by (cases out) simp_all

lemma applyLesson_found:
  assumes "getLesson s (ai_lesson_id input) = Some lesson"
  shows "\<exists>result s'. applyLesson now input s = Inr (result, s')
           \<and> ar_new_confidence result = applied_confidence now (ai_outcome input) lesson
           \<and> lessons s' = map (\<lambda>l. if l_id l = ai_lesson_id input
                                    then applied_lesson now (ai_outcome input) lesson l else l)
                             (lessons s)"
proof -
  have nd: "\<not> (applied_confidence now (ai_outcome input) lesson < threshold_deprecation)"
    using applied_confidence_bounds [of now "ai_outcome input" lesson]
    by (simp add: threshold_deprecation_def)
  have credit: "(if ai_outcome input = Success then 1 else if ai_outcome input = Partial then 0.5 else 0)
                  = success_credit (ai_outcome input)"
    by (cases "ai_outcome input") (simp_all add: success_credit_def)
  show ?thesis
    unfolding applyLesson_def Let_def
    apply (simp only: assms option.case code_confidence_eq)
    apply (simp only: credit)
    apply (fold applied_confidence_def)
    apply (simp only: nd simp_thms if_False)
    apply (simp add: lessons_updateLesson no_lesson_updates_def apply_lesson_updates_def
        applied_lesson_def split: option.splits)
    done
qed

lemma getLesson_after_map:
  assumes "getLesson s i = Some lesson" and "\<And>l. l_id (f l) = l_id l"
  shows "find (\<lambda>l. l_id l = i) (map (\<lambda>l. if l_id l = i then f l else l) (lessons s)) = Some (f lesson)"
proof -
  have "find (\<lambda>l. l_id l = i) (map (\<lambda>l. if l_id l = i then f l else l) xs)
          = map_option f (find (\<lambda>l. l_id l = i) xs)" for xs
    by (induction xs) (auto simp: assms(2))
  then show ?thesis using assms(1) by (simp add: getLesson_def)
qed

lemma getLesson_id: "getLesson s i = Some lesson \<Longrightarrow> l_id lesson = i"
  by (auto simp: getLesson_def find_Some_iff)

text \<open>
  Claim C1. When the lesson id resolves, \<open>applyLesson\<close> succeeds; the new confidence is
  the clamp to \<open>[0.1, 0.95]\<close> of
  \<open>priorWeight \<cdot> previousDecayedConfidence + evidenceWeight \<cdot> (0.7 \<cdot> successRate + 0.3 \<cdot> evidenceConfidence)\<close>
  with \<open>priorWeight = max(0.3, 1 - ln(timesApplied + 1) / 5)\<close>, \<open>evidenceWeight = 1 - priorWeight\<close>
  and \<open>evidenceConfidence\<close> 1.0, 0.5 or 0.0 by outcome, where \<open>timesApplied\<close> and
  \<open>successRate\<close> already count this application; it is returned and stored as
  \<open>initial_confidence\<close>, \<open>last_validated\<close> becomes the current time, and the lesson is
  deprecated when the new confidence is below 0.1 and \<open>timesApplied \<ge> 5\<close> (and left as it
  was otherwise). When the id does not resolve the call fails with \<open>NotFound\<close>.
\<close>

theorem applyLesson_belief_update:
  "(getLesson s (ai_lesson_id input) = None \<longrightarrow>
      applyLesson now input s = Inl (NotFound (ai_lesson_id input)))
   \<and> (\<forall>lesson. getLesson s (ai_lesson_id input) = Some lesson \<longrightarrow>
        (let previousConfidence =
               calculateCurrentConfidence now (l_initial_confidence lesson)
                 (l_decay_constant lesson) (l_last_validated lesson);
             timesApplied = l_times_applied lesson + 1;
             successRate = (real (l_times_succeeded lesson) + success_credit (ai_outcome input))
                             / real timesApplied;
             newConfidence =
               spec_newConfidence previousConfidence successRate timesApplied (ai_outcome input)
         in \<exists>result s' lesson'.
              applyLesson now input s = Inr (result, s')
              \<and> ar_new_confidence result = newConfidence
              \<and> getLesson s' (ai_lesson_id input) = Some lesson'
              \<and> l_initial_confidence lesson' = newConfidence
              \<and> l_last_validated lesson' = now
              \<and> l_times_applied lesson' = timesApplied
              \<and> l_deprecated_at lesson'
                  = (if newConfidence < 0.1 \<and> timesApplied \<ge> 5 then Some now
                     else l_deprecated_at lesson)))"
proof (intro conjI allI impI)
  assume "getLesson s (ai_lesson_id input) = None"
  then show "applyLesson now input s = Inl (NotFound (ai_lesson_id input))"
    by (simp add: applyLesson_def)
next
  fix lesson
  assume found: "getLesson s (ai_lesson_id input) = Some lesson"
  let ?i = "ai_lesson_id input"
  let ?f = "applied_lesson now (ai_outcome input) lesson"
  from applyLesson_found [OF found, of now] obtain result s' where
    run: "applyLesson now input s = Inr (result, s')"
    and conf: "ar_new_confidence result = applied_confidence now (ai_outcome input) lesson"
    and rows: "lessons s' = map (\<lambda>l. if l_id l = ?i then ?f l else l) (lessons s)"
    by blast
  have "getLesson s' ?i = Some (?f lesson)"
    unfolding getLesson_def rows
    by (rule getLesson_after_map [OF found]) (simp add: applied_lesson_def)
  moreover have "\<not> applied_confidence now (ai_outcome input) lesson < 0.1"
    using applied_confidence_bounds [of now "ai_outcome input" lesson] by simp
  ultimately show "let previousConfidence =
               calculateCurrentConfidence now (l_initial_confidence lesson)
                 (l_decay_constant lesson) (l_last_validated lesson);
             timesApplied = l_times_applied lesson + 1;
             successRate = (real (l_times_succeeded lesson) + success_credit (ai_outcome input))
                             / real timesApplied;
             newConfidence =
               spec_newConfidence previousConfidence successRate timesApplied (ai_outcome input)
         in \<exists>result s' lesson'.
              applyLesson now input s = Inr (result, s')
              \<and> ar_new_confidence result = newConfidence
              \<and> getLesson s' (ai_lesson_id input) = Some lesson'
              \<and> l_initial_confidence lesson' = newConfidence
              \<and> l_last_validated lesson' = now
              \<and> l_times_applied lesson' = timesApplied
              \<and> l_deprecated_at lesson'
                  = (if newConfidence < 0.1 \<and> timesApplied \<ge> 5 then Some now
                     else l_deprecated_at lesson)"
    using run conf
    unfolding Let_def
    apply (fold applied_confidence_def)
    apply (intro exI [of _ result] exI [of _ s'] exI [of _ "?f lesson"])
    apply (simp add: applied_lesson_def)
    done
qed


theorem applyLesson_belief_update_witness:
  "applyLesson 0 \<lparr>ai_lesson_id = 2, ai_outcome = Success\<rparr>
      (one_lesson_store (example_lesson 0.5 0 0 0)) = Inl (NotFound 2)
   \<and> (\<exists>result s' lesson'.
         applyLesson 0 \<lparr>ai_lesson_id = 1, ai_outcome = Success\<rparr>
           (one_lesson_store (example_lesson 0.5 0 0 0)) = Inr (result, s')
         \<and> ar_new_confidence result = spec_newConfidence 0.5 1 1 Success
         \<and> getLesson s' 1 = Some lesson'
         \<and> l_initial_confidence lesson' = spec_newConfidence 0.5 1 1 Success
         \<and> l_last_validated lesson' = 0
         \<and> l_times_applied lesson' = 1
         \<and> l_deprecated_at lesson' = None)"
  using applyLesson_belief_update
          [of "one_lesson_store (example_lesson 0.5 0 0 0)"
              "\<lparr>ai_lesson_id = 2, ai_outcome = Success\<rparr>" 0]
        applyLesson_belief_update
          [of "one_lesson_store (example_lesson 0.5 0 0 0)"
              "\<lparr>ai_lesson_id = 1, ai_outcome = Success\<rparr>" 0]
  by (simp add: one_lesson_store_def example_lesson_def empty_store_def getLesson_def
      calculateCurrentConfidence_def success_credit_def Let_def)

text \<open>
  Claim C2. A successful \<open>applyLesson\<close> call leaves the lesson with an
  \<open>initial_confidence\<close> in \<open>[0.1, 0.95]\<close>, and it changes no \<open>deprecated_at\<close> column:
  the stored value is never strictly below the deprecation threshold 0.1, so the
  deprecation branch is not taken.
\<close>

theorem applyLesson_never_deprecates:
  assumes "applyLesson now input s = Inr (result, s')"
  shows "(\<exists>lesson'. getLesson s' (ai_lesson_id input) = Some lesson')
         \<and> (\<forall>lesson' \<in> set (lessons s'). l_id lesson' = ai_lesson_id input \<longrightarrow>
               0.1 \<le> l_initial_confidence lesson' \<and> l_initial_confidence lesson' \<le> 0.95)
         \<and> map l_deprecated_at (lessons s') = map l_deprecated_at (lessons s)"
proof -
  let ?i = "ai_lesson_id input"
  have "getLesson s ?i \<noteq> None"
  proof
    assume "getLesson s ?i = None"
    then have "applyLesson now input s = Inl (NotFound ?i)"
      by (simp add: applyLesson_def)
    with assms show False by simp
  qed
  then obtain lesson where found: "getLesson s ?i = Some lesson"
    by blast
  let ?f = "applied_lesson now (ai_outcome input) lesson"
  from applyLesson_found [OF found, of now] assms
  have rows: "lessons s' = map (\<lambda>l. if l_id l = ?i then ?f l else l) (lessons s)"
    by auto
  have c1: "\<exists>lesson'. getLesson s' ?i = Some lesson'"
    unfolding getLesson_def rows
    using getLesson_after_map [OF found, of ?f] by (simp add: applied_lesson_def)
  have bounds: "0.1 \<le> l_initial_confidence (?f l) \<and> l_initial_confidence (?f l) \<le> 0.95" for l
    using applied_confidence_bounds [of now "ai_outcome input" lesson]
    by (simp add: applied_lesson_def)
  have c2: "\<forall>lesson' \<in> set (lessons s'). l_id lesson' = ?i \<longrightarrow>
               0.1 \<le> l_initial_confidence lesson' \<and> l_initial_confidence lesson' \<le> 0.95"
  proof (intro ballI impI)
    fix lesson'
    assume mem: "lesson' \<in> set (lessons s')" and idm: "l_id lesson' = ?i"
    from mem have "\<exists>l. lesson' = (if l_id l = ?i then ?f l else l)"
      unfolding rows set_map by blast
    then obtain l where "lesson' = (if l_id l = ?i then ?f l else l)" ..
    with idm have "lesson' = ?f l"
      by (cases "l_id l = ?i") simp_all
    then show "0.1 \<le> l_initial_confidence lesson' \<and> l_initial_confidence lesson' \<le> 0.95"
      using bounds [of l] by simp
  qed
  have dep: "l_deprecated_at (if l_id l = ?i then ?f l else l) = l_deprecated_at l" for l
    by (simp add: applied_lesson_def)
  have c3: "map l_deprecated_at (lessons s') = map l_deprecated_at (lessons s)"
    unfolding rows map_map comp_def dep ..
  from c1 c2 c3 show ?thesis by blast
qed

theorem applyLesson_never_deprecates_witness:
  "\<exists>result s'.
     applyLesson 0 \<lparr>ai_lesson_id = 1, ai_outcome = Failure\<rparr>
       (one_lesson_store (example_lesson 0.1 0 10 0)) = Inr (result, s')
     \<and> (\<exists>lesson'. getLesson s' 1 = Some lesson')
     \<and> list_all (\<lambda>lesson'. 0.1 \<le> l_initial_confidence lesson'
                            \<and> l_initial_confidence lesson' \<le> 0.95) (lessons s')
     \<and> map l_deprecated_at (lessons s') = [None]"
proof -
  let ?s = "one_lesson_store (example_lesson 0.1 0 10 0)"
  let ?input = "\<lparr>ai_lesson_id = 1, ai_outcome = Failure\<rparr>"
  have "getLesson ?s (ai_lesson_id ?input) = Some (example_lesson 0.1 0 10 0)"
    by (simp add: one_lesson_store_def example_lesson_def empty_store_def getLesson_def)
  from applyLesson_found [OF this, of 0] obtain result s' where
    run: "applyLesson 0 ?input ?s = Inr (result, s')"
    by blast
  from applyLesson_never_deprecates [OF run]
  have dep: "map l_deprecated_at (lessons s') = map l_deprecated_at (lessons ?s)"
    and ex: "\<exists>lesson'. getLesson s' 1 = Some lesson'"
    and rng: "\<forall>lesson' \<in> set (lessons s'). l_id lesson' = 1 \<longrightarrow>
               0.1 \<le> l_initial_confidence lesson' \<and> l_initial_confidence lesson' \<le> 0.95"
    by simp_all
  from dep obtain l' where one: "lessons s' = [l']"
    by (auto simp: one_lesson_store_def empty_store_def)
  with ex have "l_id l' = 1"
    by (auto simp: getLesson_def split: if_splits)
  with rng one have "list_all (\<lambda>lesson'. 0.1 \<le> l_initial_confidence lesson'
                            \<and> l_initial_confidence lesson' \<le> 0.95) (lessons s')"
    by simp
  with run ex dep show ?thesis
    by (simp add: one_lesson_store_def example_lesson_def empty_store_def)
qed

section \<open>Active lessons\<close>

lemma getActiveLessons_fst:
  "map fst (getActiveLessons now s m)
     = filter (\<lambda>l. m \<le> decayed now l)
         (sort_key (\<lambda>l. - l_initial_confidence l)
            (filter (\<lambda>l. l_deprecated_at l = None) (lessons s)))"
proof -
  have "map fst (filter (\<lambda>(l, c). m \<le> c) (map (\<lambda>l. (l, decayed now l)) xs))
          = filter (\<lambda>l. m \<le> decayed now l) xs" for xs
    by (induction xs) auto
  then show ?thesis
    by (simp add: getActiveLessons_def decayed_def)
qed

lemma getActiveLessons_snd:
  "x \<in> set (getActiveLessons now s m) \<Longrightarrow> snd x = decayed now (fst x)"
  by (auto simp: getActiveLessons_def decayed_def)

lemma getActiveLessons_mem:
  "(l, c) \<in> set (getActiveLessons now s m)
     \<longleftrightarrow> l \<in> set (lessons s) \<and> l_deprecated_at l = None \<and> c = decayed now l \<and> m \<le> c"
  by (auto simp: getActiveLessons_def decayed_def)

lemma getActiveLessons_sorted:
  "sorted_wrt (\<lambda>a b. l_initial_confidence (fst a) \<ge> l_initial_confidence (fst b))
     (getActiveLessons now s m)"
proof -
  let ?rows = "sort_key (\<lambda>l. - l_initial_confidence l)
                 (filter (\<lambda>l. l_deprecated_at l = None) (lessons s))"
  have "sorted (map (\<lambda>l. - l_initial_confidence l) ?rows)"
    by (rule sorted_sort_key)
  then have "sorted_wrt (\<lambda>a b. l_initial_confidence a \<ge> l_initial_confidence b) ?rows"
    by (simp add: sorted_wrt_map)
  then have "sorted_wrt (\<lambda>a b. l_initial_confidence a \<ge> l_initial_confidence b)
               (map fst (getActiveLessons now s m))"
    unfolding getActiveLessons_fst by (rule sorted_wrt_filter)
  then show ?thesis
    by (simp add: sorted_wrt_map)
qed

lemma getActiveLessons_stable:
  "filter (\<lambda>l. l_initial_confidence l = v) (map fst (getActiveLessons now s m))
     = filter (\<lambda>l. l_deprecated_at l = None \<and> m \<le> decayed now l \<and> l_initial_confidence l = v)
         (lessons s)"
proof -
  let ?f = "\<lambda>l. - l_initial_confidence l"
  let ?act = "filter (\<lambda>l. l_deprecated_at l = None) (lessons s)"
  have "filter (\<lambda>l. l_initial_confidence l = v) (map fst (getActiveLessons now s m))
          = filter (\<lambda>l. m \<le> decayed now l) (filter (\<lambda>l. ?f l = - v) (sort_key ?f ?act))"
    unfolding getActiveLessons_fst by (simp add: conj_commute)
  also have "\<dots> = filter (\<lambda>l. m \<le> decayed now l) (filter (\<lambda>l. ?f l = - v) ?act)"
    by (simp only: sort_key_stable)
  also have "\<dots> = filter (\<lambda>l. l_deprecated_at l = None \<and> m \<le> decayed now l
                              \<and> l_initial_confidence l = v) (lessons s)"
    by (auto intro: filter_cong)
  finally show ?thesis .
qed

lemma getActiveLessons_deprecated:
  assumes "x \<in> set (getActiveLessons now' (snd (deprecateLesson now s i)) m')"
  shows "l_id (fst x) \<noteq> i"
proof -
  obtain l c where x: "x = (l, c)" by (cases x)
  with assms have "l \<in> set (lessons (snd (deprecateLesson now s i)))"
    and active: "l_deprecated_at l = None"
    by (simp_all add: getActiveLessons_mem)
  then have "\<exists>l0. l = (if l_id l0 = i then l0\<lparr>l_deprecated_at := Some now\<rparr> else l0)"
    unfolding deprecateLesson_def by (simp add: image_iff) blast
  then obtain l0 where l: "l = (if l_id l0 = i then l0\<lparr>l_deprecated_at := Some now\<rparr> else l0)" ..
  show ?thesis
  proof (cases "l_id l0 = i")
    case True
    with l active show ?thesis by simp
  next
    case False
    with l x show ?thesis by simp
  qed
qed

text \<open>
  Claim C4 (amended). \<open>getActiveLessons(minConfidence)\<close> returns exactly the lessons whose
  \<open>deprecated_at\<close> is null and whose decayed confidence is at least the threshold, each
  paired with its decayed confidence. The result is in descending order of the stored
  \<open>initial_confidence\<close>, lessons with equal \<open>initial_confidence\<close> in row order. A lesson
  on which \<open>deprecateLesson\<close> has been called is absent for every threshold.
\<close>

theorem getActiveLessons_selection:
  "(\<forall>l c. (l, c) \<in> set (getActiveLessons now s m)
        \<longleftrightarrow> l \<in> set (lessons s) \<and> l_deprecated_at l = None \<and> c = decayed now l \<and> m \<le> c)
   \<and> sorted_wrt (\<lambda>a b. l_initial_confidence (fst a) \<ge> l_initial_confidence (fst b))
        (getActiveLessons now s m)
   \<and> (\<forall>v. filter (\<lambda>l. l_initial_confidence l = v) (map fst (getActiveLessons now s m))
          = filter (\<lambda>l. l_deprecated_at l = None \<and> m \<le> decayed now l
                        \<and> l_initial_confidence l = v) (lessons s))
   \<and> (\<forall>now' m'. \<forall>x \<in> set (getActiveLessons now' (snd (deprecateLesson now s i)) m').
          l_id (fst x) \<noteq> i)"
  using getActiveLessons_mem getActiveLessons_sorted getActiveLessons_stable
    getActiveLessons_deprecated
  by (intro conjI allI ballI)

lemma exp_minus_one_le_half: "exp (- 1 :: real) \<le> 1 / 2"
proof -
  have "(2::real) \<le> exp 1"
    using exp_ge_add_one_self [of "1::real"] by simp
  then have "1 / exp (1::real) \<le> 1 / 2"
    by (intro divide_left_mono) auto
  then show ?thesis
    by (simp add: exp_minus inverse_eq_divide)
qed

text \<open>
  The result is not ordered by decayed confidence. Of two lessons with stored confidences
  0.9 and 0.5, the first validated 100 days ago and the second just now (\<open>k = 0.01\<close>),
  the first decays to \<open>0.9 \<cdot> e\<^sup>-\<^sup>1 < 0.5\<close> and is still listed first.
\<close>

lemma two_lessons_active:
  "getActiveLessons 8640000000 two_lessons_store 0
     = [(example_lesson 0.9 0 0 0, 0.9 * exp (- 1)),
        ((example_lesson 0.5 8640000000 0 0)\<lparr>l_id := 2\<rparr>, 0.5)]"
  by (simp add: getActiveLessons_def two_lessons_store_def empty_store_def example_lesson_def
      calculateCurrentConfidence_def msPerDay_def)

theorem getActiveLessons_order_counterexample:
  "\<not> sorted_wrt (\<lambda>a b. snd a \<ge> snd b) (getActiveLessons 8640000000 two_lessons_store 0)"
  using exp_minus_one_le_half by (simp add: two_lessons_active)

theorem getActiveLessons_selection_witness:
  "((example_lesson 0.5 8640000000 0 0)\<lparr>l_id := 2\<rparr>, 0.5)
     \<in> set (getActiveLessons 8640000000 two_lessons_store 0.4)
   \<and> sorted_wrt (\<lambda>a b. l_initial_confidence (fst a) \<ge> l_initial_confidence (fst b))
        (getActiveLessons 8640000000 two_lessons_store 0.4)
   \<and> 2 \<notin> set (map (\<lambda>x. l_id (fst x))
                (getActiveLessons 8640000000
                   (snd (deprecateLesson 8640000000 two_lessons_store 2)) 0.4))"
proof -
  let ?l = "(example_lesson 0.5 8640000000 0 0)\<lparr>l_id := 2\<rparr>"
  note sel = getActiveLessons_selection [of 8640000000 two_lessons_store "0.4" 2]
  have "?l \<in> set (lessons two_lessons_store) \<and> l_deprecated_at ?l = None
        \<and> 0.5 = decayed 8640000000 ?l \<and> (0.4::real) \<le> 0.5"
    by (simp add: two_lessons_store_def empty_store_def example_lesson_def decayed_def
        calculateCurrentConfidence_def)
  then have "(?l, 0.5) \<in> set (getActiveLessons 8640000000 two_lessons_store 0.4)"
    using sel [THEN conjunct1, rule_format, of ?l "0.5"] by (simp only:)
  moreover have "\<forall>x \<in> set (getActiveLessons 8640000000
                     (snd (deprecateLesson 8640000000 two_lessons_store 2)) 0.4).
          l_id (fst x) \<noteq> 2"
    using sel [THEN conjunct2, THEN conjunct2, THEN conjunct2, rule_format,
        of _ 8640000000 "0.4"]
    by blast
  then have "2 \<notin> set (map (\<lambda>x. l_id (fst x))
                (getActiveLessons 8640000000
                   (snd (deprecateLesson 8640000000 two_lessons_store 2)) 0.4))"
    unfolding set_map by (auto simp: image_iff)
  ultimately show ?thesis
    using sel [THEN conjunct2, THEN conjunct1] by (simp only: simp_thms)
qed

section \<open>Retention sweep\<close>

lemma stale_after_sweep:
  "\<not> stale_lesson low now cutoff
       (if stale_lesson low now cutoff l then l\<lparr>l_deprecated_at := Some now\<rparr> else l)"
  by (simp add: stale_lesson_def)

lemma cleanup_lessons_fixed:
  "map (\<lambda>l. if stale_lesson low now cutoff l then l\<lparr>l_deprecated_at := Some now\<rparr> else l)
     (map (\<lambda>l. if stale_lesson low now cutoff l then l\<lparr>l_deprecated_at := Some now\<rparr> else l) xs)
   = map (\<lambda>l. if stale_lesson low now cutoff l then l\<lparr>l_deprecated_at := Some now\<rparr> else l) xs"
  by (induction xs) (simp_all add: stale_after_sweep)

lemma cleanup_no_stale_left:
  "filter (stale_lesson low now cutoff)
     (map (\<lambda>l. if stale_lesson low now cutoff l then l\<lparr>l_deprecated_at := Some now\<rparr> else l) xs)
   = []"
  by (induction xs) (simp_all add: stale_after_sweep)

text \<open>
  Claim C10. The sweep keeps exactly the episodes that are not older than
  \<open>retentionDays\<close> (unchanged and in order) and counts the deleted ones; it keeps
  exactly the patterns whose \<open>last_seen\<close> is not older than twice that period and
  counts the deleted ones; it deletes no lesson, marks exactly the stale lessons as
  deprecated and counts them; and a second sweep at the same clock reading changes
  nothing and reports three zero counts.
\<close>

theorem cleanupOldData_sweep:
  "(let cutoff = now - int retentionDays * msPerDay;
        patternCutoff = now - 2 * int retentionDays * msPerDay;
        (counts, s') = cleanupOldData low now retentionDays s
    in episodes s' = filter (\<lambda>e. e_timestamp e \<ge> cutoff) (episodes s)
       \<and> deletedEpisodes counts = length (filter (\<lambda>e. e_timestamp e < cutoff) (episodes s))
       \<and> patterns s' = filter (\<lambda>p. p_last_seen p \<ge> patternCutoff) (patterns s)
       \<and> deletedPatterns counts = length (filter (\<lambda>p. p_last_seen p < patternCutoff) (patterns s))
       \<and> map l_id (lessons s') = map l_id (lessons s)
       \<and> map (\<lambda>l. l_deprecated_at l \<noteq> None) (lessons s')
           = map (\<lambda>l. l_deprecated_at l \<noteq> None \<or> stale_lesson low now cutoff l) (lessons s)
       \<and> deprecatedLessons counts = length (filter (stale_lesson low now cutoff) (lessons s))
       \<and> cleanupOldData low now retentionDays s'
           = (\<lparr>deletedEpisodes = 0, deletedPatterns = 0, deprecatedLessons = 0\<rparr>, s'))"
  by (simp add: cleanupOldData_def Let_def not_less cleanup_lessons_fixed cleanup_no_stale_left
      comp_def)

theorem cleanupOldData_sweep_witness:
  "deletedEpisodes (fst (cleanupOldData 0.1 12960000000 90 aged_store)) = 1
   \<and> map e_id (episodes (snd (cleanupOldData 0.1 12960000000 90 aged_store))) = [2]
   \<and> deprecatedLessons (fst (cleanupOldData 0.1 12960000000 90 aged_store)) = 1
   \<and> map l_deprecated_at (lessons (snd (cleanupOldData 0.1 12960000000 90 aged_store)))
        = [Some 12960000000]
   \<and> cleanupOldData 0.1 12960000000 90 (snd (cleanupOldData 0.1 12960000000 90 aged_store))
        = (\<lparr>deletedEpisodes = 0, deletedPatterns = 0, deprecatedLessons = 0\<rparr>,
           snd (cleanupOldData 0.1 12960000000 90 aged_store))"
proof -
  obtain counts s' where run: "cleanupOldData 0.1 12960000000 90 aged_store = (counts, s')"
    by (cases "cleanupOldData 0.1 12960000000 90 aged_store")
  have stale: "stale_lesson 0.1 12960000000 5184000000 (example_lesson 0.9 0 0 0)"
    by (simp add: stale_lesson_def example_lesson_def)
  from cleanupOldData_sweep [of 12960000000 90 "0.1" aged_store] run
  have "episodes s' = [example_episode 2 8640000000 ''build'' Success]"
    and "deletedEpisodes counts = 1"
    and "map (\<lambda>l. l_deprecated_at l \<noteq> None) (lessons s') = [True]"
    and "deprecatedLessons counts = 1"
    and "cleanupOldData 0.1 12960000000 90 s'
           = (\<lparr>deletedEpisodes = 0, deletedPatterns = 0, deprecatedLessons = 0\<rparr>, s')"
    using stale
    by (simp_all add: Let_def msPerDay_def aged_store_def empty_store_def example_episode_def)
  moreover have "map l_deprecated_at (lessons s') = [Some 12960000000]"
    using run stale
    by (auto simp: cleanupOldData_def Let_def msPerDay_def aged_store_def empty_store_def)
  ultimately show ?thesis
    using run by (simp add: example_episode_def)
qed

section \<open>Learning from a pattern\<close>

lemma getEpisodesByIds_filter:
  "getEpisodesByIds s ids = filter (\<lambda>e. e_id e \<in> set ids) (episodes s)"
  by (simp add: getEpisodesByIds_def)

lemma resolved_count:
  assumes "distinct (map e_id (episodes s))"
  shows "length (getEpisodesByIds s ids) = card (set ids \<inter> e_id ` set (episodes s))"
proof -
  let ?rows = "filter (\<lambda>e. e_id e \<in> set ids) (episodes s)"
  have "distinct (map e_id ?rows)"
    using assms by (rule distinct_map_filter)
  then have "length (map e_id ?rows) = card (set (map e_id ?rows))"
    by (rule distinct_card [symmetric])
  moreover have "set (map e_id ?rows) = set ids \<inter> e_id ` set (episodes s)"
    by auto
  ultimately show ?thesis
    by (simp only: getEpisodesByIds_filter length_map)
qed

lemma code_learn_confidence:
  "min 0.9 (max 0.3
      (0.4 + real (length (filter (\<lambda>e. e_outcome e = Success) es)) / real (length es) * 0.3
       + min 0.3 (ln (real (length es) + 1) * 0.1)
       + (\<Sum>e\<leftarrow>es. e_utility_score e) / real (length es) * 0.2))
   = spec_learnConfidence es"
  unfolding spec_learnConfidence_def clamp_def Let_def
  by (simp add: max_def min_def mult.commute)

lemma updatePattern_ids [simp]:
  "map p_id (patterns (snd (updatePattern s i u))) = map p_id (patterns s)"
  by (simp add: updatePattern_def apply_pattern_updates_def comp_def if_distrib cong: if_cong)

lemma updatePattern_descriptions [simp]:
  "map p_description (patterns (snd (updatePattern s i u))) = map p_description (patterns s)"
  by (simp add: updatePattern_def apply_pattern_updates_def comp_def if_distrib cong: if_cong)

lemma getPattern_None_iff: "getPattern s i = None \<longleftrightarrow> i \<notin> set (map p_id (patterns s))"
  by (auto simp: getPattern_def find_None_iff)

lemma findPatternByDescription_mem:
  "findPatternByDescription s d = Some existing \<Longrightarrow> existing \<in> set (patterns s)"
  by (auto simp: findPatternByDescription_def find_Some_iff)

lemma getPattern_after_update:
  assumes "findPatternByDescription s d = Some existing"
  shows "getPattern (snd (updatePattern s (p_id existing) u)) (p_id existing) \<noteq> None"
  using findPatternByDescription_mem [OF assms]
  by (simp only: getPattern_None_iff updatePattern_ids) simp

lemma getPattern_after_insert:
  "getPattern (snd (insertPattern s p)) (fst (insertPattern s p)) \<noteq> None"
  by (auto simp: getPattern_def insertPattern_def Let_def find_None_iff)

lemma learnFromPattern_enough:
  assumes "\<not> length (getEpisodesByIds s (li_episode_ids input)) < minEpisodes"
  shows "\<exists>result s' pid lesson.
           learnFromPattern now input s = Inr (result, s')
           \<and> lr_pattern_id result = Some pid
           \<and> getPattern s' pid \<noteq> None
           \<and> lessons s' = lessons s @ [lesson]
           \<and> l_id lesson = lr_lesson_id result
           \<and> l_pattern_id lesson = Some pid
           \<and> l_initial_confidence lesson = spec_learnConfidence (getEpisodesByIds s (li_episode_ids input))
           \<and> lr_initial_confidence result = spec_learnConfidence (getEpisodesByIds s (li_episode_ids input))"
proof (cases "findPatternByDescription s (li_pattern_description input)")
  case None
  show ?thesis
    unfolding learnFromPattern_def Let_def
    apply (simp only: assms if_False code_learn_confidence None option.case)
    by (simp add: insertLesson_def split_def Let_def getPattern_None_iff insertPattern_def)
next
  case (Some existing)
  show ?thesis
    unfolding learnFromPattern_def Let_def
    apply (simp only: assms if_False code_learn_confidence Some option.case)
    using getPattern_after_update [OF Some]
    by (simp add: insertLesson_def split_def Let_def getPattern_def)
qed

text \<open>
  Claim C5. In a store whose episode ids are unique (the primary key), let \<open>n\<close> be the
  number of distinct supplied ids that resolve to an episode. If \<open>n < 3\<close>, in
  particular for every list of two ids, \<open>learnFromPattern\<close> fails with
  \<open>InsufficientEvidence\<close>. If \<open>n \<ge> 3\<close> it succeeds, returns the id of a pattern that is
  in the store, and appends one lesson whose initial confidence is
  \<open>clamp(0.3, 0.9, 0.4 + 0.3 \<cdot> successRate + min(0.3, 0.1 \<cdot> ln(n + 1)) + 0.2 \<cdot> meanUtility)\<close>
  computed over the resolved episodes.
\<close>

theorem learnFromPattern_evidence:
  assumes "distinct (map e_id (episodes s))"
  shows "(let ids = li_episode_ids input;
              resolved = filter (\<lambda>e. e_id e \<in> set ids) (episodes s);
              n = card (set ids \<inter> e_id ` set (episodes s))
          in length resolved = n
             \<and> (n < 3 \<longrightarrow> learnFromPattern now input s = Inl (InsufficientEvidence n))
             \<and> (length ids = 2 \<longrightarrow> learnFromPattern now input s = Inl (InsufficientEvidence n))
             \<and> (3 \<le> n \<longrightarrow>
                  (\<exists>result s' pid lesson.
                     learnFromPattern now input s = Inr (result, s')
                     \<and> lr_pattern_id result = Some pid
                     \<and> getPattern s' pid \<noteq> None
                     \<and> lessons s' = lessons s @ [lesson]
                     \<and> l_id lesson = lr_lesson_id result
                     \<and> l_pattern_id lesson = Some pid
                     \<and> l_initial_confidence lesson = spec_learnConfidence resolved
                     \<and> lr_initial_confidence result = spec_learnConfidence resolved)))"
proof -
  let ?ids = "li_episode_ids input"
  let ?n = "card (set ?ids \<inter> e_id ` set (episodes s))"
  have len: "length (getEpisodesByIds s ?ids) = ?n"
    using assms by (rule resolved_count)
  have few: "learnFromPattern now input s = Inl (InsufficientEvidence ?n)" if "?n < 3"
    using that len by (simp add: learnFromPattern_def Let_def minEpisodes_def)
  have "?n \<le> card (set ?ids)"
    by (intro card_mono) auto
  also have "\<dots> \<le> length ?ids"
    by (rule card_length)
  finally have two: "?n < 3" if "length ?ids = 2"
    using that by simp
  have enough: "\<not> length (getEpisodesByIds s ?ids) < minEpisodes" if "3 \<le> ?n"
    using that len by (simp add: minEpisodes_def)
  show ?thesis
    unfolding Let_def
    using len few two learnFromPattern_enough [OF enough, of now]
    by (simp add: getEpisodesByIds_filter)
qed

theorem learnFromPattern_evidence_witness:
  "distinct (map e_id (episodes five_episodes_store))
   \<and> learnFromPattern 0
        \<lparr>li_pattern_description = ''build succeeds'', li_episode_ids = [1, 2],
         li_lesson_statement = ''install first''\<rparr> five_episodes_store
       = Inl (InsufficientEvidence 2)
   \<and> (\<exists>result s' pid lesson.
         learnFromPattern 0
           \<lparr>li_pattern_description = ''build succeeds'', li_episode_ids = [1, 2, 3, 4, 5],
            li_lesson_statement = ''install first''\<rparr> five_episodes_store
          = Inr (result, s')
         \<and> lr_pattern_id result = Some pid
         \<and> getPattern s' pid \<noteq> None
         \<and> lessons s' = [lesson]
         \<and> l_id lesson = lr_lesson_id result
         \<and> l_initial_confidence lesson = spec_learnConfidence (episodes five_episodes_store))"
proof -
  let ?two = "\<lparr>li_pattern_description = ''build succeeds'', li_episode_ids = [1, 2],
               li_lesson_statement = ''install first''\<rparr>"
  let ?five = "\<lparr>li_pattern_description = ''build succeeds'', li_episode_ids = [1, 2, 3, 4, 5],
                li_lesson_statement = ''install first''\<rparr>"
  have d: "distinct (map e_id (episodes five_episodes_store))"
    by (simp add: five_episodes_store_def empty_store_def example_episode_def)
  have n2: "card (set (li_episode_ids ?two) \<inter> e_id ` set (episodes five_episodes_store)) = 2"
    by (simp add: five_episodes_store_def empty_store_def example_episode_def)
  have n5: "card (set (li_episode_ids ?five) \<inter> e_id ` set (episodes five_episodes_store)) = 5"
    by (simp add: five_episodes_store_def empty_store_def example_episode_def)
  have r5: "filter (\<lambda>e. e_id e \<in> set (li_episode_ids ?five)) (episodes five_episodes_store)
              = episodes five_episodes_store"
    by (simp add: five_episodes_store_def empty_store_def example_episode_def)
  have l: "lessons five_episodes_store = []"
    by (simp add: five_episodes_store_def empty_store_def)
  have few: "learnFromPattern 0 ?two five_episodes_store = Inl (InsufficientEvidence 2)"
    using learnFromPattern_evidence [OF d, of ?two 0] unfolding Let_def n2 by simp
  have "\<exists>result s' pid lesson.
          learnFromPattern 0 ?five five_episodes_store = Inr (result, s')
          \<and> lr_pattern_id result = Some pid
          \<and> getPattern s' pid \<noteq> None
          \<and> lessons s' = lessons five_episodes_store @ [lesson]
          \<and> l_id lesson = lr_lesson_id result
          \<and> l_pattern_id lesson = Some pid
          \<and> l_initial_confidence lesson = spec_learnConfidence (episodes five_episodes_store)
          \<and> lr_initial_confidence result = spec_learnConfidence (episodes five_episodes_store)"
    using learnFromPattern_evidence [OF d, of ?five 0] unfolding Let_def n5 r5 by simp
  then obtain result s' pid lesson where
    "learnFromPattern 0 ?five five_episodes_store = Inr (result, s')"
    "lr_pattern_id result = Some pid" "getPattern s' pid \<noteq> None"
    "lessons s' = [lesson]" "l_id lesson = lr_lesson_id result"
    "l_initial_confidence lesson = spec_learnConfidence (episodes five_episodes_store)"
    unfolding l by auto
  with d few show ?thesis by blast
qed

section \<open>Pattern detection\<close>

lemma sql_like_percent_any: "sql_like [CHR ''%''] cs"
  by (induction cs) auto

lemma sql_like_percent_skip: "sql_like r cs \<Longrightarrow> sql_like (CHR ''%'' # r) cs"
  by (cases cs) auto

lemma sql_like_percent_absorb: "sql_like (CHR ''%'' # r) cs \<Longrightarrow> sql_like (CHR ''%'' # r) (c # cs)"
  by simp

lemma sql_like_literal: "sql_like qs cs \<Longrightarrow> sql_like (ps @ qs) (ps @ cs)"
proof (induction ps)
  case Nil
  then show ?case by simp
next
  case (Cons p ps)
  show ?case
  proof (cases "p = CHR ''%''")
    case True
    have "sql_like (CHR ''%'' # ps @ qs) (ps @ cs)"
      using Cons by (intro sql_like_percent_skip) simp
    then show ?thesis
      using True by simp
  next
    case False
    then show ?thesis
      using Cons by simp
  qed
qed

lemma sql_like_contains: "sql_like (CHR ''%'' # t @ [CHR ''%'']) (a @ t @ b)"
proof (induction a)
  case Nil
  have "sql_like (t @ [CHR ''%'']) (t @ b)"
    by (intro sql_like_literal sql_like_percent_any)
  then show ?case
    by (simp add: sql_like_percent_skip)
next
  case (Cons c a)
  then show ?case
    using sql_like_percent_absorb by simp
qed

lemma description_matches_prefix:
  "p_description p = t @ rest \<Longrightarrow> description_matches t p"
  using sql_like_contains [of t "[]" rest] by (simp add: description_matches_def)

lemma findPatternByDescription_None_iff:
  "findPatternByDescription s t = None \<longleftrightarrow> (\<forall>p \<in> set (patterns s). \<not> description_matches t p)"
  by (auto simp: findPatternByDescription_def description_matches_def find_None_iff)

lemma detectPatterns_alt:
  "detectPatterns now episode s =
     (let similar = window_episodes now (e_operation_type episode) s
      in if length similar < minEpisodes then ([], s)
         else if discrimination now similar < minDiscriminationWeight then ([], s)
         else case findPatternByDescription s (e_operation_type episode) of
                Some existing \<Rightarrow>
                  let s' = snd (updatePattern s (p_id existing)
                                 (detected_updates now similar existing))
                  in (case getPattern s' (p_id existing) of
                        Some updated \<Rightarrow> ([updated], s')
                      | None \<Rightarrow> ([], s'))
              | None \<Rightarrow>
                  let (patternId, s') =
                        insertPattern s (detected_pattern now (e_operation_type episode) similar 0)
                  in (case getPattern s' patternId of
                        Some pattern \<Rightarrow> ([pattern], s')
                      | None \<Rightarrow> ([], s')))"
  unfolding detectPatterns_def window_episodes_def discrimination_def detected_updates_def
    detected_pattern_def detected_description_def Let_def
  by (rule refl)

lemma detectPatterns_skip:
  assumes "length (window_episodes now (e_operation_type episode) s) < minEpisodes
           \<or> discrimination now (window_episodes now (e_operation_type episode) s)
               < minDiscriminationWeight"
  shows "detectPatterns now episode s = ([], s)"
  using assms by (auto simp: detectPatterns_alt Let_def)

lemma detectPatterns_insert:
  assumes "\<not> length (window_episodes now (e_operation_type episode) s) < minEpisodes"
    and "\<not> discrimination now (window_episodes now (e_operation_type episode) s)
             < minDiscriminationWeight"
    and "findPatternByDescription s (e_operation_type episode) = None"
  shows "snd (detectPatterns now episode s)
           = s\<lparr>patterns := patterns s
                  @ [detected_pattern now (e_operation_type episode)
                       (window_episodes now (e_operation_type episode) s) (Suc (pattern_seq s))],
                pattern_seq := Suc (pattern_seq s)\<rparr>"
  using assms
  by (simp add: detectPatterns_alt Let_def insertPattern_def detected_pattern_def
      split: option.splits)

lemma detectPatterns_update:
  assumes "\<not> length (window_episodes now (e_operation_type episode) s) < minEpisodes"
    and "\<not> discrimination now (window_episodes now (e_operation_type episode) s)
             < minDiscriminationWeight"
    and "findPatternByDescription s (e_operation_type episode) = Some existing"
  shows "snd (detectPatterns now episode s)
           = snd (updatePattern s (p_id existing)
                    (detected_updates now (window_episodes now (e_operation_type episode) s) existing))"
  using assms
  by (simp add: detectPatterns_alt Let_def split: option.splits)

lemma stored_episode_fields [simp]:
  "e_id (stored_episode now input s) = Suc (episode_seq s)"
  "e_timestamp (stored_episode now input s) = now"
  "e_operation_type (stored_episode now input s) = ri_operation_type input"
  "e_outcome (stored_episode now input s) = ri_outcome input"
  by (simp_all add: stored_episode_def Let_def)

lemma with_episode_fields [simp]:
  "episodes (with_episode s row) = episodes s @ [row]"
  "episode_seq (with_episode s row) = e_id row"
  "patterns (with_episode s row) = patterns s"
  "pattern_seq (with_episode s row) = pattern_seq s"
  "lessons (with_episode s row) = lessons s"
  "lesson_seq (with_episode s row) = lesson_seq s"
  by (simp_all add: with_episode_def)

lemma find_appended:
  "\<forall>x \<in> set xs. \<not> P x \<Longrightarrow> P y \<Longrightarrow> find P (xs @ [y]) = Some y"
  by (induction xs) auto

lemma recordExperience_store:
  assumes "episode_ids_ok s"
  shows "recordExperience now input s =
           (let row = stored_episode now input s;
                (found, s') = detectPatterns now row (with_episode s row)
            in (\<lparr>rr_episode_id = e_id row, rr_recorded = True,
                 rr_utility_score = e_utility_score row,
                 rr_patterns_triggered = map p_description found\<rparr>, s'))"
proof -
  have fresh: "\<forall>e \<in> set (episodes s). \<not> e_id e = Suc (episode_seq s)"
    using assms by (auto simp: episode_ids_ok_def list_all_iff)
  have saved: "find (\<lambda>e. e_id e = Suc (episode_seq s))
                 (episodes s @ [stored_episode now input s])
               = Some (stored_episode now input s)"
    using fresh by (rule find_appended) simp
  show ?thesis
    unfolding recordExperience_def insertEpisode_def getEpisode_def Let_def split_def
    apply (simp only: fst_conv snd_conv)
    apply (simp add: stored_episode_def Let_def with_episode_def saved [unfolded stored_episode_def Let_def])
    done
qed

lemma updatePattern_frame [simp]:
  "episodes (snd (updatePattern s i u)) = episodes s"
  "episode_seq (snd (updatePattern s i u)) = episode_seq s"
  "pattern_seq (snd (updatePattern s i u)) = pattern_seq s"
  "lesson_seq (snd (updatePattern s i u)) = lesson_seq s"
  "length (patterns (snd (updatePattern s i u))) = length (patterns s)"
  by (simp_all add: updatePattern_def)

lemma detectPatterns_frame [simp]:
  "episodes (snd (detectPatterns now e s)) = episodes s"
  "episode_seq (snd (detectPatterns now e s)) = episode_seq s"
  "lessons (snd (detectPatterns now e s)) = lessons s"
  "lesson_seq (snd (detectPatterns now e s)) = lesson_seq s"
  by (simp_all add: detectPatterns_alt Let_def insertPattern_def lessons_updatePattern
      split: option.splits)

lemma recordExperience_episodes:
  assumes "episode_ids_ok s"
  shows "episodes (snd (recordExperience now input s)) = episodes s @ [stored_episode now input s]"
    and "episode_seq (snd (recordExperience now input s)) = Suc (episode_seq s)"
    and "lessons (snd (recordExperience now input s)) = lessons s"
    and "episode_ids_ok (snd (recordExperience now input s))"
proof -
  let ?row = "stored_episode now input s"
  have s': "snd (recordExperience now input s) = snd (detectPatterns now ?row (with_episode s ?row))"
    by (simp add: recordExperience_store [OF assms] Let_def split_def)
  show "episodes (snd (recordExperience now input s)) = episodes s @ [?row]"
    and "episode_seq (snd (recordExperience now input s)) = Suc (episode_seq s)"
    and "lessons (snd (recordExperience now input s)) = lessons s"
    by (simp_all add: s')
  then show "episode_ids_ok (snd (recordExperience now input s))"
    using assms by (auto simp: episode_ids_ok_def list_all_iff)
qed

lemma window_episodes_with_episode:
  "window_episodes now t (snd (detectPatterns now' e s)) = window_episodes now t s"
  by (simp add: window_episodes_def getEpisodesByType_def)

lemma recordExperience_window:
  assumes "episode_ids_ok s"
  shows "window_episodes now' t (snd (recordExperience now input s))
           = window_episodes now' t (with_episode s (stored_episode now input s))"
  by (simp add: recordExperience_store [OF assms] Let_def split_def window_episodes_with_episode)

lemma recordExperience_patterns_skip:
  assumes "episode_ids_ok s"
    and "length (window_episodes now (ri_operation_type input) (snd (recordExperience now input s)))
           < minEpisodes
         \<or> discrimination now
              (window_episodes now (ri_operation_type input) (snd (recordExperience now input s)))
             < minDiscriminationWeight"
  shows "patterns (snd (recordExperience now input s)) = patterns s
         \<and> rr_patterns_triggered (fst (recordExperience now input s)) = []"
proof -
  let ?row = "stored_episode now input s"
  let ?s1 = "with_episode s ?row"
  from assms(2) have "detectPatterns now ?row ?s1 = ([], ?s1)"
    unfolding recordExperience_window [OF assms(1)] by (intro detectPatterns_skip) simp
  then show ?thesis
    by (simp add: recordExperience_store [OF assms(1)] Let_def)
qed

lemma recordExperience_patterns_insert:
  assumes "episode_ids_ok s"
    and "\<not> length (window_episodes now (ri_operation_type input) (snd (recordExperience now input s)))
             < minEpisodes"
    and "\<not> discrimination now
              (window_episodes now (ri_operation_type input) (snd (recordExperience now input s)))
             < minDiscriminationWeight"
    and "findPatternByDescription s (ri_operation_type input) = None"
  shows "patterns (snd (recordExperience now input s))
           = patterns s
             @ [detected_pattern now (ri_operation_type input)
                  (window_episodes now (ri_operation_type input) (snd (recordExperience now input s)))
                  (Suc (pattern_seq s))]"
proof -
  let ?row = "stored_episode now input s"
  let ?s1 = "with_episode s ?row"
  have s': "snd (recordExperience now input s) = snd (detectPatterns now ?row ?s1)"
    by (simp add: recordExperience_store [OF assms(1)] Let_def split_def)
  note w = recordExperience_window [OF assms(1), of now "ri_operation_type input" now input]
  have none: "findPatternByDescription ?s1 (e_operation_type ?row) = None"
    using assms(4) by (simp add: findPatternByDescription_def)
  have "patterns (snd (detectPatterns now ?row ?s1))
          = patterns s @ [detected_pattern now (ri_operation_type input)
                           (window_episodes now (ri_operation_type input) ?s1) (Suc (pattern_seq s))]"
    using assms(2,3) none unfolding w by (subst detectPatterns_insert) simp_all
  then show ?thesis
    unfolding w unfolding s' .
qed

lemma recordExperience_patterns_update:
  assumes "episode_ids_ok s"
    and "\<not> length (window_episodes now (ri_operation_type input) (snd (recordExperience now input s)))
             < minEpisodes"
    and "\<not> discrimination now
              (window_episodes now (ri_operation_type input) (snd (recordExperience now input s)))
             < minDiscriminationWeight"
    and "findPatternByDescription s (ri_operation_type input) = Some existing"
  shows "patterns (snd (recordExperience now input s))
           = map (\<lambda>p. if p_id p = p_id existing
                       then apply_pattern_updates
                              (detected_updates now
                                 (window_episodes now (ri_operation_type input)
                                    (snd (recordExperience now input s))) existing) p
                       else p) (patterns s)"
proof -
  let ?row = "stored_episode now input s"
  let ?s1 = "with_episode s ?row"
  have s': "snd (recordExperience now input s) = snd (detectPatterns now ?row ?s1)"
    by (simp add: recordExperience_store [OF assms(1)] Let_def split_def)
  note w = recordExperience_window [OF assms(1), of now "ri_operation_type input" now input]
  have some: "findPatternByDescription ?s1 (e_operation_type ?row) = Some existing"
    using assms(4) by (simp add: findPatternByDescription_def)
  have "patterns (snd (detectPatterns now ?row ?s1))
          = map (\<lambda>p. if p_id p = p_id existing
                       then apply_pattern_updates
                              (detected_updates now
                                 (window_episodes now (ri_operation_type input) ?s1) existing) p
                       else p) (patterns s)"
    using assms(2,3) some unfolding w
    by (subst detectPatterns_update [where existing = existing])
       (simp_all add: updatePattern_def detected_updates_def no_pattern_updates_def)
  then show ?thesis
    unfolding w unfolding s' .
qed

lemma window_episodes_set:
  "set (window_episodes now t s)
     \<subseteq> {e \<in> set (episodes s). e_operation_type e = t
                               \<and> now - recencyWindowDays * 24 * 60 * 60 * 1000 \<le> e_timestamp e}"
  by (auto simp: window_episodes_def getEpisodesByType_def dest: in_set_takeD)

lemma window_episodes_length:
  "length (window_episodes now t s)
     = min 500 (length (filter (\<lambda>e. e_operation_type e = t
          \<and> now - recencyWindowDays * 24 * 60 * 60 * 1000 \<le> e_timestamp e) (episodes s)))"
  by (simp add: window_episodes_def getEpisodesByType_def min.commute)

lemma window_episodes_length_le:
  "length (window_episodes now t s) \<le> length (filter (\<lambda>e. e_operation_type e = t) (episodes s))"
proof -
  have "length (filter (\<lambda>e. e_operation_type e = t
          \<and> now - recencyWindowDays * 24 * 60 * 60 * 1000 \<le> e_timestamp e) xs)
        \<le> length (filter (\<lambda>e. e_operation_type e = t) xs)" for xs :: "episode list"
    by (induction xs) (auto simp: le_SucI)
  then show ?thesis
    unfolding window_episodes_length by (rule min.coboundedI2)
qed

lemma sum_list_bounded:
  "(\<And>x. x \<in> set xs \<Longrightarrow> f x \<le> (c::real)) \<Longrightarrow> (\<Sum>x\<leftarrow>xs. f x) \<le> real (length xs) * c"
  by (induction xs) (auto simp: algebra_simps add_mono)

lemma ln_four_ge_one: "1 \<le> ln (4::real)"
proof -
  have "exp (1::real) \<le> 4"
    using exp_le by simp
  then have "ln (exp (1::real)) \<le> ln 4"
    by (subst ln_le_cancel_iff) simp_all
  then show ?thesis by simp
qed

lemma discrimination_all_success:
  assumes "3 \<le> length similar"
    and "\<And>e. e \<in> set similar \<Longrightarrow> e_outcome e = Success"
    and "\<And>e. e \<in> set similar \<Longrightarrow> now - recencyWindowDays * 24 * 60 * 60 * 1000 \<le> e_timestamp e"
  shows "0.7 \<le> discrimination now similar"
proof -
  let ?n = "real (length similar)"
  have n: "0 < ?n" using assms(1) by (cases similar) simp_all
  have "filter (\<lambda>e. e_outcome e = Success) similar = similar"
    using assms(2) by (simp add: filter_id_conv)
  then have rate: "real (length (filter (\<lambda>e. e_outcome e = Success) similar)) / ?n = 1"
    using n by simp
  have "ln 4 \<le> ln (?n + 1)"
    using assms(1) by (subst ln_le_cancel_iff) simp_all
  then have freq: "1 \<le> ln (?n + 1)"
    by (rule order_trans [OF ln_four_ge_one])
  define days where
    "days = (\<Sum>e\<leftarrow>similar. real_of_int (now - e_timestamp e)) / ?n / real_of_int msPerDay"
  have "(\<Sum>e\<leftarrow>similar. real_of_int (now - e_timestamp e)) \<le> ?n * (30 * real_of_int msPerDay)"
  proof (rule sum_list_bounded)
    fix e assume "e \<in> set similar"
    from assms(3) [OF this] show "real_of_int (now - e_timestamp e) \<le> 30 * real_of_int msPerDay"
      by (simp add: recencyWindowDays_def msPerDay_def)
  qed
  then have "(\<Sum>e\<leftarrow>similar. real_of_int (now - e_timestamp e)) / ?n \<le> 30 * real_of_int msPerDay"
    using n by (simp add: pos_divide_le_eq mult.commute)
  moreover have "0 < real_of_int msPerDay"
    by (simp add: msPerDay_def)
  ultimately have "days \<le> 30"
    unfolding days_def by (simp only: pos_divide_le_eq)
  then have "- 0.3 \<le> - decayConstant * days"
    by (simp add: decayConstant_def)
  then have "exp (- 0.3 :: real) \<le> exp (- decayConstant * days)"
    by (simp only: exp_le_cancel_iff)
  moreover have "(0.7::real) \<le> exp (- 0.3)"
    using exp_ge_add_one_self [of "- 0.3 :: real"] by simp
  ultimately have bonus: "0.7 \<le> exp (- decayConstant * days)"
    by linarith
  have "0.7 \<le> 1 * 1 * (0.7::real)" by simp
  also have "\<dots> \<le> 1 * ln (?n + 1) * exp (- decayConstant * days)"
    using freq bonus by (intro mult_mono) simp_all
  finally show ?thesis
    unfolding discrimination_def Let_def rate days_def .
qed

lemma filter_fresh_type:
  "\<forall>e \<in> set xs. e_operation_type e \<noteq> t \<Longrightarrow> filter (\<lambda>e. e_operation_type e = t \<and> P e) xs = []"
  by (induction xs) auto

lemma detected_pattern_all_success:
  assumes "3 \<le> length similar"
    and "\<And>e. e \<in> set similar \<Longrightarrow> e_outcome e = Success"
    and "\<And>e. e \<in> set similar \<Longrightarrow> now - recencyWindowDays * 24 * 60 * 60 * 1000 \<le> e_timestamp e"
  shows "p_pattern_type (detected_pattern now t similar rowid) = PSuccess"
    and "0 < p_discrimination_weight (detected_pattern now t similar rowid)"
proof -
  have "filter (\<lambda>e. e_outcome e = Success) similar = similar"
    using assms(2) by (simp add: filter_id_conv)
  then have cnt: "length (filter (\<lambda>e. e_outcome e = Success) similar) = length similar"
    by (rule arg_cong)
  have "0 < real (length similar)"
    using assms(1) by (cases similar) simp_all
  then have rate: "real (length (filter (\<lambda>e. e_outcome e = Success) similar)) / real (length similar) = 1"
    by (simp only: cnt) simp
  show "p_pattern_type (detected_pattern now t similar rowid) = PSuccess"
    by (simp add: detected_pattern_def classify_def rate)
  show "0 < p_discrimination_weight (detected_pattern now t similar rowid)"
    using discrimination_all_success [OF assms] by (simp add: detected_pattern_def)
qed

lemma refreshed_pattern_alt:
  "apply_pattern_updates (detected_updates now similar existing) p
     = refreshed_pattern now similar existing p"
  by (cases p)
     (simp add: apply_pattern_updates_def detected_updates_def no_pattern_updates_def
        refreshed_pattern_def)

text \<open>
  Claim C3 (amended). Let \<open>t\<close> be an operation type with no episode in the store. The
  first two recordings of type \<open>t\<close> create or update no pattern. If all three
  recordings have outcome success and the first two lie in the 30-day window of the
  third, the window of the third recording holds three episodes and its
  discrimination weight is positive; then, if no existing pattern's description matches
  \<open>t\<close>, the third recording creates a pattern with \<open>pattern_type\<close> success and a
  positive discrimination weight, and if the lookup finds an existing pattern, no
  pattern is created: the rows with the found pattern's id are refreshed in place
  (frequency 3, the new discrimination weight, \<open>initial_confidence\<close> averaged with that
  weight, \<open>last_seen\<close> and \<open>last_validated\<close> set to now, \<open>episode_ids\<close> replaced by the
  window's) and every pattern keeps its \<open>pattern_type\<close>. Whenever the discrimination
  weight \<open>successRate \<cdot> ln(n + 1) \<cdot> e\<^sup>-\<^sup>k\<^sup>\<cdot>\<^sup>m\<^sup>e\<^sup>a\<^sup>n\<^sup>A\<^sup>g\<^sup>e\<^sup>D\<^sup>a\<^sup>y\<^sup>s\<close> of the window is below 0.3, no
  pattern is created or updated.
\<close>

theorem detectPatterns_minimum_evidence:
  assumes ok: "episode_ids_ok s0"
    and fresh: "\<forall>e \<in> set (episodes s0). e_operation_type e \<noteq> t"
    and types: "ri_operation_type i1 = t" "ri_operation_type i2 = t" "ri_operation_type i3 = t"
  shows "(let r1 = recordExperience now1 i1 s0;
              r2 = recordExperience now2 i2 (snd r1);
              r3 = recordExperience now3 i3 (snd r2);
              similar = window_episodes now3 t (snd r3)
          in patterns (snd r1) = patterns s0 \<and> rr_patterns_triggered (fst r1) = []
             \<and> patterns (snd r2) = patterns s0 \<and> rr_patterns_triggered (fst r2) = []
             \<and> (ri_outcome i1 = Success \<and> ri_outcome i2 = Success \<and> ri_outcome i3 = Success
                 \<and> now3 - 30 * msPerDay \<le> now1 \<and> now3 - 30 * msPerDay \<le> now2
                 \<longrightarrow> length similar = 3 \<and> 0 < discrimination now3 similar
                     \<and> ((\<forall>p \<in> set (patterns s0). \<not> description_matches t p)
                          \<longrightarrow> (\<exists>p. patterns (snd r3) = patterns s0 @ [p]
                                   \<and> p_pattern_type p = PSuccess
                                   \<and> 0 < p_discrimination_weight p))
                     \<and> (\<forall>existing. findPatternByDescription s0 t = Some existing
                          \<longrightarrow> patterns (snd r3)
                                = map (\<lambda>p. if p_id p = p_id existing
                                            then refreshed_pattern now3 similar existing p
                                            else p) (patterns s0)
                              \<and> map p_pattern_type (patterns (snd r3))
                                  = map p_pattern_type (patterns s0))))
         \<and> (\<forall>now input s.
               episode_ids_ok s
               \<and> discrimination now
                    (window_episodes now (ri_operation_type input)
                       (snd (recordExperience now input s))) < 0.3
               \<longrightarrow> patterns (snd (recordExperience now input s)) = patterns s
                   \<and> rr_patterns_triggered (fst (recordExperience now input s)) = [])"
proof -
  define s1 where "s1 = snd (recordExperience now1 i1 s0)"
  define s2 where "s2 = snd (recordExperience now2 i2 s1)"
  define s3 where "s3 = snd (recordExperience now3 i3 s2)"
  define e1 where "e1 = stored_episode now1 i1 s0"
  define e2 where "e2 = stored_episode now2 i2 s1"
  define e3 where "e3 = stored_episode now3 i3 s2"
  define sim where "sim = window_episodes now3 t s3"
  have ep1: "episodes s1 = episodes s0 @ [e1]" and ok1: "episode_ids_ok s1"
    unfolding s1_def e1_def using recordExperience_episodes [OF ok] by simp_all
  have ep2: "episodes s2 = episodes s0 @ [e1, e2]" and ok2: "episode_ids_ok s2"
    unfolding s2_def e2_def using recordExperience_episodes [OF ok1] ep1 by simp_all
  have ep3: "episodes s3 = episodes s0 @ [e1, e2, e3]"
    unfolding s3_def e3_def using recordExperience_episodes [OF ok2] ep2 by simp_all
  have none: "filter (\<lambda>e. e_operation_type e = t) (episodes s0) = []"
    using fresh by (simp add: filter_empty_conv)
  have "length (filter (\<lambda>e. e_operation_type e = t) (episodes s1)) \<le> 1"
    by (simp add: ep1 none)
  then have "length (window_episodes now1 t s1) \<le> 1"
    using window_episodes_length_le [of now1 t s1] by (rule order_trans [rotated])
  then have p1: "patterns s1 = patterns s0 \<and> rr_patterns_triggered (fst (recordExperience now1 i1 s0)) = []"
    unfolding s1_def
    by (intro recordExperience_patterns_skip [OF ok] disjI1) (simp add: types minEpisodes_def)
  have "length (filter (\<lambda>e. e_operation_type e = t) (episodes s2)) \<le> 2"
    by (simp add: ep2 none)
  then have "length (window_episodes now2 t s2) \<le> 2"
    using window_episodes_length_le [of now2 t s2] by (rule order_trans [rotated])
  then have "patterns s2 = patterns s1 \<and> rr_patterns_triggered (fst (recordExperience now2 i2 s1)) = []"
    unfolding s2_def
    by (intro recordExperience_patterns_skip [OF ok1] disjI1) (simp add: types minEpisodes_def)
  with p1 have p2: "patterns s2 = patterns s0 \<and> rr_patterns_triggered (fst (recordExperience now2 i2 s1)) = []"
    by simp
  have third: "length sim = 3 \<and> 0 < discrimination now3 sim
      \<and> ((\<forall>p \<in> set (patterns s0). \<not> description_matches t p)
           \<longrightarrow> (\<exists>p. patterns s3 = patterns s0 @ [p] \<and> p_pattern_type p = PSuccess
                    \<and> 0 < p_discrimination_weight p))
      \<and> (\<forall>existing. findPatternByDescription s0 t = Some existing
           \<longrightarrow> patterns s3 = map (\<lambda>p. if p_id p = p_id existing
                                        then refreshed_pattern now3 sim existing p
                                        else p) (patterns s0)
               \<and> map p_pattern_type (patterns s3) = map p_pattern_type (patterns s0))"
    if outs: "ri_outcome i1 = Success" "ri_outcome i2 = Success" "ri_outcome i3 = Success"
      and win: "now3 - 30 * msPerDay \<le> now1" "now3 - 30 * msPerDay \<le> now2"
  proof -
    let ?inwin = "\<lambda>e. e_operation_type e = t
                    \<and> now3 - recencyWindowDays * 24 * 60 * 60 * 1000 \<le> e_timestamp e"
    have "filter ?inwin (episodes s0) = []"
      using fresh by (rule filter_fresh_type)
    moreover have "?inwin e1" "?inwin e2" "?inwin e3"
      using win types
      by (simp_all add: e1_def e2_def e3_def recencyWindowDays_def msPerDay_def)
    ultimately have "filter ?inwin (episodes s3) = [e1, e2, e3]"
      by (simp add: ep3)
    then have len: "length sim = 3"
      unfolding sim_def by (simp add: window_episodes_length)
    have mem: "e \<in> {e1, e2, e3}" if "e \<in> set sim" for e
      using window_episodes_set [of now3 t s3] that fresh unfolding ep3 sim_def by auto
    have succ: "e_outcome e = Success" if "e \<in> set sim" for e
      using mem [OF that] outs by (auto simp: e1_def e2_def e3_def)
    have inw: "now3 - recencyWindowDays * 24 * 60 * 60 * 1000 \<le> e_timestamp e" if "e \<in> set sim" for e
      using window_episodes_set [of now3 t s3] that unfolding sim_def by auto
    have three: "3 \<le> length sim" using len by simp
    have weight: "0.7 \<le> discrimination now3 sim"
      using three succ inw by (rule discrimination_all_success)
    then have strong: "\<not> discrimination now3 sim < minDiscriminationWeight"
      by (simp add: minDiscriminationWeight_def)
    have many: "\<not> length sim < minEpisodes"
      using len by (simp add: minEpisodes_def)
    have lookup: "findPatternByDescription s2 (ri_operation_type i3) = findPatternByDescription s0 t"
      using p2 by (simp add: findPatternByDescription_def types)
    have created: "\<exists>p. patterns s3 = patterns s0 @ [p] \<and> p_pattern_type p = PSuccess
                     \<and> 0 < p_discrimination_weight p"
      if nomatch: "\<forall>p \<in> set (patterns s0). \<not> description_matches t p"
    proof -
      have absent: "findPatternByDescription s2 (ri_operation_type i3) = None"
        using nomatch p2 by (simp add: findPatternByDescription_None_iff types)
      have "patterns s3 = patterns s2 @ [detected_pattern now3 t sim (Suc (pattern_seq s2))]"
        unfolding s3_def sim_def
        using recordExperience_patterns_insert [OF ok2, of now3 i3] many strong absent
        by (simp add: types s3_def sim_def)
      then show ?thesis
        using p2 detected_pattern_all_success [OF three succ inw] by simp
    qed
    have refreshed: "patterns s3 = map (\<lambda>p. if p_id p = p_id existing
                                        then refreshed_pattern now3 sim existing p
                                        else p) (patterns s0)
               \<and> map p_pattern_type (patterns s3) = map p_pattern_type (patterns s0)"
      if found: "findPatternByDescription s0 t = Some existing" for existing
    proof -
      have found2: "findPatternByDescription s2 (ri_operation_type i3) = Some existing"
        using found lookup by simp
      have "patterns s3 = map (\<lambda>p. if p_id p = p_id existing
                                     then apply_pattern_updates (detected_updates now3 sim existing) p
                                     else p) (patterns s2)"
        unfolding s3_def sim_def
        using recordExperience_patterns_update [OF ok2, of now3 i3 existing] many strong found2
        by (simp add: types s3_def sim_def)
      then have upd: "patterns s3 = map (\<lambda>p. if p_id p = p_id existing
                                        then refreshed_pattern now3 sim existing p
                                        else p) (patterns s0)"
        using p2 by (simp only: refreshed_pattern_alt)
      have "map p_pattern_type (patterns s3) = map p_pattern_type (patterns s0)"
        unfolding upd by (simp add: comp_def if_distrib refreshed_pattern_def cong: if_cong)
      with upd show ?thesis by simp
    qed
    have positive: "0 < discrimination now3 sim"
      using weight by simp
    from created have c: "(\<forall>p \<in> set (patterns s0). \<not> description_matches t p)
           \<longrightarrow> (\<exists>p. patterns s3 = patterns s0 @ [p] \<and> p_pattern_type p = PSuccess
                    \<and> 0 < p_discrimination_weight p)"
      by (rule impI)
    from refreshed have r: "\<forall>existing. findPatternByDescription s0 t = Some existing
           \<longrightarrow> patterns s3 = map (\<lambda>p. if p_id p = p_id existing
                                        then refreshed_pattern now3 sim existing p
                                        else p) (patterns s0)
               \<and> map p_pattern_type (patterns s3) = map p_pattern_type (patterns s0)"
      by (intro allI impI)
    from len positive c r show ?thesis
      by (intro conjI)
  qed
  have weak: "patterns (snd (recordExperience now input s)) = patterns s
              \<and> rr_patterns_triggered (fst (recordExperience now input s)) = []"
    if "episode_ids_ok s"
      and "discrimination now (window_episodes now (ri_operation_type input)
             (snd (recordExperience now input s))) < 0.3"
    for now input s
    using that by (intro recordExperience_patterns_skip disjI2) (simp_all add: minDiscriminationWeight_def)
  have a1: "patterns s1 = patterns s0"
    and a2: "rr_patterns_triggered (fst (recordExperience now1 i1 s0)) = []"
    and a3: "patterns s2 = patterns s0"
    and a4: "rr_patterns_triggered (fst (recordExperience now2 i2 s1)) = []"
    using p1 p2 by simp_all
  have a5: "ri_outcome i1 = Success \<and> ri_outcome i2 = Success \<and> ri_outcome i3 = Success
      \<and> now3 - 30 * msPerDay \<le> now1 \<and> now3 - 30 * msPerDay \<le> now2
      \<longrightarrow> length sim = 3 \<and> 0 < discrimination now3 sim
      \<and> ((\<forall>p \<in> set (patterns s0). \<not> description_matches t p)
           \<longrightarrow> (\<exists>p. patterns s3 = patterns s0 @ [p] \<and> p_pattern_type p = PSuccess
                    \<and> 0 < p_discrimination_weight p))
      \<and> (\<forall>existing. findPatternByDescription s0 t = Some existing
           \<longrightarrow> patterns s3 = map (\<lambda>p. if p_id p = p_id existing
                                        then refreshed_pattern now3 sim existing p
                                        else p) (patterns s0)
               \<and> map p_pattern_type (patterns s3) = map p_pattern_type (patterns s0))"
  proof (intro impI, elim conjE)
    assume "ri_outcome i1 = Success" "ri_outcome i2 = Success" "ri_outcome i3 = Success"
      "now3 - 30 * msPerDay \<le> now1" "now3 - 30 * msPerDay \<le> now2"
    then show "length sim = 3 \<and> 0 < discrimination now3 sim
      \<and> ((\<forall>p \<in> set (patterns s0). \<not> description_matches t p)
           \<longrightarrow> (\<exists>p. patterns s3 = patterns s0 @ [p] \<and> p_pattern_type p = PSuccess
                    \<and> 0 < p_discrimination_weight p))
      \<and> (\<forall>existing. findPatternByDescription s0 t = Some existing
           \<longrightarrow> patterns s3 = map (\<lambda>p. if p_id p = p_id existing
                                        then refreshed_pattern now3 sim existing p
                                        else p) (patterns s0)
               \<and> map p_pattern_type (patterns s3) = map p_pattern_type (patterns s0))"
      by (rule third)
  qed
  have a6: "\<forall>now input s.
               episode_ids_ok s
               \<and> discrimination now
                    (window_episodes now (ri_operation_type input)
                       (snd (recordExperience now input s))) < 0.3
               \<longrightarrow> patterns (snd (recordExperience now input s)) = patterns s
                   \<and> rr_patterns_triggered (fst (recordExperience now input s)) = []"
    using weak by blast
  show ?thesis
    unfolding Let_def
    using a1 a2 a3 a4 a5 a6
    unfolding s1_def s2_def s3_def sim_def
    by - (intro conjI; assumption)
qed

lemma discrimination_no_success:
  assumes "\<And>e. e \<in> set similar \<Longrightarrow> e_outcome e \<noteq> Success"
  shows "discrimination now similar = 0"
proof -
  have "filter (\<lambda>e. e_outcome e = Success) similar = []"
    using assms by (simp add: filter_empty_conv)
  then show ?thesis
    by (simp add: discrimination_def Let_def)
qed

lemma window_episodes_subset: "set (window_episodes now t s) \<subseteq> set (episodes s)"
  using window_episodes_set [of now t s] by blast

lemma apply_pattern_updates_kept [simp]:
  "p_id (apply_pattern_updates u p) = p_id p"
  "p_pattern_type (apply_pattern_updates u p) = p_pattern_type p"
  "p_description (apply_pattern_updates u p) = p_description p"
  by (simp_all add: apply_pattern_updates_def)

lemma recordExperience_below_minimum:
  assumes "episode_ids_ok s"
    and "length (filter (\<lambda>e. e_operation_type e = ri_operation_type input) (episodes s)) < 2"
  shows "patterns (snd (recordExperience now input s)) = patterns s"
proof -
  let ?t = "ri_operation_type input"
  let ?s' = "snd (recordExperience now input s)"
  have "length (filter (\<lambda>e. e_operation_type e = ?t) (episodes ?s')) < 3"
    using assms(2) by (simp add: recordExperience_episodes(1) [OF assms(1)])
  then have "length (window_episodes now ?t ?s') < minEpisodes"
    using window_episodes_length_le [of now ?t ?s'] by (simp add: minEpisodes_def)
  then show ?thesis
    using recordExperience_patterns_skip [OF assms(1)] by blast
qed

lemma recordExperience_matching_pattern:
  assumes "episode_ids_ok s"
    and "findPatternByDescription s (ri_operation_type input) = Some existing"
  shows "map p_pattern_type (patterns (snd (recordExperience now input s)))
           = map p_pattern_type (patterns s)"
    and "map p_description (patterns (snd (recordExperience now input s)))
           = map p_description (patterns s)"
proof -
  let ?s' = "snd (recordExperience now input s)"
  let ?sim = "window_episodes now (ri_operation_type input) ?s'"
  have "map p_pattern_type (patterns ?s') = map p_pattern_type (patterns s)
        \<and> map p_description (patterns ?s') = map p_description (patterns s)"
  proof (cases "length ?sim < minEpisodes \<or> discrimination now ?sim < minDiscriminationWeight")
    case True
    then show ?thesis
      using recordExperience_patterns_skip [OF assms(1)] by simp
  next
    case False
    then have "patterns ?s'
                = map (\<lambda>p. if p_id p = p_id existing
                            then apply_pattern_updates (detected_updates now ?sim existing) p
                            else p) (patterns s)"
      using recordExperience_patterns_update [OF assms(1) _ _ assms(2)] by blast
    then show ?thesis
      by (simp add: comp_def if_distrib cong: if_cong)
  qed
  then show "map p_pattern_type (patterns ?s') = map p_pattern_type (patterns s)"
    and "map p_description (patterns ?s') = map p_description (patterns s)"
    by simp_all
qed

lemma findPatternByDescription_by_descriptions:
  "(findPatternByDescription s t = None)
     = (\<forall>d \<in> set (map p_description (patterns s)). \<not> sql_like (CHR ''%'' # t @ [CHR ''%'']) d)"
  by (auto simp: findPatternByDescription_def find_None_iff)

lemma findPatternByDescription_descriptions:
  "map p_description (patterns s') = map p_description (patterns s)
   \<Longrightarrow> (findPatternByDescription s' t = None) = (findPatternByDescription s t = None)"
  by (simp only: findPatternByDescription_by_descriptions)

lemma plain_input_fields [simp]:
  "ri_operation_type (plain_input t out) = t"
  "ri_outcome (plain_input t out) = out"
  by (simp_all add: plain_input_def)

lemma empty_store_ok: "episode_ids_ok empty_store"
  by (simp add: episode_ids_ok_def empty_store_def)

lemma rebuild_history_state:
  "episode_ids_ok rebuild_history
   \<and> map e_operation_type (episodes rebuild_history) = [''rebuild'', ''rebuild'', ''rebuild'']
   \<and> map e_id (episodes rebuild_history) = [1, 2, 3]
   \<and> map p_pattern_type (patterns rebuild_history) = [PFailure]
   \<and> map p_last_seen (patterns rebuild_history) = [0]
   \<and> (\<exists>rest. map p_description (patterns rebuild_history) = [''rebuild'' @ rest])"
proof -
  let ?i1 = "plain_input ''rebuild'' Success"
  let ?i2 = "plain_input ''rebuild'' Failure"
  let ?s1 = "snd (recordExperience 0 ?i1 empty_store)"
  let ?s2 = "snd (recordExperience 0 ?i2 ?s1)"
  let ?s3 = "snd (recordExperience 0 ?i2 ?s2)"
  let ?e1 = "stored_episode 0 ?i1 empty_store"
  let ?e2 = "stored_episode 0 ?i2 ?s1"
  let ?e3 = "stored_episode 0 ?i2 ?s2"
  have hist: "rebuild_history = ?s3"
    by (simp add: rebuild_history_def record_all_def)
  note ok0 = empty_store_ok
  have ok1: "episode_ids_ok ?s1" using ok0 by (rule recordExperience_episodes)
  have ok2: "episode_ids_ok ?s2" using ok1 by (rule recordExperience_episodes)
  have ok3: "episode_ids_ok ?s3" using ok2 by (rule recordExperience_episodes)
  have e0: "episodes empty_store = []" and p0: "patterns empty_store = []"
    by (simp_all add: empty_store_def)
  have ep1: "episodes ?s1 = [?e1]"
    by (simp add: recordExperience_episodes(1) [OF ok0] e0)
  have ep2: "episodes ?s2 = [?e1, ?e2]"
    by (simp add: recordExperience_episodes(1) [OF ok1] ep1)
  have ep3: "episodes ?s3 = [?e1, ?e2, ?e3]"
    by (simp add: recordExperience_episodes(1) [OF ok2] ep2)
  have p1: "patterns ?s1 = []"
    using recordExperience_below_minimum [OF ok0, of ?i1 0] by (simp add: e0 p0)
  have p2: "patterns ?s2 = []"
    using recordExperience_below_minimum [OF ok1, of ?i2 0] by (simp add: ep1 p1)
  have sim: "window_episodes 0 ''rebuild'' ?s3 = [?e1, ?e2, ?e3]"
    by (simp add: window_episodes_def getEpisodesByType_def ep3 recencyWindowDays_def)
  have dw: "discrimination 0 [?e1, ?e2, ?e3] = ln 4 / 3"
    by (simp add: discrimination_def Let_def)
  have strong: "\<not> discrimination 0 (window_episodes 0 (ri_operation_type ?i2) ?s3)
                   < minDiscriminationWeight"
    using ln_four_ge_one by (simp add: sim dw minDiscriminationWeight_def)
  have many: "\<not> length (window_episodes 0 (ri_operation_type ?i2) ?s3) < minEpisodes"
    by (simp add: sim minEpisodes_def)
  have absent: "findPatternByDescription ?s2 (ri_operation_type ?i2) = None"
    by (simp add: findPatternByDescription_def p2)
  have p3: "patterns ?s3 = [detected_pattern 0 ''rebuild'' [?e1, ?e2, ?e3] (Suc (pattern_seq ?s2))]"
    using recordExperience_patterns_insert [OF ok2 many strong absent]
    by (simp add: p2 sim)
  have ty: "p_pattern_type (detected_pattern 0 ''rebuild'' [?e1, ?e2, ?e3] rowid) = PFailure" for rowid
    by (simp add: detected_pattern_def classify_def)
  have de: "p_description (detected_pattern 0 ''rebuild'' [?e1, ?e2, ?e3] rowid)
              = ''rebuild'' @ drop 7 (detected_description ''rebuild'' [?e1, ?e2, ?e3])" for rowid
    by (simp add: detected_pattern_def detected_description_def)
  have sq0: "episode_seq empty_store = 0"
    by (simp add: empty_store_def)
  have sq1: "episode_seq ?s1 = 1"
    by (simp add: recordExperience_episodes(2) [OF ok0] sq0)
  have sq2: "episode_seq ?s2 = 2"
    by (simp add: recordExperience_episodes(2) [OF ok1] sq1)
  have ls: "p_last_seen (detected_pattern 0 ''rebuild'' [?e1, ?e2, ?e3] rowid) = 0" for rowid
    by (simp add: detected_pattern_def)
  show ?thesis
    unfolding hist using ok3 ep3 p3 ty de ls
    by (simp add: sq0 sq1 sq2)
qed

theorem detectPatterns_minimum_evidence_witness:
  "episode_ids_ok empty_store
   \<and> patterns (snd (recordExperience 0 (plain_input ''build'' Success) empty_store)) = []
   \<and> patterns (snd (recordExperience 0 (plain_input ''build'' Success)
        (snd (recordExperience 0 (plain_input ''build'' Success) empty_store)))) = []
   \<and> map p_pattern_type
        (patterns (snd (recordExperience 0 (plain_input ''build'' Success)
          (snd (recordExperience 0 (plain_input ''build'' Success)
            (snd (recordExperience 0 (plain_input ''build'' Success) empty_store)))))))
      = [PSuccess]
   \<and> list_all (\<lambda>p. 0 < p_discrimination_weight p)
        (patterns (snd (recordExperience 0 (plain_input ''build'' Success)
          (snd (recordExperience 0 (plain_input ''build'' Success)
            (snd (recordExperience 0 (plain_input ''build'' Success) empty_store)))))))
   \<and> patterns (snd (recordExperience 0 (plain_input ''deploy'' Failure)
        (snd (recordExperience 0 (plain_input ''deploy'' Failure)
          (snd (recordExperience 0 (plain_input ''deploy'' Failure) empty_store)))))) = []
   \<and> episode_ids_ok rebuild_history
   \<and> ''build'' \<notin> set (map e_operation_type (episodes rebuild_history))
   \<and> findPatternByDescription rebuild_history ''build'' \<noteq> None
   \<and> map p_frequency
        (patterns (snd (recordExperience 0 (plain_input ''build'' Success)
          (snd (recordExperience 0 (plain_input ''build'' Success)
            (snd (recordExperience 0 (plain_input ''build'' Success) rebuild_history)))))))
      = [3]
   \<and> map p_pattern_type
        (patterns (snd (recordExperience 0 (plain_input ''build'' Success)
          (snd (recordExperience 0 (plain_input ''build'' Success)
            (snd (recordExperience 0 (plain_input ''build'' Success) rebuild_history)))))))
      = [PFailure]"
proof -
  let ?S = "plain_input ''build'' Success"
  let ?F = "plain_input ''deploy'' Failure"
  have ok0: "episode_ids_ok empty_store"
    by (simp add: episode_ids_ok_def empty_store_def)
  have fresh: "\<forall>e \<in> set (episodes empty_store). e_operation_type e \<noteq> t" for t
    by (simp add: empty_store_def)
  have p0: "patterns empty_store = []"
    by (simp add: empty_store_def)
  note built = detectPatterns_minimum_evidence [OF ok0 fresh, of ?S "''build''" ?S ?S 0 0 0,
      unfolded Let_def]
  have b1: "patterns (snd (recordExperience 0 ?S empty_store)) = []"
    and b2: "patterns (snd (recordExperience 0 ?S (snd (recordExperience 0 ?S empty_store)))) = []"
    using built by (simp_all add: plain_input_def p0)
  have "\<exists>p. patterns (snd (recordExperience 0 ?S (snd (recordExperience 0 ?S
               (snd (recordExperience 0 ?S empty_store)))))) = patterns empty_store @ [p]
            \<and> p_pattern_type p = PSuccess \<and> 0 < p_discrimination_weight p"
    using built by (simp add: plain_input_def p0 msPerDay_def)
  then have b3: "map p_pattern_type
        (patterns (snd (recordExperience 0 ?S (snd (recordExperience 0 ?S
               (snd (recordExperience 0 ?S empty_store))))))) = [PSuccess]
     \<and> list_all (\<lambda>p. 0 < p_discrimination_weight p)
        (patterns (snd (recordExperience 0 ?S (snd (recordExperience 0 ?S
               (snd (recordExperience 0 ?S empty_store)))))))"
    by (auto simp: p0)
  note failed = detectPatterns_minimum_evidence [OF ok0 fresh, of ?F "''deploy''" ?F ?F 0 0 0,
      unfolded Let_def]
  let ?f1 = "snd (recordExperience 0 ?F empty_store)"
  let ?f2 = "snd (recordExperience 0 ?F ?f1)"
  let ?f3 = "snd (recordExperience 0 ?F ?f2)"
  have f2: "patterns ?f2 = []"
    using failed by (simp add: plain_input_def p0)
  have ok1: "episode_ids_ok ?f1"
    using ok0 by (rule recordExperience_episodes)
  have ok2: "episode_ids_ok ?f2"
    using ok1 by (rule recordExperience_episodes)
  have fail: "e_outcome e \<noteq> Success" if "e \<in> set (episodes ?f3)" for e
    using that
    unfolding recordExperience_episodes(1) [OF ok2] recordExperience_episodes(1) [OF ok1]
      recordExperience_episodes(1) [OF ok0]
    by (auto simp: empty_store_def plain_input_def)
  have ty: "ri_operation_type ?F = ''deploy''"
    by (simp add: plain_input_def)
  have "discrimination 0 (window_episodes 0 (ri_operation_type ?F) ?f3) = 0"
    using window_episodes_subset fail by (intro discrimination_no_success) blast
  then have "patterns ?f3 = patterns ?f2"
    using failed [OF ty ty ty, THEN conjunct2, rule_format, of ?f2 0 ?F] ok2 by simp
  with f2 have f3: "patterns ?f3 = []"
    by simp
  from rebuild_history_state obtain rest where
    okr: "episode_ids_ok rebuild_history"
    and typesr: "map e_operation_type (episodes rebuild_history) = [''rebuild'', ''rebuild'', ''rebuild'']"
    and kinds: "map p_pattern_type (patterns rebuild_history) = [PFailure]"
    and descs: "map p_description (patterns rebuild_history) = [''rebuild'' @ rest]"
    by (elim conjE exE)
  have m1: "''build'' \<notin> set (map e_operation_type (episodes rebuild_history))"
    unfolding typesr by simp
  then have freshr: "\<forall>e \<in> set (episodes rebuild_history). e_operation_type e \<noteq> ''build''"
    by (auto simp: image_iff)
  have "sql_like (CHR ''%'' # ''build'' @ [CHR ''%'']) (''re'' @ ''build'' @ rest)"
    by (rule sql_like_contains)
  then have m2: "findPatternByDescription rebuild_history ''build'' \<noteq> None"
    unfolding findPatternByDescription_by_descriptions descs by simp
  then obtain existing where
    found: "findPatternByDescription rebuild_history ''build'' = Some existing"
    by auto
  from kinds obtain p where single: "patterns rebuild_history = [p]"
    by (auto simp: map_eq_Cons_conv)
  have same: "p_id p = p_id existing"
    using found by (simp add: findPatternByDescription_def single split: if_splits)
  let ?m3 = "snd (recordExperience 0 ?S (snd (recordExperience 0 ?S
               (snd (recordExperience 0 ?S rebuild_history)))))"
  have ty: "ri_operation_type ?S = ''build''"
    by simp
  have evidence: "ri_outcome ?S = Success \<and> ri_outcome ?S = Success \<and> ri_outcome ?S = Success
      \<and> (0::int) - 30 * msPerDay \<le> 0 \<and> (0::int) - 30 * msPerDay \<le> 0"
    by (simp add: msPerDay_def)
  note matched = detectPatterns_minimum_evidence [OF okr freshr ty ty ty, of 0 0 0,
      unfolded Let_def, THEN conjunct1, THEN conjunct2, THEN conjunct2, THEN conjunct2,
      THEN conjunct2, THEN mp, OF evidence]
  note refresh = matched [THEN conjunct2, THEN conjunct2, THEN conjunct2, THEN spec, THEN mp,
      OF found]
  have lenm: "length (window_episodes 0 ''build'' ?m3) = 3"
    by (rule matched [THEN conjunct1])
  have updm: "patterns ?m3
            = map (\<lambda>p. if p_id p = p_id existing
                        then refreshed_pattern 0 (window_episodes 0 ''build'' ?m3) existing p
                        else p) (patterns rebuild_history)"
    by (rule refresh [THEN conjunct1])
  have typm: "map p_pattern_type (patterns ?m3) = map p_pattern_type (patterns rebuild_history)"
    by (rule refresh [THEN conjunct2])
  have m3: "map p_frequency (patterns ?m3) = [3]"
    unfolding updm single by (simp add: same refreshed_pattern_def lenm)
  have m4: "map p_pattern_type (patterns ?m3) = [PFailure]"
    unfolding typm by (rule kinds)
  from ok0 b1 b2 b3 f3 okr m1 m2 m3 m4 show ?thesis
    by (simp only: simp_thms)
qed

text \<open>
  Without the condition on existing descriptions the third recording need not create a
  pattern. After one success and two failures of type \<open>rebuild\<close> the store holds one
  pattern, of type failure, described \<open>rebuild: 33% success rate over 3 episodes\<close>. That
  description contains \<open>build\<close>, so three successful recordings of the new type
  \<open>build\<close> refresh it: the store still holds that single pattern, of type failure.
\<close>

lemma record_all_matching:
  assumes "episode_ids_ok s"
    and "findPatternByDescription s t \<noteq> None"
    and "\<forall>input \<in> set inputs. ri_operation_type input = t"
  shows "map p_pattern_type (patterns (record_all now inputs s)) = map p_pattern_type (patterns s)"
  using assms
proof (induction inputs arbitrary: s)
  case Nil
  then show ?case by (simp add: record_all_def)
next
  case (Cons input inputs)
  let ?s' = "snd (recordExperience now input s)"
  from Cons.prems obtain existing where
    found: "findPatternByDescription s (ri_operation_type input) = Some existing"
    by auto
  note kept = recordExperience_matching_pattern [OF Cons.prems(1) found, of now]
  have "findPatternByDescription ?s' t \<noteq> None"
    using Cons.prems(2) findPatternByDescription_descriptions [OF kept(2), of t] by simp
  moreover have "episode_ids_ok ?s'"
    using Cons.prems(1) by (rule recordExperience_episodes)
  ultimately have "map p_pattern_type (patterns (record_all now inputs ?s'))
                     = map p_pattern_type (patterns ?s')"
    using Cons.prems(3) by (intro Cons.IH) simp_all
  then show ?case
    using kept(1) by (simp add: record_all_def)
qed

theorem detectPatterns_existing_match_counterexample:
  "''build'' \<notin> set (map e_operation_type (episodes rebuild_history))
   \<and> map p_pattern_type
        (patterns (record_all 0 [plain_input ''build'' Success, plain_input ''build'' Success,
                                  plain_input ''build'' Success] rebuild_history))
      = [PFailure]"
proof -
  from rebuild_history_state obtain rest where
    ok: "episode_ids_ok rebuild_history"
    and types: "map e_operation_type (episodes rebuild_history) = [''rebuild'', ''rebuild'', ''rebuild'']"
    and ids: "map e_id (episodes rebuild_history) = [1, 2, 3]"
    and kinds: "map p_pattern_type (patterns rebuild_history) = [PFailure]"
    and descs: "map p_description (patterns rebuild_history) = [''rebuild'' @ rest]"
    by (elim conjE exE)
  have "sql_like (CHR ''%'' # ''build'' @ [CHR ''%'']) (''re'' @ ''build'' @ rest)"
    by (rule sql_like_contains)
  then have found: "findPatternByDescription rebuild_history ''build'' \<noteq> None"
    unfolding findPatternByDescription_by_descriptions descs by simp
  have inputs: "\<forall>input \<in> set [plain_input ''build'' Success, plain_input ''build'' Success,
                                  plain_input ''build'' Success]. ri_operation_type input = ''build''"
    by simp
  have "map p_pattern_type
        (patterns (record_all 0 [plain_input ''build'' Success, plain_input ''build'' Success,
                                  plain_input ''build'' Success] rebuild_history))
      = map p_pattern_type (patterns rebuild_history)"
    using ok found inputs by (rule record_all_matching)
  then show ?thesis
    using kinds types by simp
qed

section \<open>Pattern deduplication\<close>

lemma learnFromPattern_effect:
  assumes "learnFromPattern now input s = Inr (result, s')"
  shows "episodes s' = episodes s \<and> episode_seq s' = episode_seq s
         \<and> map p_description (patterns s')
             = (case findPatternByDescription s (li_pattern_description input) of
                  Some existing \<Rightarrow> map p_description (patterns s)
                | None \<Rightarrow> map p_description (patterns s) @ [li_pattern_description input])"
proof -
  have enough: "\<not> length (getEpisodesByIds s (li_episode_ids input)) < minEpisodes"
  proof
    assume "length (getEpisodesByIds s (li_episode_ids input)) < minEpisodes"
    then have "learnFromPattern now input s
                 = Inl (InsufficientEvidence (length (getEpisodesByIds s (li_episode_ids input))))"
      by (simp add: learnFromPattern_def Let_def)
    with assms show False by simp
  qed
  show ?thesis
  proof (cases "findPatternByDescription s (li_pattern_description input)")
    case None
    from assms show ?thesis
      unfolding learnFromPattern_def Let_def
      apply (simp only: enough if_False code_learn_confidence None option.case)
      apply (clarsimp simp: insertLesson_def insertPattern_def split_def Let_def)
      done
  next
    case (Some existing)
    from assms show ?thesis
      unfolding learnFromPattern_def Let_def
      apply (simp only: enough if_False code_learn_confidence Some option.case)
      apply (clarsimp simp: insertLesson_def split_def Let_def)
      done
  qed
qed

lemma relearned_pattern_alt:
  "apply_pattern_updates
     (no_pattern_updates\<lparr>pu_frequency := Some frequency, pu_last_seen := Some now,
        pu_last_validated := Some now, pu_episode_ids := Some ids\<rparr>) p
     = relearned_pattern now frequency ids p"
  by (cases p)
     (simp add: apply_pattern_updates_def no_pattern_updates_def relearned_pattern_def)

lemma learnFromPattern_refresh:
  assumes "learnFromPattern now input s = Inr (result, s')"
    and "findPatternByDescription s (li_pattern_description input) = Some existing"
  shows "patterns s'
           = map (\<lambda>p. if p_id p = p_id existing
                       then relearned_pattern now
                              (length (getEpisodesByIds s (li_episode_ids input)))
                              (li_episode_ids input) p
                       else p) (patterns s)
         \<and> lr_pattern_id result = Some (p_id existing)"
proof -
  have enough: "\<not> length (getEpisodesByIds s (li_episode_ids input)) < minEpisodes"
  proof
    assume "length (getEpisodesByIds s (li_episode_ids input)) < minEpisodes"
    then have "learnFromPattern now input s
                 = Inl (InsufficientEvidence (length (getEpisodesByIds s (li_episode_ids input))))"
      by (simp add: learnFromPattern_def Let_def)
    with assms show False by simp
  qed
  have upd: "snd (updatePattern s i
               (no_pattern_updates\<lparr>pu_frequency := Some frequency, pu_last_seen := Some now,
                  pu_last_validated := Some now, pu_episode_ids := Some ids\<rparr>))
             = s\<lparr>patterns := map (\<lambda>p. if p_id p = i then relearned_pattern now frequency ids p
                                         else p) (patterns s)\<rparr>" for i frequency ids
    by (simp add: updatePattern_def relearned_pattern_alt)
  from assms(1) show ?thesis
    unfolding learnFromPattern_def Let_def
    apply (simp only: enough if_False code_learn_confidence assms(2) option.case upd)
    apply (clarsimp simp: insertLesson_def split_def Let_def)
    done
qed

lemma detected_pattern_description:
  "p_description (detected_pattern now t similar rowid) = t @ drop (length t) (detected_description t similar)"
  by (simp add: detected_pattern_def detected_description_def)

lemma recordExperience_descriptions:
  assumes "episode_ids_ok s"
  shows "map p_description (patterns (snd (recordExperience now input s)))
           = map p_description (patterns s)
         \<or> (findPatternByDescription s (ri_operation_type input) = None
            \<and> (\<exists>rest. map p_description (patterns (snd (recordExperience now input s)))
                        = map p_description (patterns s) @ [ri_operation_type input @ rest]))"
proof -
  let ?s' = "snd (recordExperience now input s)"
  let ?sim = "window_episodes now (ri_operation_type input) ?s'"
  show ?thesis
  proof (cases "length ?sim < minEpisodes \<or> discrimination now ?sim < minDiscriminationWeight")
    case True
    then show ?thesis
      using recordExperience_patterns_skip [OF assms] by simp
  next
    case False
    show ?thesis
    proof (cases "findPatternByDescription s (ri_operation_type input)")
      case None
      have "patterns ?s' = patterns s
              @ [detected_pattern now (ri_operation_type input) ?sim (Suc (pattern_seq s))]"
        using False None by (intro recordExperience_patterns_insert [OF assms]) simp_all
      then have "map p_description (patterns ?s')
                   = map p_description (patterns s)
                     @ [ri_operation_type input
                        @ drop (length (ri_operation_type input))
                            (detected_description (ri_operation_type input) ?sim)]"
        by (simp add: detected_pattern_description)
      with None show ?thesis by blast
    next
      case (Some existing)
      then show ?thesis
        using recordExperience_matching_pattern(2) [OF assms] by simp
    qed
  qed
qed

lemma new_description_distinct:
  assumes "findPatternByDescription s key = None"
    and "distinct (map p_description (patterns s))"
  shows "distinct (map p_description (patterns s) @ [key @ rest])"
proof -
  have "key @ rest \<notin> set (map p_description (patterns s))"
  proof
    assume "key @ rest \<in> set (map p_description (patterns s))"
    moreover have "sql_like (CHR ''%'' # key @ [CHR ''%'']) (key @ rest)"
      using sql_like_contains [of key "[]" rest] by simp
    ultimately show False
      using assms(1) unfolding findPatternByDescription_by_descriptions by blast
  qed
  with assms(2) show ?thesis by simp
qed

lemma apply_operation_invariant:
  assumes "dedup_invariant s"
  shows "dedup_invariant (apply_operation op s)"
proof (cases op)
  case (Record now input)
  have ok: "episode_ids_ok s" and d: "distinct (map p_description (patterns s))"
    using assms by (simp_all add: dedup_invariant_def)
  have "episode_ids_ok (snd (recordExperience now input s))"
    using ok by (rule recordExperience_episodes)
  moreover have "distinct (map p_description (patterns (snd (recordExperience now input s))))"
    using recordExperience_descriptions [OF ok, of now input] d new_description_distinct
    by (elim disjE conjE exE) simp_all
  ultimately show ?thesis
    using Record by (simp add: dedup_invariant_def)
next
  case (Learn now input)
  show ?thesis
  proof (cases "learnFromPattern now input s")
    case (Inl e)
    then show ?thesis using Learn assms by simp
  next
    case (Inr r)
    obtain result s' where r: "r = (result, s')" by (cases r)
    note eff = learnFromPattern_effect [OF Inr [unfolded r]]
    have ok: "episode_ids_ok s'"
      using assms eff by (simp add: dedup_invariant_def episode_ids_ok_def)
    have "distinct (map p_description (patterns s'))"
    proof (cases "findPatternByDescription s (li_pattern_description input)")
      case None
      then show ?thesis
        using eff assms new_description_distinct [OF None, of "[]"]
        by (simp add: dedup_invariant_def)
    next
      case (Some existing)
      then show ?thesis
        using eff assms by (simp add: dedup_invariant_def)
    qed
    with ok show ?thesis
      using Learn Inr r by (simp add: dedup_invariant_def)
  qed
qed

lemma run_invariant: "dedup_invariant s \<Longrightarrow> dedup_invariant (run ops s)"
  unfolding run_def
  by (induction ops arbitrary: s) (simp_all add: apply_operation_invariant)

text \<open>
  The invariant does not hold per operation type. Three successful recordings of
  \<open>build\<close> create the pattern \<open>build: 100% success rate over 3 episodes\<close>; it does not
  contain \<open>rebuild\<close>, so three successful recordings of \<open>rebuild\<close> create a second
  pattern, and the descriptions of both contain the operation type \<open>build\<close>.
\<close>

lemma build_then_rebuild_state:
  "map e_operation_type (episodes (run build_then_rebuild empty_store))
     = [''build'', ''build'', ''build'', ''rebuild'', ''rebuild'', ''rebuild'']
   \<and> (\<exists>rest. map p_description (patterns (run build_then_rebuild empty_store))
                = [''build: 100% success rate over 3 episodes'', ''rebuild'' @ rest])"
proof -
  let ?b = "plain_input ''build'' Success"
  let ?r = "plain_input ''rebuild'' Success"
  let ?s1 = "snd (recordExperience 0 ?b empty_store)"
  let ?s2 = "snd (recordExperience 0 ?b ?s1)"
  let ?s3 = "snd (recordExperience 0 ?b ?s2)"
  let ?s4 = "snd (recordExperience 0 ?r ?s3)"
  let ?s5 = "snd (recordExperience 0 ?r ?s4)"
  let ?s6 = "snd (recordExperience 0 ?r ?s5)"
  let ?e1 = "stored_episode 0 ?b empty_store"
  let ?e2 = "stored_episode 0 ?b ?s1"
  let ?e3 = "stored_episode 0 ?b ?s2"
  let ?e4 = "stored_episode 0 ?r ?s3"
  let ?e5 = "stored_episode 0 ?r ?s4"
  let ?e6 = "stored_episode 0 ?r ?s5"
  have final: "run build_then_rebuild empty_store = ?s6"
    by (simp add: run_def build_then_rebuild_def)
  note ok0 = empty_store_ok
  have ok1: "episode_ids_ok ?s1" using ok0 by (rule recordExperience_episodes)
  have ok2: "episode_ids_ok ?s2" using ok1 by (rule recordExperience_episodes)
  have ok3: "episode_ids_ok ?s3" using ok2 by (rule recordExperience_episodes)
  have ok4: "episode_ids_ok ?s4" using ok3 by (rule recordExperience_episodes)
  have ok5: "episode_ids_ok ?s5" using ok4 by (rule recordExperience_episodes)
  have e0: "episodes empty_store = []" and p0: "patterns empty_store = []"
    by (simp_all add: empty_store_def)
  have ep1: "episodes ?s1 = [?e1]"
    by (simp add: recordExperience_episodes(1) [OF ok0] e0)
  have ep2: "episodes ?s2 = [?e1, ?e2]"
    by (simp add: recordExperience_episodes(1) [OF ok1] ep1)
  have ep3: "episodes ?s3 = [?e1, ?e2, ?e3]"
    by (simp add: recordExperience_episodes(1) [OF ok2] ep2)
  have ep4: "episodes ?s4 = [?e1, ?e2, ?e3, ?e4]"
    by (simp add: recordExperience_episodes(1) [OF ok3] ep3)
  have ep5: "episodes ?s5 = [?e1, ?e2, ?e3, ?e4, ?e5]"
    by (simp add: recordExperience_episodes(1) [OF ok4] ep4)
  have ep6: "episodes ?s6 = [?e1, ?e2, ?e3, ?e4, ?e5, ?e6]"
    by (simp add: recordExperience_episodes(1) [OF ok5] ep5)
  have p1: "patterns ?s1 = []"
    using recordExperience_below_minimum [OF ok0, of ?b 0] by (simp add: e0 p0)
  have p2: "patterns ?s2 = []"
    using recordExperience_below_minimum [OF ok1, of ?b 0] by (simp add: ep1 p1)
  have sim3: "window_episodes 0 ''build'' ?s3 = [?e1, ?e2, ?e3]"
    by (simp add: window_episodes_def getEpisodesByType_def ep3 recencyWindowDays_def)
  have dw3: "discrimination 0 [?e1, ?e2, ?e3] = ln 4"
    by (simp add: discrimination_def Let_def)
  have strong3: "\<not> discrimination 0 (window_episodes 0 (ri_operation_type ?b) ?s3)
                    < minDiscriminationWeight"
    using ln_four_ge_one by (simp add: sim3 dw3 minDiscriminationWeight_def)
  have many3: "\<not> length (window_episodes 0 (ri_operation_type ?b) ?s3) < minEpisodes"
    by (simp add: sim3 minEpisodes_def)
  have absent3: "findPatternByDescription ?s2 (ri_operation_type ?b) = None"
    by (simp add: findPatternByDescription_def p2)
  have p3: "patterns ?s3 = [detected_pattern 0 ''build'' [?e1, ?e2, ?e3] (Suc (pattern_seq ?s2))]"
    using recordExperience_patterns_insert [OF ok2 many3 strong3 absent3]
    by (simp add: p2 sim3)
  have d1: "p_description (detected_pattern 0 ''build'' [?e1, ?e2, ?e3] rowid)
              = ''build: 100% success rate over 3 episodes''" for rowid
    by (simp add: detected_pattern_def detected_description_def js_round_def digit_char_def
        string_of_nat.simps)
  have p4: "patterns ?s4 = patterns ?s3"
    using recordExperience_below_minimum [OF ok3, of ?r 0] by (simp add: ep3)
  have p5: "patterns ?s5 = patterns ?s3"
    using recordExperience_below_minimum [OF ok4, of ?r 0] by (simp add: ep4 p4)
  have sim6: "window_episodes 0 ''rebuild'' ?s6 = [?e4, ?e5, ?e6]"
    by (simp add: window_episodes_def getEpisodesByType_def ep6 recencyWindowDays_def)
  have dw6: "discrimination 0 [?e4, ?e5, ?e6] = ln 4"
    by (simp add: discrimination_def Let_def)
  have strong6: "\<not> discrimination 0 (window_episodes 0 (ri_operation_type ?r) ?s6)
                    < minDiscriminationWeight"
    using ln_four_ge_one by (simp add: sim6 dw6 minDiscriminationWeight_def)
  have many6: "\<not> length (window_episodes 0 (ri_operation_type ?r) ?s6) < minEpisodes"
    by (simp add: sim6 minEpisodes_def)
  have absent6: "findPatternByDescription ?s5 (ri_operation_type ?r) = None"
    by (simp add: findPatternByDescription_def p5 p3 d1 ascii_lower_def)
  have p6: "patterns ?s6 = patterns ?s3
              @ [detected_pattern 0 ''rebuild'' [?e4, ?e5, ?e6] (Suc (pattern_seq ?s5))]"
    using recordExperience_patterns_insert [OF ok5 many6 strong6 absent6]
    by (simp add: p5 sim6)
  have d2: "p_description (detected_pattern 0 ''rebuild'' [?e4, ?e5, ?e6] rowid)
              = ''rebuild'' @ drop 7 (detected_description ''rebuild'' [?e4, ?e5, ?e6])" for rowid
    by (simp add: detected_pattern_def detected_description_def)
  have "map p_description (patterns ?s6)
          = [''build: 100% success rate over 3 episodes'',
             ''rebuild'' @ drop 7 (detected_description ''rebuild'' [?e4, ?e5, ?e6])]"
    by (simp only: p6 p3 d1 d2 map_append list.map append.simps)
  then show ?thesis
    unfolding final by (simp add: ep6)
qed

theorem pattern_dedup_counterexample:
  "\<not> one_pattern_per_type (run build_then_rebuild empty_store)"
proof -
  from build_then_rebuild_state obtain rest where
    types: "map e_operation_type (episodes (run build_then_rebuild empty_store))
              = [''build'', ''build'', ''build'', ''rebuild'', ''rebuild'', ''rebuild'']"
    and descs: "map p_description (patterns (run build_then_rebuild empty_store))
              = [''build: 100% success rate over 3 episodes'', ''rebuild'' @ rest]"
    by (elim conjE exE)
  from descs obtain p1 p2 where
    pats: "patterns (run build_then_rebuild empty_store) = [p1, p2]"
    and d1: "p_description p1 = ''build'' @ '': 100% success rate over 3 episodes''"
    and d2: "p_description p2 = ''re'' @ ''build'' @ rest"
    by (auto simp: map_eq_Cons_conv)
  have "description_matches ''build'' p1"
    using d1 by (rule description_matches_prefix)
  moreover have "description_matches ''build'' p2"
    unfolding description_matches_def d2 by (rule sql_like_contains)
  ultimately have "length (filter (description_matches ''build'')
                     (patterns (run build_then_rebuild empty_store))) = 2"
    by (simp add: pats)
  then show ?thesis
    by (simp add: one_pattern_per_type_def types)
qed

lemma recordExperience_refresh:
  assumes "episode_ids_ok s"
    and "findPatternByDescription s (ri_operation_type input) = Some existing"
  shows "patterns (snd (recordExperience now input s))
           = (if length (window_episodes now (ri_operation_type input)
                           (snd (recordExperience now input s))) < 3
                 \<or> discrimination now
                      (window_episodes now (ri_operation_type input)
                         (snd (recordExperience now input s))) < 0.3
              then patterns s
              else map (\<lambda>p. if p_id p = p_id existing
                              then refreshed_pattern now
                                     (window_episodes now (ri_operation_type input)
                                        (snd (recordExperience now input s))) existing p
                              else p) (patterns s))"
proof -
  let ?sim = "window_episodes now (ri_operation_type input) (snd (recordExperience now input s))"
  show ?thesis
  proof (cases "length ?sim < minEpisodes \<or> discrimination now ?sim < minDiscriminationWeight")
    case True
    then have "patterns (snd (recordExperience now input s)) = patterns s"
      using recordExperience_patterns_skip [OF assms(1)] by blast
    moreover have "length ?sim < 3 \<or> discrimination now ?sim < 0.3"
      using True by (simp add: minEpisodes_def minDiscriminationWeight_def)
    ultimately show ?thesis
      by (simp only: if_True)
  next
    case False
    then have "patterns (snd (recordExperience now input s))
                = map (\<lambda>p. if p_id p = p_id existing
                            then apply_pattern_updates (detected_updates now ?sim existing) p
                            else p) (patterns s)"
      using recordExperience_patterns_update [OF assms(1) _ _ assms(2)] by blast
    moreover have "\<not> (length ?sim < 3 \<or> discrimination now ?sim < 0.3)"
      using False by (simp add: minEpisodes_def minDiscriminationWeight_def)
    ultimately show ?thesis
      by (simp only: if_False refreshed_pattern_alt)
  qed
qed

text \<open>
  Claim C8 (amended). In every store state reached from the empty store by a sequence of
  record-experience and learn-from-pattern operations, no two patterns have the same
  description. Each creation path first looks up an existing pattern by description
  match (the operation type for record-experience, the supplied description for
  learn-from-pattern); when the lookup finds one, the operation inserts no pattern and
  refreshes the rows with the found pattern's id in place, keeping their descriptions
  and pattern types. Record-experience does so when the window holds at least 3
  episodes with a discrimination weight of at least 0.3 (frequency, discrimination
  weight, averaged \<open>initial_confidence\<close>, \<open>last_seen\<close>, \<open>last_validated\<close> and
  \<open>episode_ids\<close> are rewritten) and otherwise leaves every pattern as it is; a
  learn-from-pattern call that does not fail for lack of evidence rewrites frequency,
  \<open>last_seen\<close>, \<open>last_validated\<close> and \<open>episode_ids\<close> and returns the found pattern's
  id.
\<close>

theorem pattern_dedup_by_lookup:
  "(let s = run ops empty_store
    in distinct (map p_description (patterns s))
       \<and> (\<forall>now input existing.
             findPatternByDescription s (ri_operation_type input) = Some existing
             \<longrightarrow> (let s' = snd (recordExperience now input s);
                      similar = window_episodes now (ri_operation_type input) s'
                  in patterns s'
                       = (if length similar < 3 \<or> discrimination now similar < 0.3
                          then patterns s
                          else map (\<lambda>p. if p_id p = p_id existing
                                          then refreshed_pattern now similar existing p
                                          else p) (patterns s))))
       \<and> (\<forall>now input existing result s'.
             findPatternByDescription s (li_pattern_description input) = Some existing
             \<and> learnFromPattern now input s = Inr (result, s')
             \<longrightarrow> patterns s'
                   = map (\<lambda>p. if p_id p = p_id existing
                               then relearned_pattern now
                                      (length (getEpisodesByIds s (li_episode_ids input)))
                                      (li_episode_ids input) p
                               else p) (patterns s)
                 \<and> lr_pattern_id result = Some (p_id existing)))"
proof -
  let ?s = "run ops empty_store"
  have "dedup_invariant empty_store"
    by (simp add: dedup_invariant_def empty_store_ok) (simp add: empty_store_def)
  then have inv: "dedup_invariant ?s"
    by (rule run_invariant)
  then have ok: "episode_ids_ok ?s" and d: "distinct (map p_description (patterns ?s))"
    by (simp_all add: dedup_invariant_def)
  have rec: "\<forall>now input existing.
             findPatternByDescription ?s (ri_operation_type input) = Some existing
             \<longrightarrow> (let s' = snd (recordExperience now input ?s);
                      similar = window_episodes now (ri_operation_type input) s'
                  in patterns s'
                       = (if length similar < 3 \<or> discrimination now similar < 0.3
                          then patterns ?s
                          else map (\<lambda>p. if p_id p = p_id existing
                                          then refreshed_pattern now similar existing p
                                          else p) (patterns ?s)))"
    unfolding Let_def by (intro allI impI) (rule recordExperience_refresh [OF ok])
  have learn: "\<forall>now input existing result s'.
             findPatternByDescription ?s (li_pattern_description input) = Some existing
             \<and> learnFromPattern now input ?s = Inr (result, s')
             \<longrightarrow> patterns s'
                   = map (\<lambda>p. if p_id p = p_id existing
                               then relearned_pattern now
                                      (length (getEpisodesByIds ?s (li_episode_ids input)))
                                      (li_episode_ids input) p
                               else p) (patterns ?s)
                 \<and> lr_pattern_id result = Some (p_id existing)"
  proof (intro allI impI, elim conjE)
    fix now input existing result s'
    assume "findPatternByDescription ?s (li_pattern_description input) = Some existing"
      and "learnFromPattern now input ?s = Inr (result, s')"
    then show "patterns s'
                   = map (\<lambda>p. if p_id p = p_id existing
                               then relearned_pattern now
                                      (length (getEpisodesByIds ?s (li_episode_ids input)))
                                      (li_episode_ids input) p
                               else p) (patterns ?s)
                 \<and> lr_pattern_id result = Some (p_id existing)"
      by (intro learnFromPattern_refresh)
  qed
  from d rec learn show ?thesis
    unfolding Let_def by - (intro conjI; assumption)
qed

lemma rebuild_operations_run: "run rebuild_operations empty_store = rebuild_history"
  by (simp add: run_def rebuild_operations_def rebuild_history_def record_all_def)

theorem pattern_dedup_by_lookup_witness:
  "distinct (map p_description (patterns (run rebuild_operations empty_store)))
   \<and> findPatternByDescription (run rebuild_operations empty_store) ''build'' \<noteq> None
   \<and> patterns (snd (recordExperience 5 (plain_input ''build'' Success)
                      (run rebuild_operations empty_store)))
      = patterns (run rebuild_operations empty_store)
   \<and> map p_last_seen (patterns (run rebuild_operations empty_store)) = [0]
   \<and> (\<exists>result s'.
         learnFromPattern 5
           \<lparr>li_pattern_description = ''build'', li_episode_ids = [3, 2, 1],
            li_lesson_statement = ''rebuild before build''\<rparr>
           (run rebuild_operations empty_store) = Inr (result, s')
         \<and> map p_description (patterns s')
             = map p_description (patterns (run rebuild_operations empty_store))
         \<and> map p_frequency (patterns s') = [3]
         \<and> map p_last_seen (patterns s') = [5]
         \<and> map p_last_validated (patterns s') = [5]
         \<and> map p_episode_ids (patterns s') = [[3, 2, 1]])"
proof -
  let ?s = "run rebuild_operations empty_store"
  let ?recorded = "plain_input ''build'' Success"
  let ?learn = "\<lparr>li_pattern_description = ''build'', li_episode_ids = [3, 2, 1],
                  li_lesson_statement = ''rebuild before build''\<rparr>"
  note main = pattern_dedup_by_lookup [of rebuild_operations, unfolded Let_def]
  from rebuild_history_state obtain rest where
    ok: "episode_ids_ok ?s"
    and types: "map e_operation_type (episodes ?s) = [''rebuild'', ''rebuild'', ''rebuild'']"
    and ids: "map e_id (episodes ?s) = [1, 2, 3]"
    and seen: "map p_last_seen (patterns ?s) = [0]"
    and descs: "map p_description (patterns ?s) = [''rebuild'' @ rest]"
    unfolding rebuild_operations_run by (elim conjE exE)
  have "sql_like (CHR ''%'' # ''build'' @ [CHR ''%'']) (''re'' @ ''build'' @ rest)"
    by (rule sql_like_contains)
  then have found: "findPatternByDescription ?s ''build'' \<noteq> None"
    unfolding findPatternByDescription_by_descriptions descs by simp
  then obtain existing where
    existing: "findPatternByDescription ?s ''build'' = Some existing"
    by auto
  from descs obtain p where single: "patterns ?s = [p]"
    by (auto simp: map_eq_Cons_conv)
  have same: "p_id p = p_id existing"
    using existing by (simp add: findPatternByDescription_def single split: if_splits)
  have one: "length (filter (\<lambda>e. e_operation_type e = ''build'')
                       (episodes (snd (recordExperience 5 ?recorded ?s)))) = 1"
  proof -
    have "filter (\<lambda>e. e_operation_type e = ''build'') (episodes ?s)
            = filter (\<lambda>e. e_operation_type e = ''build'')
                (filter (\<lambda>e. e_operation_type e \<noteq> ''build'') (episodes ?s))"
      using types by (auto simp: map_eq_Cons_conv)
    then have "filter (\<lambda>e. e_operation_type e = ''build'') (episodes ?s) = []"
      by (simp add: filter_empty_conv)
    then show ?thesis
      by (simp add: recordExperience_episodes(1) [OF ok])
  qed
  have few: "length (window_episodes 5 ''build'' (snd (recordExperience 5 ?recorded ?s))) < 3"
    using window_episodes_length_le [of 5 "''build''" "snd (recordExperience 5 ?recorded ?s)"] one
    by simp
  have rec: "patterns (snd (recordExperience 5 ?recorded ?s)) = patterns ?s"
    using main [THEN conjunct2, THEN conjunct1, rule_format, of ?recorded existing 5]
      existing few by simp
  have "length (filter (\<lambda>e. e_id e \<in> set [3, 2, 1]) (episodes ?s))
          = length (filter (\<lambda>i. i \<in> set [3, 2, 1]) (map e_id (episodes ?s)))"
    by (simp add: filter_map comp_def)
  then have resolved: "length (getEpisodesByIds ?s (li_episode_ids ?learn)) = 3"
    unfolding ids by (simp add: getEpisodesByIds_filter)
  then have "\<not> length (getEpisodesByIds ?s (li_episode_ids ?learn)) < minEpisodes"
    by (simp add: minEpisodes_def)
  from learnFromPattern_enough [OF this, of 5] obtain result s' where
    run: "learnFromPattern 5 ?learn ?s = Inr (result, s')"
    by blast
  have refreshed: "patterns s'
      = map (\<lambda>p. if p_id p = p_id existing
                  then relearned_pattern 5 (length (getEpisodesByIds ?s (li_episode_ids ?learn)))
                         (li_episode_ids ?learn) p
                  else p) (patterns ?s)"
    using main [THEN conjunct2, THEN conjunct2, rule_format, of ?learn existing 5 result s']
      existing run by simp
  have "map p_description (patterns s') = map p_description (patterns ?s)
        \<and> map p_frequency (patterns s') = [3]
        \<and> map p_last_seen (patterns s') = [5]
        \<and> map p_last_validated (patterns s') = [5]
        \<and> map p_episode_ids (patterns s') = [[3, 2, 1]]"
    unfolding refreshed resolved single by (simp add: same relearned_pattern_def)
  with run have "learnFromPattern 5 ?learn ?s = Inr (result, s')
         \<and> map p_description (patterns s') = map p_description (patterns ?s)
         \<and> map p_frequency (patterns s') = [3]
         \<and> map p_last_seen (patterns s') = [5]
         \<and> map p_last_validated (patterns s') = [5]
         \<and> map p_episode_ids (patterns s') = [[3, 2, 1]]"
    by (rule conjI)
  then have learn: "\<exists>result s'. learnFromPattern 5 ?learn ?s = Inr (result, s')
         \<and> map p_description (patterns s') = map p_description (patterns ?s)
         \<and> map p_frequency (patterns s') = [3]
         \<and> map p_last_seen (patterns s') = [5]
         \<and> map p_last_validated (patterns s') = [5]
         \<and> map p_episode_ids (patterns s') = [[3, 2, 1]]"
    by - (rule exI, rule exI, assumption)
  from main [THEN conjunct1] found rec seen learn show ?thesis
    by - (intro conjI; assumption)
qed

section \<open>Serialisation round trip\<close>

lemma below_ten_cases:
  "d < 10 \<Longrightarrow> d = 0 \<or> d = 1 \<or> d = 2 \<or> d = 3 \<or> d = 4 \<or> d = 5 \<or> d = 6 \<or> d = 7 \<or> d = 8
     \<or> d = (9::nat)"
  by arith

lemma digit_char_digit:
  assumes "d < 10"
  shows "is_digit (digit_char d)" and "digit_value (digit_char d) = d"
  using below_ten_cases [OF assms]
  by (auto simp: digit_char_def is_digit_def digit_value_def)

lemma parse_digits_string_of_nat:
  "parse_digits acc (string_of_nat n @ rest)
     = parse_digits (acc * 10 ^ length (string_of_nat n) + n) rest"
proof (induction n arbitrary: acc rest rule: string_of_nat.induct)
  case (1 n)
  show ?case
  proof (cases "n < 10")
    case True
    then have "string_of_nat n = [digit_char n]"
      by (subst string_of_nat.simps) simp
    then show ?thesis
      using True by (simp add: digit_char_digit)
  next
    case False
    have m: "n mod 10 < 10" by simp
    have unfold: "string_of_nat n = string_of_nat (n div 10) @ [digit_char (n mod 10)]"
      using False by (subst string_of_nat.simps) simp
    have "parse_digits acc (string_of_nat n @ rest)
            = parse_digits acc (string_of_nat (n div 10) @ digit_char (n mod 10) # rest)"
      by (simp add: unfold)
    also have "\<dots> = parse_digits (acc * 10 ^ length (string_of_nat (n div 10)) + n div 10)
                       (digit_char (n mod 10) # rest)"
      using False by (rule "1.IH")
    also have "\<dots> = parse_digits ((acc * 10 ^ length (string_of_nat (n div 10)) + n div 10) * 10
                                    + n mod 10) rest"
      by (simp add: digit_char_digit [OF m])
    also have "(acc * 10 ^ length (string_of_nat (n div 10)) + n div 10) * 10 + n mod 10
                 = acc * 10 ^ length (string_of_nat n) + n"
      by (simp add: unfold algebra_simps)
    finally show ?thesis .
  qed
qed

lemma parse_digits_stop: "number_ends rest \<Longrightarrow> parse_digits acc rest = (acc, rest)"
  by (cases rest) (simp_all add: number_ends_def)

lemma parse_digits_roundtrip:
  "number_ends rest \<Longrightarrow> parse_digits 0 (string_of_nat n @ rest) = (n, rest)"
  by (simp add: parse_digits_string_of_nat parse_digits_stop)

lemma string_of_nat_head: "\<exists>d ds. string_of_nat n = d # ds \<and> is_digit d"
proof (induction n rule: string_of_nat.induct)
  case (1 n)
  show ?case
  proof (cases "n < 10")
    case True
    then have "string_of_nat n = [digit_char n]"
      by (subst string_of_nat.simps) simp
    then show ?thesis
      using True by (simp add: digit_char_digit)
  next
    case False
    then have unfold: "string_of_nat n = string_of_nat (n div 10) @ [digit_char (n mod 10)]"
      by (subst string_of_nat.simps) simp
    from False "1.IH" obtain d ds where "string_of_nat (n div 10) = d # ds" "is_digit d"
      by auto
    then show ?thesis
      by (simp add: unfold)
  qed
qed

lemma below_sixteen_cases:
  "d < 16 \<Longrightarrow> d = 0 \<or> d = 1 \<or> d = 2 \<or> d = 3 \<or> d = 4 \<or> d = 5 \<or> d = 6 \<or> d = 7 \<or> d = 8
     \<or> d = 9 \<or> d = 10 \<or> d = 11 \<or> d = 12 \<or> d = 13 \<or> d = 14 \<or> d = (15::nat)"
  by arith

lemma hex_char_value: "d < 16 \<Longrightarrow> hex_value (hex_char d) = Some d"
  using below_sixteen_cases [of d]
  by (auto simp: hex_char_def hex_value_def)

lemma parse_unicode_escape:
  assumes "(of_char c :: nat) < 32"
  shows "parse_unicode (CHR ''0'' # CHR ''0'' # hex_char (of_char c div 16)
            # hex_char (of_char c mod 16) # text)
         = map_option (\<lambda>(s, r). (c # s, r)) (parse_chars text)"
proof -
  let ?n = "of_char c :: nat"
  have hi: "?n div 16 < 16" using assms by simp
  have lo: "?n mod 16 < 16" by simp
  have zero: "hex_value (CHR ''0'') = Some 0"
    by (simp add: hex_value_def)
  have val: "((0 * 16 + 0) * 16 + ?n div 16) * 16 + ?n mod 16 = ?n"
    by simp
  have small: "?n < 256" using assms by simp
  show ?thesis
    by (simp only: parse_unicode.simps zero hex_char_value [OF hi] hex_char_value [OF lo]
        prod.case option.case Let_def val small if_True char_of_char)
qed

lemma parse_chars_escape:
  "parse_chars (escape_char c @ text) = map_option (\<lambda>(s, r). (c # s, r)) (parse_chars text)"
proof (cases "(of_char c :: nat) < 32 \<and> c \<noteq> CHR 0x08 \<and> c \<noteq> CHR 0x0C \<and> c \<noteq> CHR 0x0A
                \<and> c \<noteq> CHR 0x0D \<and> c \<noteq> CHR 0x09")
  case True
  then have "c \<noteq> CHR 0x22" "c \<noteq> CHR 0x5C"
    by auto
  with True have "escape_char c = [CHR 0x5C, CHR ''u'', CHR ''0'', CHR ''0'',
              hex_char (of_char c div 16), hex_char (of_char c mod 16)]"
    by (simp add: escape_char_def)
  then show ?thesis
    using True by (simp add: parse_unicode_escape del: parse_unicode.simps)
next
  case False
  then show ?thesis
    by (auto simp: escape_char_def unescape_def)
qed

lemma parse_chars_roundtrip:
  "parse_chars (concat (map escape_char s) @ CHR 0x22 # rest) = Some (s, rest)"
  by (induction s) (simp_all add: parse_chars_escape)

lemma is_digit_not_special:
  assumes "is_digit d"
  shows "d \<noteq> CHR ''n''" "d \<noteq> CHR ''t''" "d \<noteq> CHR ''f''" "d \<noteq> CHR 0x22" "d \<noteq> CHR ''[''"
    "d \<noteq> CHR ''{''" "d \<noteq> CHR ''-''" "d \<noteq> CHR '']''" "d \<noteq> CHR ''}''"
  using assms by (auto simp: is_digit_def)

lemma number_ends_simps [simp]:
  "number_ends []" "number_ends (CHR '','' # cs)" "number_ends (CHR '']'' # cs)"
  "number_ends (CHR ''}'' # cs)"
  by (simp_all add: number_ends_def is_digit_def)

lemma parse_value_nat:
  assumes "number_ends rest"
  shows "parse_value (Suc f) (string_of_nat m @ rest) = Some (JNum (int m), rest)"
proof -
  obtain d ds where head: "string_of_nat m = d # ds" and d: "is_digit d"
    using string_of_nat_head by blast
  have "parse_digits 0 (d # ds @ rest) = (m, rest)"
    using parse_digits_roundtrip [OF assms, of m] by (simp add: head)
  then show ?thesis
    using d is_digit_not_special [OF d]
    by (simp add: head del: parse_digits.simps)
qed

lemma parse_value_negative:
  assumes "number_ends rest"
  shows "parse_value (Suc f) (CHR ''-'' # string_of_nat m @ rest) = Some (JNum (- int m), rest)"
proof -
  obtain d ds where head: "string_of_nat m = d # ds" and d: "is_digit d"
    using string_of_nat_head by blast
  have "parse_digits 0 (d # ds @ rest) = (m, rest)"
    using parse_digits_roundtrip [OF assms, of m] by (simp add: head)
  then show ?thesis
    using d by (simp add: head del: parse_digits.simps)
qed

lemma parse_value_number:
  assumes "number_ends rest"
  shows "parse_value (Suc f) (stringify (JNum n) @ rest) = Some (JNum n, rest)"
proof (cases "n < 0")
  case True
  then show ?thesis
    using parse_value_negative [OF assms, of f "nat (- n)"] by simp
next
  case False
  then show ?thesis
    using parse_value_nat [OF assms, of f "nat n"] by simp
qed

lemma parse_value_string:
  "parse_value (Suc f) (quote s @ rest) = Some (JStr s, rest)"
  by (simp add: quote_def parse_chars_roundtrip)

lemma stringify_head:
  "\<exists>c cs. stringify v = c # cs \<and> c \<noteq> CHR '']''"
proof (cases v)
  case (JNum n)
  obtain d ds where "string_of_nat (nat n) = d # ds" "is_digit d"
    using string_of_nat_head by blast
  then show ?thesis
    using JNum is_digit_not_special(8) by auto
qed (auto simp: quote_def)

lemma stringify_elements_head:
  assumes "vs \<noteq> []"
  shows "\<exists>c cs. stringify_elements vs = c # cs \<and> c \<noteq> CHR '']''"
proof -
  obtain v ws where vs: "vs = v # ws"
    using assms by (cases vs) auto
  obtain c cs where "stringify v = c # cs" "c \<noteq> CHR '']''"
    using stringify_head by blast
  then show ?thesis
    unfolding vs by (cases ws) auto
qed

lemma stringify_members_head:
  assumes "kvs \<noteq> []"
  shows "\<exists>cs. stringify_members kvs = CHR 0x22 # cs"
proof -
  obtain k v ws where kvs: "kvs = (k, v) # ws"
    using assms by (cases kvs) auto
  show ?thesis
    unfolding kvs by (cases ws) (auto simp: quote_def)
qed

lemma parse_value_array:
  assumes "vs \<noteq> []"
  shows "parse_value (Suc f) (CHR ''['' # stringify_elements vs @ CHR '']'' # rest)
         = map_option (\<lambda>(ws, r). (JArr ws, r))
             (parse_elements f (stringify_elements vs @ CHR '']'' # rest))"
proof -
  obtain c cs where "stringify_elements vs = c # cs" "c \<noteq> CHR '']''"
    using stringify_elements_head [OF assms] by blast
  then show ?thesis
    by simp
qed

lemma parse_value_object:
  assumes "kvs \<noteq> []"
  shows "parse_value (Suc f) (CHR ''{'' # stringify_members kvs @ CHR ''}'' # rest)
         = map_option (\<lambda>(ws, r). (JObj ws, r))
             (parse_members f (stringify_members kvs @ CHR ''}'' # rest))"
proof -
  obtain cs where "stringify_members kvs = CHR 0x22 # cs"
    using stringify_members_head [OF assms] by blast
  then show ?thesis
    by simp
qed

lemma parse_members_entry:
  "parse_members (Suc f) (quote k @ CHR '':'' # text)
   = (case parse_value f text of
        None \<Rightarrow> None
      | Some (v, r2) \<Rightarrow>
          (case r2 of
             [] \<Rightarrow> None
           | d # r3 \<Rightarrow>
               if d = CHR '','' then
                 map_option (\<lambda>(kvs, r4). ((k, v) # kvs, r4)) (parse_members f r3)
               else if d = CHR ''}'' then Some ([(k, v)], r3)
               else None))"
  by (simp add: quote_def parse_chars_roundtrip)

text \<open>
  Parsing what \<open>stringify\<close> wrote gives the value back and leaves the rest of the text,
  whenever the depth bound is at least the length of the written text.
\<close>

lemma parse_stringify:
  "length (stringify v) \<le> f \<Longrightarrow> number_ends rest
     \<Longrightarrow> parse_value f (stringify v @ rest) = Some (v, rest)"
  "vs \<noteq> [] \<Longrightarrow> length (stringify_elements vs) + 1 \<le> f
     \<Longrightarrow> parse_elements f (stringify_elements vs @ CHR '']'' # rest) = Some (vs, rest)"
  "kvs \<noteq> [] \<Longrightarrow> length (stringify_members kvs) + 1 \<le> f
     \<Longrightarrow> parse_members f (stringify_members kvs @ CHR ''}'' # rest) = Some (kvs, rest)"
proof (induction v and vs and kvs arbitrary: f rest and f rest and f rest
    rule: stringify_stringify_elements_stringify_members.induct)
  case 1
  then obtain g where "f = Suc g" by (cases f) auto
  then show ?case by simp
next
  case (2 b)
  then obtain g where "f = Suc g" by (cases f; cases b) auto
  then show ?case by simp
next
  case (3 n)
  obtain c cs where "stringify (JNum n) = c # cs"
    using stringify_head by blast
  with 3 obtain g where "f = Suc g" by (cases f) auto
  then show ?case
    using parse_value_number [OF 3(2)] by simp
next
  case (4 s)
  then obtain g where "f = Suc g" by (cases f) (auto simp: quote_def)
  then show ?case
    using parse_value_string by simp
next
  case (5 vs)
  from 5(2) obtain g where f: "f = Suc g" by (cases f) auto
  show ?case
  proof (cases "vs = []")
    case True
    then show ?thesis by (simp add: f)
  next
    case False
    have "length (stringify_elements vs) + 1 \<le> g"
      using 5(2) f by simp
    then have "parse_elements g (stringify_elements vs @ CHR '']'' # rest) = Some (vs, rest)"
      using 5(1) [OF False] by simp
    then show ?thesis
      using parse_value_array [OF False, of g rest] by (simp add: f)
  qed
next
  case (6 kvs)
  from 6(2) obtain g where f: "f = Suc g" by (cases f) auto
  show ?case
  proof (cases "kvs = []")
    case True
    then show ?thesis by (simp add: f)
  next
    case False
    have "length (stringify_members kvs) + 1 \<le> g"
      using 6(2) f by simp
    then have "parse_members g (stringify_members kvs @ CHR ''}'' # rest) = Some (kvs, rest)"
      using 6(1) [OF False] by simp
    then show ?thesis
      using parse_value_object [OF False, of g rest] by (simp add: f)
  qed
next
  case 7
  then show ?case by simp
next
  case (8 v)
  from 8(3) obtain g where f: "f = Suc g" by (cases f) auto
  have "length (stringify v) \<le> g"
    using 8(3) f by simp
  then have "parse_value g (stringify v @ CHR '']'' # rest) = Some (v, CHR '']'' # rest)"
    using 8(1) by simp
  then show ?case
    by (simp add: f)
next
  case (9 v w vs)
  from 9(4) obtain g where f: "f = Suc g" by (cases f) auto
  let ?tail = "stringify_elements (w # vs) @ CHR '']'' # rest"
  have "length (stringify v) \<le> g"
    using 9(4) f by simp
  then have first: "parse_value g (stringify v @ CHR '','' # ?tail) = Some (v, CHR '','' # ?tail)"
    using 9(1) by simp
  have "length (stringify_elements (w # vs)) + 1 \<le> g"
    using 9(4) f by simp
  then have others: "parse_elements g ?tail = Some (w # vs, rest)"
    using 9(2) by simp
  have "stringify_elements (v # w # vs) @ CHR '']'' # rest = stringify v @ CHR '','' # ?tail"
    by simp
  then show ?case
    by (simp only: f parse_elements.simps first others option.case prod.case list.case
        if_True map_option_case) simp
next
  case 10
  then show ?case by simp
next
  case (11 k v)
  from 11(3) obtain g where f: "f = Suc g" by (cases f) auto
  have "length (stringify v) \<le> g"
    using 11(3) f by simp
  then have "parse_value g (stringify v @ CHR ''}'' # rest) = Some (v, CHR ''}'' # rest)"
    using 11(1) by simp
  then show ?case
    using parse_members_entry [of g k "stringify v @ CHR ''}'' # rest"] by (simp add: f)
next
  case (12 k v kv kvs)
  from 12(4) obtain g where f: "f = Suc g" by (cases f) auto
  let ?tail = "stringify_members (kv # kvs) @ CHR ''}'' # rest"
  have "length (stringify v) \<le> g"
    using 12(4) f by simp
  then have first: "parse_value g (stringify v @ CHR '','' # ?tail) = Some (v, CHR '','' # ?tail)"
    using 12(1) by simp
  have "length (stringify_members (kv # kvs)) + 1 \<le> g"
    using 12(4) f by simp
  then have others: "parse_members g ?tail = Some (kv # kvs, rest)"
    using 12(2) by simp
  have shape: "stringify_members ((k, v) # kv # kvs) @ CHR ''}'' # rest
      = quote k @ CHR '':'' # (stringify v @ CHR '','' # ?tail)"
    by simp
  show ?case
    unfolding f shape parse_members_entry
    by (simp only: first others option.case prod.case list.case if_True map_option_case) simp
qed

lemma stringify_nonempty: "stringify v \<noteq> []"
  using stringify_head [of v] by auto

lemma json_parse_stringify: "json_parse (stringify v) = Some v"
  using parse_stringify(1) [of v "length (stringify v)" "[]"]
  by (simp add: json_parse_def)

lemma stringify_example:
  "stringify (JObj [(''limit'', JNull), (''tags'', JArr [JNum (- 12), JArr [], JBool True])])
     = ''{'' @ quote ''limit'' @ '':null,'' @ quote ''tags'' @ '':[-12,[],true]}''"
  by (simp add: string_of_nat.simps digit_char_def)

text \<open>Reading a row that \<open>insertEpisode\<close> wrote never throws, and gives the episode with
  its falsy structured fields absent.\<close>

lemma parse_serialize_column:
  "parse_column (serialize_column x) = Inr (if_truthy x)"
proof (cases x)
  case None
  then show ?thesis
    by (simp add: parse_column_def serialize_column_def if_truthy_def)
next
  case (Some v)
  then show ?thesis
    by (simp add: parse_column_def serialize_column_def if_truthy_def stringify_nonempty
        json_parse_stringify)
qed

lemma rowToEpisode_episode_to_row:
  "rowToEpisode (episode_to_row rowid episode)
     = Inr (episode\<lparr>e_id := rowid,
                   e_server_name := or_null (e_server_name episode),
                   e_problem := if_truthy (e_problem episode),
                   e_solution := if_truthy (e_solution episode),
                   e_metadata := if_truthy (e_metadata episode)\<rparr>)"
  by (cases episode) (simp add: rowToEpisode_def episode_to_row_def parse_serialize_column)

lemma find_last_fresh:
  assumes "list_all (\<lambda>x. \<not> P x) xs" and "P y"
  shows "find P (xs @ [y]) = Some y"
  using assms by (induction xs) simp_all

lemma storable_if_truthy: "storable x \<Longrightarrow> if_truthy x = x"
  by (cases x) (simp_all add: storable_def if_truthy_def)

lemma getEpisode_row_inserted:
  assumes "list_all (\<lambda>row. r_id row \<le> t_seq t) (t_rows t)"
  shows "getEpisode_row (snd (insertEpisode_row t episode)) (fst (insertEpisode_row t episode))
           = Inr (Some (episode\<lparr>e_id := Suc (t_seq t),
                                 e_server_name := or_null (e_server_name episode),
                                 e_problem := if_truthy (e_problem episode),
                                 e_solution := if_truthy (e_solution episode),
                                 e_metadata := if_truthy (e_metadata episode)\<rparr>))"
proof -
  have "list_all (\<lambda>row. \<not> r_id row = Suc (t_seq t)) (t_rows t)"
    using assms by (auto simp: list_all_iff)
  then have "find (\<lambda>row. r_id row = Suc (t_seq t))
               (t_rows t @ [episode_to_row (Suc (t_seq t)) episode])
             = Some (episode_to_row (Suc (t_seq t)) episode)"
    by (rule find_last_fresh) (simp add: episode_to_row_def)
  then show ?thesis
    by (simp add: getEpisode_row_def insertEpisode_row_def Let_def rowToEpisode_episode_to_row)
qed

text \<open>The store of decoded rows used in the other sections agrees with the table of
  text rows: an insert followed by a read of the new id gives the same episode in
  both.\<close>

lemma getEpisode_row_agrees:
  assumes "list_all (\<lambda>row. r_id row \<le> t_seq t) (t_rows t)"
    and "episode_ids_ok s"
    and "t_seq t = episode_seq s"
  shows "getEpisode_row (snd (insertEpisode_row t episode)) (fst (insertEpisode_row t episode))
           = Inr (getEpisode (snd (insertEpisode s episode)) (fst (insertEpisode s episode)))"
proof -
  let ?row = "episode\<lparr>e_id := Suc (episode_seq s),
                        e_server_name := or_null (e_server_name episode),
                        e_problem := if_truthy (e_problem episode),
                        e_solution := if_truthy (e_solution episode),
                        e_metadata := if_truthy (e_metadata episode)\<rparr>"
  have "list_all (\<lambda>e. \<not> e_id e = Suc (episode_seq s)) (episodes s)"
    using assms(2) by (auto simp: episode_ids_ok_def list_all_iff)
  then have "find (\<lambda>e. e_id e = Suc (episode_seq s)) (episodes s @ [?row]) = Some ?row"
    by (rule find_last_fresh) simp
  then have "getEpisode (snd (insertEpisode s episode)) (fst (insertEpisode s episode)) = Some ?row"
    by (simp add: getEpisode_def insertEpisode_def Let_def)
  then show ?thesis
    unfolding getEpisode_row_inserted [OF assms(1)] by (simp add: assms(3))
qed

text \<open>
  Claim C9. Inserting an episode whose \<open>problem\<close>, \<open>solution\<close> and \<open>metadata\<close> are
  absent or truthy values, in particular nested objects and arrays with null leaves and
  empty arrays, and reading it back by the returned id gives the same three structures:
  the text that \<open>JSON.stringify\<close> wrote is parsed by \<open>JSON.parse\<close> to the value it was
  written from. The episode read back differs from the inserted one only in its id,
  which is the new rowid, and in an empty \<open>server_name\<close>, which is stored as NULL.
\<close>

theorem insertEpisode_roundtrip:
  assumes "list_all (\<lambda>row. r_id row \<le> t_seq t) (t_rows t)"
    and "storable (e_problem episode)"
    and "storable (e_solution episode)"
    and "storable (e_metadata episode)"
  shows "getEpisode_row (snd (insertEpisode_row t episode)) (fst (insertEpisode_row t episode))
           = Inr (Some (episode\<lparr>e_id := Suc (t_seq t),
                                 e_server_name := or_null (e_server_name episode)\<rparr>))"
  unfolding getEpisode_row_inserted [OF assms(1)]
  using assms(2-4) by (simp add: storable_if_truthy)

theorem insertEpisode_roundtrip_witness:
  "list_all (\<lambda>row. r_id row \<le> t_seq empty_table) (t_rows empty_table)
   \<and> storable (e_problem nested_episode)
   \<and> storable (e_solution nested_episode)
   \<and> storable (e_metadata nested_episode)
   \<and> getEpisode_row (snd (insertEpisode_row empty_table nested_episode)) 1
       = Inr (Some (nested_episode\<lparr>e_id := 1\<rparr>))"
  using insertEpisode_roundtrip [of empty_table nested_episode]
  by (simp add: empty_table_def nested_episode_def storable_def insertEpisode_row_def
      or_null_def)

end
